theory Spec2Isabelle
  imports Main
begin

section \<open>Token classification features: the encoder of \<open>token_classification_dataset.py\<close>\<close>

text \<open>
  The embedding follows \<open>get_features\<close> and the two dataset classes of
  \<open>nemo/collections/nlp/data/token_classification/token_classification_dataset.py\<close>.
  Python integers are \<open>int\<close>, Python lists are HOL lists, a dictionary is a map, every
  exception the code can raise is a value of \<open>error\<close>, and the two log lines that report
  the effective length and the number of truncated sentences are returned next to the six
  lists. A string is a list of HOL characters, read as the code points 0 to 255 of a
  Python \<open>str\<close>.
\<close>

subsection \<open>Errors\<close>

datatype error =
    ValueError string
  | KeyError string
  | IndexError
  | TypeError
  | UnboundLocalError
  | FileNotFoundError string

subsection \<open>Python primitives used by the encoder\<close>

text \<open>The code points below 256 for which \<open>str.isspace\<close> holds, which are the ones
  \<open>str.strip()\<close> and \<open>str.split()\<close> treat as whitespace: tab, line feed, vertical tab,
  form feed, carriage return, the four separators 0x1C..0x1F, the space, the next-line
  control U+0085 and the no-break space U+00A0.\<close>

definition whitespace :: "char list" where
  "whitespace = [CHR 0x09, CHR 0x0A, CHR 0x0B, CHR 0x0C, CHR 0x0D,
                 CHR 0x1C, CHR 0x1D, CHR 0x1E, CHR 0x1F, CHR 0x20, CHR 0x85, CHR 0xA0]"

definition is_space :: "char \<Rightarrow> bool" where
  "is_space c = (c \<in> set whitespace)"

text \<open>\<open>str.strip()\<close>: whitespace removed at both ends.\<close>

definition strip :: "string \<Rightarrow> string" where
  "strip s = rev (dropWhile is_space (rev (dropWhile is_space s)))"

text \<open>\<open>str.split()\<close> without a separator: the maximal runs of non-whitespace characters,
  in order. \<open>cur\<close> is the word being read.\<close>

fun split_from :: "string \<Rightarrow> string \<Rightarrow> string list" where
  "split_from cur [] = (if cur = [] then [] else [cur])"
| "split_from cur (c # cs) =
     (if is_space c then (if cur = [] then split_from [] cs else cur # split_from [] cs)
      else split_from (cur @ [c]) cs)"

definition split :: "string \<Rightarrow> string list" where
  "split s = split_from [] s"

text \<open>\<open>xs[k:]\<close>: a negative \<open>k\<close> counts from the end and is clamped at the start of the
  list; a non-negative \<open>k\<close> drops \<open>k\<close> elements.\<close>

definition slice_from :: "int \<Rightarrow> 'a list \<Rightarrow> 'a list" where
  "slice_from k xs =
     (if k < 0 then drop (nat (int (length xs) + k)) xs else drop (nat k) xs)"

text \<open>\<open>[x] * n\<close>: the empty list when \<open>n \<le> 0\<close>.\<close>

definition times :: "'a \<Rightarrow> int \<Rightarrow> 'a list" where
  "times x n = replicate (nat n) x"

text \<open>\<open>max(xs)\<close> raises \<open>ValueError\<close> on the empty list.\<close>

definition py_max :: "int list \<Rightarrow> error + int" where
  "py_max xs =
     (case xs of
        [] \<Rightarrow> Inl (ValueError ''max() arg is an empty sequence'')
      | x # rest \<Rightarrow> Inr (fold max rest x))"

text \<open>\<open>int(b)\<close> of a Boolean.\<close>

definition int_of_bool :: "bool \<Rightarrow> int" where
  "int_of_bool b = (if b then 1 else 0)"

subsection \<open>The tokenizer and the label vocabulary\<close>

text \<open>The tokenizer is a collaborator of the encoder: its two marker tokens, the split of a
  word into subword tokens and the mapping of tokens to ids are parameters of the model.\<close>

record tokenizer =
  cls_token :: string
  sep_token :: string
  text_to_tokens :: "string \<Rightarrow> string list"
  tokens_to_ids :: "string list \<Rightarrow> int list"

type_synonym label_ids = "(string \<rightharpoonup> int) option"

text \<open>\<open>label_ids[lab]\<close>: \<open>TypeError\<close> when \<open>label_ids\<close> is \<open>None\<close> (its default),
  \<open>KeyError\<close> when the label is not a key.\<close>

definition label_lookup :: "label_ids \<Rightarrow> string \<Rightarrow> error + int" where
  "label_lookup label_ids lab =
     (case label_ids of
        None \<Rightarrow> Inl TypeError
      | Some m \<Rightarrow> (case m lab of None \<Rightarrow> Inl (KeyError lab) | Some v \<Rightarrow> Inr v))"

text \<open>The list comprehension \<open>[label_ids[lab] for lab in labs]\<close> stops at the first error.\<close>

fun lookup_all :: "label_ids \<Rightarrow> string list \<Rightarrow> error + int list" where
  "lookup_all label_ids [] = Inr []"
| "lookup_all label_ids (lab # labs) =
     (case label_lookup label_ids lab of
        Inl e \<Rightarrow> Inl e
      | Inr v \<Rightarrow> (case lookup_all label_ids labs of Inl e \<Rightarrow> Inl e | Inr vs \<Rightarrow> Inr (v # vs)))"

subsection \<open>The first loop of \<open>get_features\<close>: one sentence\<close>

text \<open>The lists built for one sentence. \<open>labels\<close> is used only when labels are supplied.\<close>

record sent =
  subtokens :: "string list"
  input_mask :: "int list"
  loss_mask :: "int list"
  subtokens_mask :: "int list"
  labels :: "int list"

text \<open>The loop over the words of a sentence (lines 90 to 101). \<open>query_labels\<close> is
  \<open>None\<close> without labels; \<open>query_labels[j]\<close> raises \<open>IndexError\<close> when the sentence has
  more words than labels. \<open>len(word_tokens) - 1\<close> is \<open>-1\<close> for a word without tokens, and
  a list times \<open>-1\<close> is empty.\<close>

fun word_loop ::
  "tokenizer \<Rightarrow> bool \<Rightarrow> int list option \<Rightarrow> nat \<Rightarrow> string list \<Rightarrow> sent \<Rightarrow> error + sent"
where
  "word_loop tok ignore_extra_tokens query_labels j [] s = Inr s"
| "word_loop tok ignore_extra_tokens query_labels j (word # rest) s =
     (let word_tokens = text_to_tokens tok word;
          s1 = s\<lparr>subtokens := subtokens s @ word_tokens,
                 loss_mask := loss_mask s @ [1]
                    @ times (int_of_bool (\<not> ignore_extra_tokens)) (int (length word_tokens) - 1),
                 subtokens_mask := subtokens_mask s @ [1]
                    @ times 0 (int (length word_tokens) - 1)\<rparr>
      in case query_labels of
           None \<Rightarrow> word_loop tok ignore_extra_tokens query_labels (Suc j) rest s1
         | Some ql \<Rightarrow>
             if j < length ql
             then word_loop tok ignore_extra_tokens query_labels (Suc j) rest
                    (s1\<lparr>labels := labels s1 @ times (ql ! j) (int (length word_tokens))\<rparr>)
             else Inl IndexError)"

text \<open>The label lookups of one iteration (lines 85 to 88): the pad id, then the ids of the
  labels of sentence \<open>i\<close>. Without labels nothing is looked up.\<close>

definition label_prep ::
  "label_ids \<Rightarrow> string \<Rightarrow> string list list option \<Rightarrow> nat \<Rightarrow> error + (int \<times> int list) option"
where
  "label_prep label_ids pad_label raw_labels i =
     (case raw_labels of
        None \<Rightarrow> Inr None
      | Some rl \<Rightarrow>
          (case label_lookup label_ids pad_label of
             Inl e \<Rightarrow> Inl e
           | Inr pad_id \<Rightarrow>
               if i < length rl
               then (case lookup_all label_ids (rl ! i) of
                       Inl e \<Rightarrow> Inl e
                     | Inr query_labels \<Rightarrow> Inr (Some (pad_id, query_labels)))
               else Inl IndexError))"

text \<open>One iteration of the first loop (lines 79 to 114): the sentence with its start and end
  markers, and the value of the variable \<open>pad_id\<close> (\<open>None\<close>: not assigned).\<close>

definition encode_query ::
  "tokenizer \<Rightarrow> label_ids \<Rightarrow> string \<Rightarrow> string list list option \<Rightarrow> bool \<Rightarrow> bool \<Rightarrow> nat \<Rightarrow> string
     \<Rightarrow> error + (sent \<times> int option)"
where
  "encode_query tok label_ids pad_label raw_labels ignore_extra_tokens ignore_start_end i query =
     (let words = split (strip query) in
      case label_prep label_ids pad_label raw_labels i of
        Inl e \<Rightarrow> Inl e
      | Inr prep \<Rightarrow>
          (let s0 = \<lparr>subtokens = [cls_token tok],
                     input_mask = [],
                     loss_mask = [1 - int_of_bool ignore_start_end],
                     subtokens_mask = [0],
                     labels = (case prep of None \<Rightarrow> [] | Some (pad_id, _) \<Rightarrow> [pad_id])\<rparr>
           in case word_loop tok ignore_extra_tokens (map_option snd prep) 0 words s0 of
                Inl e \<Rightarrow> Inl e
              | Inr s1 \<Rightarrow>
                  (let s2 = s1\<lparr>subtokens := subtokens s1 @ [sep_token tok],
                                loss_mask := loss_mask s1 @ [1 - int_of_bool ignore_start_end],
                                subtokens_mask := subtokens_mask s1 @ [0]\<rparr>;
                       s3 = s2\<lparr>input_mask := times 1 (int (length (subtokens s2)))\<rparr>;
                       s4 = (case prep of
                               None \<Rightarrow> s3
                             | Some (pad_id, _) \<Rightarrow> s3\<lparr>labels := labels s3 @ [pad_id]\<rparr>)
                   in Inr (s4, map_option fst prep))))"

text \<open>The first loop over all sentences, \<open>i\<close> counting from 0. The parallel lists
  \<open>all_subtokens\<close>, \<open>all_loss_mask\<close>, \<open>all_subtokens_mask\<close>, \<open>all_input_mask\<close> and
  \<open>all_labels\<close> are kept as one list of sentences; \<open>sent_lengths\<close> is the list of the
  lengths of their \<open>subtokens\<close>. \<open>pad_id\<close> is the variable as the previous iterations
  left it.\<close>

fun first_loop ::
  "tokenizer \<Rightarrow> label_ids \<Rightarrow> string \<Rightarrow> string list list option \<Rightarrow> bool \<Rightarrow> bool \<Rightarrow> nat
     \<Rightarrow> string list \<Rightarrow> int option \<Rightarrow> error + (sent list \<times> int option)"
where
  "first_loop tok label_ids pad_label raw_labels iet ise i [] pad_id = Inr ([], pad_id)"
| "first_loop tok label_ids pad_label raw_labels iet ise i (query # rest) pad_id =
     (case encode_query tok label_ids pad_label raw_labels iet ise i query of
        Inl e \<Rightarrow> Inl e
      | Inr (s, pad_id1) \<Rightarrow>
          (case first_loop tok label_ids pad_label raw_labels iet ise (Suc i) rest
                  (case pad_id1 of None \<Rightarrow> pad_id | Some p \<Rightarrow> Some p) of
             Inl e \<Rightarrow> Inl e
           | Inr (ss, pad_id2) \<Rightarrow> Inr (s # ss, pad_id2)))"

subsection \<open>The second loop of \<open>get_features\<close>: truncation and padding\<close>

text \<open>One row of the six lists that \<open>get_features\<close> returns.\<close>

record row =
  input_ids :: "int list"
  segment_ids :: "int list"
  row_input_mask :: "int list"
  row_loss_mask :: "int list"
  row_subtokens_mask :: "int list"
  row_labels :: "int list"

text \<open>Lines 123 to 129: the start marker followed by the slice \<open>[-max_seq_length + 1:]\<close>
  of every list. \<open>lab\<close> is \<open>Some pad_id\<close> with labels and \<open>None\<close> without.\<close>

definition truncate_sent :: "tokenizer \<Rightarrow> bool \<Rightarrow> int option \<Rightarrow> int \<Rightarrow> sent \<Rightarrow> sent" where
  "truncate_sent tok ignore_start_end lab max_seq_length s =
     \<lparr>subtokens = [cls_token tok] @ slice_from (- max_seq_length + 1) (subtokens s),
      input_mask = [1] @ slice_from (- max_seq_length + 1) (input_mask s),
      loss_mask = [int_of_bool (\<not> ignore_start_end)]
                    @ slice_from (- max_seq_length + 1) (loss_mask s),
      subtokens_mask = [0] @ slice_from (- max_seq_length + 1) (subtokens_mask s),
      labels = (case lab of
                  None \<Rightarrow> labels s
                | Some pad_id \<Rightarrow> [pad_id] @ slice_from (- max_seq_length + 1) (labels s))\<rparr>"

text \<open>Lines 132 to 144: the ids of the (possibly truncated) subtokens, the padding of a
  sentence shorter than \<open>max_seq_length\<close>, and the segment ids.\<close>

definition pad_sent :: "tokenizer \<Rightarrow> int option \<Rightarrow> int \<Rightarrow> sent \<Rightarrow> row" where
  "pad_sent tok lab max_seq_length s =
     (let ids = tokens_to_ids tok (subtokens s);
          seg = times 0 max_seq_length
      in if int (length (subtokens s)) < max_seq_length
         then (let extra = max_seq_length - int (length (subtokens s))
               in \<lparr>input_ids = ids @ times 0 extra,
                   segment_ids = seg,
                   row_input_mask = input_mask s @ times 0 extra,
                   row_loss_mask = loss_mask s @ times 0 extra,
                   row_subtokens_mask = subtokens_mask s @ times 0 extra,
                   row_labels = (case lab of
                                   None \<Rightarrow> labels s
                                 | Some pad_id \<Rightarrow> labels s @ times pad_id extra)\<rparr>)
         else \<lparr>input_ids = ids,
               segment_ids = seg,
               row_input_mask = input_mask s,
               row_loss_mask = loss_mask s,
               row_subtokens_mask = subtokens_mask s,
               row_labels = labels s\<rparr>)"

text \<open>The second loop (lines 121 to 144), with the counter \<open>too_long_count\<close>.\<close>

fun second_loop ::
  "tokenizer \<Rightarrow> bool \<Rightarrow> int option \<Rightarrow> int \<Rightarrow> sent list \<Rightarrow> nat \<Rightarrow> row list \<times> nat"
where
  "second_loop tok ignore_start_end lab max_seq_length [] too_long_count = ([], too_long_count)"
| "second_loop tok ignore_start_end lab max_seq_length (s # rest) too_long_count =
     (let too_long = (int (length (subtokens s)) > max_seq_length);
          s1 = (if too_long then truncate_sent tok ignore_start_end lab max_seq_length s else s);
          count1 = (if too_long then too_long_count + 1 else too_long_count);
          r = pad_sent tok lab max_seq_length s1;
          (rs, count2) = second_loop tok ignore_start_end lab max_seq_length rest count1
      in (r # rs, count2))"

subsection \<open>\<open>get_features\<close>\<close>

text \<open>The six lists returned, and what the two log lines report.\<close>

record features =
  all_input_ids :: "int list list"
  all_segment_ids :: "int list list"
  all_input_mask :: "int list list"
  all_loss_mask :: "int list list"
  all_subtokens_mask :: "int list list"
  all_labels :: "int list list"

record report =
  max_length :: int
  too_long :: nat

text \<open>\<open>get_features\<close> (lines 39 to 157). \<open>with_label\<close> is \<open>raw_labels is not None\<close>. The
  second loop reads \<open>pad_id\<close> only with labels; the variable is assigned as soon as the
  first loop has run once, and reading it unassigned would raise \<open>UnboundLocalError\<close>.
  Without labels \<open>all_labels\<close> stays the empty list. \<open>get_stats\<close> and the example records
  only log.\<close>

definition get_features ::
  "string list \<Rightarrow> int \<Rightarrow> tokenizer \<Rightarrow> label_ids \<Rightarrow> string \<Rightarrow> string list list option \<Rightarrow> bool \<Rightarrow> bool
     \<Rightarrow> error + (features \<times> report)"
where
  "get_features queries max_seq_length tok label_ids pad_label raw_labels
       ignore_extra_tokens ignore_start_end =
     (let with_label = (raw_labels \<noteq> None) in
      case first_loop tok label_ids pad_label raw_labels ignore_extra_tokens ignore_start_end
             0 queries None of
        Inl e \<Rightarrow> Inl e
      | Inr (sents, pad_id) \<Rightarrow>
          (case py_max (map (\<lambda>s. int (length (subtokens s))) sents) of
             Inl e \<Rightarrow> Inl e
           | Inr longest \<Rightarrow>
               (let max_seq_length1 = min max_seq_length longest in
                if with_label \<and> pad_id = None then Inl UnboundLocalError
                else
                  (let lab = (if with_label then pad_id else None);
                       (rows, too_long_count) =
                          second_loop tok ignore_start_end lab max_seq_length1 sents 0
                   in Inr (\<lparr>all_input_ids = map input_ids rows,
                             all_segment_ids = map segment_ids rows,
                             all_input_mask = map row_input_mask rows,
                             all_loss_mask = map row_loss_mask rows,
                             all_subtokens_mask = map row_subtokens_mask rows,
                             all_labels = (if with_label then map row_labels rows else [])\<rparr>,
                            \<lparr>max_length = max_seq_length1, too_long = too_long_count\<rparr>)))))"

subsection \<open>Indexing and paths\<close>

text \<open>\<open>xs[idx]\<close>: a negative index counts from the end, an index out of range raises
  \<open>IndexError\<close>.\<close>

definition py_index :: "'a list \<Rightarrow> int \<Rightarrow> error + 'a" where
  "py_index xs idx =
     (let n = int (length xs); j = (if idx < 0 then n + idx else idx)
      in if 0 \<le> j \<and> j < n then Inr (xs ! nat j) else Inl IndexError)"

text \<open>\<open>s.endswith(suffix)\<close>.\<close>

definition endswith :: "string \<Rightarrow> string \<Rightarrow> bool" where
  "endswith s suffix =
     (length suffix \<le> length s \<and> drop (length s - length suffix) s = suffix)"

text \<open>\<open>os.path.basename\<close>, \<open>os.path.dirname\<close> and \<open>os.path.join\<close> of two parts, for
  POSIX paths: the base name is what follows the last slash; the directory name is what
  precedes it, without its trailing slashes unless it consists of slashes only.\<close>

definition slash :: char where
  "slash = CHR 0x2F"

definition basename :: "string \<Rightarrow> string" where
  "basename p = rev (takeWhile (\<lambda>c. c \<noteq> slash) (rev p))"

definition dirname :: "string \<Rightarrow> string" where
  "dirname p =
     (let head = rev (dropWhile (\<lambda>c. c \<noteq> slash) (rev p))
      in if head \<noteq> [] \<and> head \<noteq> replicate (length head) slash
         then rev (dropWhile (\<lambda>c. c = slash) (rev head))
         else head)"

definition path_join :: "string \<Rightarrow> string \<Rightarrow> string" where
  "path_join a b =
     (if b \<noteq> [] \<and> hd b = slash then b
      else if a = [] \<or> last a = slash then a @ b
      else a @ [slash] @ b)"

text \<open>\<open>str(n)\<close> of an integer: its decimal digits, with a minus sign when negative.\<close>

fun str_nat :: "nat \<Rightarrow> string" where
  "str_nat n =
     (if n < 10 then [''0123456789'' ! n]
      else str_nat (n div 10) @ [''0123456789'' ! (n mod 10)])"

text \<open>The equation of \<open>str_nat\<close> applies to its own right-hand side; it is used through
  the two lemmas \<open>str_nat_digit\<close> and \<open>str_nat_digits\<close> only.\<close>

declare str_nat.simps [simp del]

definition str_int :: "int \<Rightarrow> string" where
  "str_int n = (if n < 0 then CHR ''-'' # str_nat (nat (- n)) else str_nat (nat n))"

subsection \<open>\<open>BertTokenClassificationInferDataset\<close>\<close>

text \<open>The inference dataset keeps the first five of the six lists.\<close>

record infer_dataset =
  infer_input_ids :: "int list list"
  infer_segment_ids :: "int list list"
  infer_input_mask :: "int list list"
  infer_loss_mask :: "int list list"
  infer_subtokens_mask :: "int list list"

text \<open>\<open>__init__\<close> (lines 331 to 338) calls \<open>get_features\<close> with its defaults:
  no label ids, pad label \<open>'O'\<close>, no labels, both flags off.\<close>

definition infer_init :: "string list \<Rightarrow> int \<Rightarrow> tokenizer \<Rightarrow> error + infer_dataset" where
  "infer_init queries max_seq_length tok =
     (case get_features queries max_seq_length tok None ''O'' None False False of
        Inl e \<Rightarrow> Inl e
      | Inr (features, log) \<Rightarrow>
          Inr \<lparr>infer_input_ids = all_input_ids features,
               infer_segment_ids = all_segment_ids features,
               infer_input_mask = all_input_mask features,
               infer_loss_mask = all_loss_mask features,
               infer_subtokens_mask = all_subtokens_mask features\<rparr>)"

definition infer_len :: "infer_dataset \<Rightarrow> nat" where
  "infer_len ds = length (infer_input_ids ds)"

text \<open>\<open>__getitem__\<close> (lines 343 to 350): the five arrays at \<open>idx\<close>, read in this order.\<close>

definition infer_getitem ::
  "infer_dataset \<Rightarrow> int \<Rightarrow> error + (int list \<times> int list \<times> int list \<times> int list \<times> int list)"
where
  "infer_getitem ds idx =
     (case py_index (infer_input_ids ds) idx of
        Inl err \<Rightarrow> Inl err
      | Inr a \<Rightarrow>
     (case py_index (infer_segment_ids ds) idx of
        Inl err \<Rightarrow> Inl err
      | Inr b \<Rightarrow>
     (case py_index (infer_input_mask ds) idx of
        Inl err \<Rightarrow> Inl err
      | Inr c \<Rightarrow>
     (case py_index (infer_loss_mask ds) idx of
        Inl err \<Rightarrow> Inl err
      | Inr d \<Rightarrow>
     (case py_index (infer_subtokens_mask ds) idx of
        Inl err \<Rightarrow> Inl err
      | Inr m \<Rightarrow> Inr (a, b, c, d, m))))))"

subsection \<open>\<open>BertTokenClassificationDataset\<close>\<close>

text \<open>What the constructor reads and writes outside its arguments: the text files (a file is
  the list of its lines), the pickled feature files, and the state of
  \<open>torch.distributed\<close>. The files are shared with the other processes of the group.\<close>

record env =
  files :: "string \<rightharpoonup> string list"
  pickles :: "string \<rightharpoonup> features"
  dist_initialized :: bool
  dist_rank :: int

text \<open>\<open>open(path, 'r')\<close> followed by reading the lines.\<close>

definition read_lines :: "env \<Rightarrow> string \<Rightarrow> error + string list" where
  "read_lines e path =
     (case files e path of None \<Rightarrow> Inl (FileNotFoundError path) | Some ls \<Rightarrow> Inr ls)"

text \<open>Line 230: the path of the cached features. \<open>tokenizer_type\<close> is the class name of
  the wrapped tokenizer and \<open>vocab_size\<close> the attribute read with default 0; both are
  parameters here.\<close>

definition features_pkl_path :: "string \<Rightarrow> string \<Rightarrow> int \<Rightarrow> int \<Rightarrow> string" where
  "features_pkl_path text_file tokenizer_type max_seq_length vocab_size =
     path_join (dirname text_file)
       (''cached_'' @ basename text_file @ ''_'' @ tokenizer_type @ ''_''
          @ str_int max_seq_length @ ''_'' @ str_int vocab_size)"

text \<open>Lines 251 to 257: with a positive \<open>num_samples\<close> the pairs of lines are cut to the
  first \<open>num_samples\<close> and unzipped; \<open>dataset[0]\<close> raises \<open>IndexError\<close> when no pair is
  left. Otherwise all lines are kept.\<close>

definition take_samples ::
  "int \<Rightarrow> string list \<Rightarrow> string list list \<Rightarrow> error + (string list \<times> string list list)"
where
  "take_samples num_samples text_lines labels_lines =
     (if num_samples > 0
      then (let dataset = take (nat num_samples) (zip text_lines labels_lines)
            in if dataset = [] then Inl IndexError
               else Inr (map fst dataset, map snd dataset))
      else Inr (text_lines, labels_lines))"

text \<open>Lines 236 to 270: the features computed from the two files.\<close>

definition compute_features ::
  "env \<Rightarrow> string \<Rightarrow> string \<Rightarrow> int \<Rightarrow> tokenizer \<Rightarrow> label_ids \<Rightarrow> int \<Rightarrow> string \<Rightarrow> bool \<Rightarrow> bool
     \<Rightarrow> error + features"
where
  "compute_features e text_file label_file max_seq_length tok label_ids num_samples pad_label
       ignore_extra_tokens ignore_start_end =
     (if num_samples = 0 then Inl (ValueError ''num_samples has to be positive'')
      else
        (case read_lines e text_file of
           Inl err \<Rightarrow> Inl err
         | Inr text_lines \<Rightarrow>
        (case read_lines e label_file of
           Inl err \<Rightarrow> Inl err
         | Inr label_file_lines \<Rightarrow>
          (let labels_lines = map (\<lambda>line. split (strip line)) label_file_lines
           in if length labels_lines \<noteq> length text_lines
              then Inl (ValueError ''Labels file should contain labels for every word'')
              else
                (case take_samples num_samples text_lines labels_lines of
                   Inl err \<Rightarrow> Inl err
                 | Inr (text_lines1, labels_lines1) \<Rightarrow>
                    (case get_features text_lines1 max_seq_length tok label_ids pad_label
                            (Some labels_lines1) ignore_extra_tokens ignore_start_end of
                       Inl err \<Rightarrow> Inl err
                     | Inr (features, log) \<Rightarrow> Inr features))))))"

text \<open>The training dataset holds the six lists.\<close>

record dataset =
  ds_input_ids :: "int list list"
  ds_segment_ids :: "int list list"
  ds_input_mask :: "int list list"
  ds_loss_mask :: "int list list"
  ds_subtokens_mask :: "int list list"
  ds_labels :: "int list list"

text \<open>\<open>torch.distributed.barrier()\<close> (line 275) blocks this process until every process
  of the group has reached it; the other processes run meanwhile, and the master process
  dumps the features before it reaches the barrier. A barrier is therefore a function from
  the files as this process leaves them to the files as it finds them when the barrier
  returns, or to \<open>None\<close> when the barrier never returns, which happens when another
  process raises before it reaches the barrier.\<close>

type_synonym barrier = "env \<Rightarrow> env option"

text \<open>\<open>__init__\<close> (lines 208 to 285): the check of the extension, then, on the master
  process and when the cached file is absent or to be overwritten, the computation and the
  dump of the features, then the barrier when \<open>torch.distributed\<close> is initialised, then
  the load of the cached file. The result is \<open>None\<close> when the constructor never returns;
  otherwise it is the error raised, or the dataset and the files as they are at the
  load.\<close>

definition dataset_init ::
  "env \<Rightarrow> barrier \<Rightarrow> string \<Rightarrow> string \<Rightarrow> int \<Rightarrow> tokenizer \<Rightarrow> string \<Rightarrow> int \<Rightarrow> label_ids
     \<Rightarrow> int \<Rightarrow> string \<Rightarrow> bool \<Rightarrow> bool \<Rightarrow> bool \<Rightarrow> (error + (dataset \<times> env)) option"
where
  "dataset_init e barrier text_file label_file max_seq_length tok tokenizer_type vocab_size
       label_ids num_samples pad_label ignore_extra_tokens ignore_start_end
       overwrite_processed_files =
     (let filename = basename text_file in
      if \<not> endswith filename ''.txt''
      then Some (Inl (ValueError ''{text_file} should have extension .txt''))
      else
        (let features_pkl = features_pkl_path text_file tokenizer_type max_seq_length vocab_size;
             master_device = (\<not> dist_initialized e \<or> dist_rank e = 0);
             written =
               (if master_device \<and> (overwrite_processed_files \<or> pickles e features_pkl = None)
                then (case compute_features e text_file label_file max_seq_length tok label_ids
                             num_samples pad_label ignore_extra_tokens ignore_start_end of
                        Inl err \<Rightarrow> Inl err
                      | Inr features \<Rightarrow>
                          Inr (e\<lparr>pickles := (pickles e)(features_pkl \<mapsto> features)\<rparr>))
                else Inr e)
         in case written of
              Inl err \<Rightarrow> Some (Inl err)
            | Inr e1 \<Rightarrow>
                (case (if dist_initialized e then barrier e1 else Some e1) of
                   None \<Rightarrow> None
                 | Some e2 \<Rightarrow>
                     (case pickles e2 features_pkl of
                        None \<Rightarrow> Some (Inl (FileNotFoundError features_pkl))
                      | Some features \<Rightarrow>
                          Some (Inr (\<lparr>ds_input_ids = all_input_ids features,
                                      ds_segment_ids = all_segment_ids features,
                                      ds_input_mask = all_input_mask features,
                                      ds_loss_mask = all_loss_mask features,
                                      ds_subtokens_mask = all_subtokens_mask features,
                                      ds_labels = all_labels features\<rparr>, e2))))))"

section \<open>Notions of the specification\<close>

subsection \<open>Words, lengths and the effective max length\<close>

text \<open>The words of a sentence are what the first loop iterates over. A sentence gives two
  markers and the subwords of its words; the effective max length is the minimum of the
  configured length and the longest sentence of the batch. \<open>last_n n xs\<close> is the list of
  the last \<open>n\<close> elements of \<open>xs\<close>.\<close>

definition query_words :: "string \<Rightarrow> string list" where
  "query_words q = split (strip q)"

definition sent_length :: "tokenizer \<Rightarrow> string \<Rightarrow> nat" where
  "sent_length tok q = 2 + sum_list (map (\<lambda>w. length (text_to_tokens tok w)) (query_words q))"

definition effective_max_length :: "int \<Rightarrow> tokenizer \<Rightarrow> string list \<Rightarrow> int" where
  "effective_max_length max_seq_length tok queries =
     min max_seq_length (Max (set (map (\<lambda>q. int (sent_length tok q)) queries)))"

definition last_n :: "nat \<Rightarrow> 'a list \<Rightarrow> 'a list" where
  "last_n n xs = drop (length xs - n) xs"

text \<open>The number of words of a string, counted without splitting it: the number of positions
  that hold a non-whitespace character and follow the start of the string or a whitespace
  character. \<open>in_word\<close> tells whether the previous character belongs to a word.\<close>

fun word_starts :: "bool \<Rightarrow> string \<Rightarrow> nat" where
  "word_starts in_word [] = 0"
| "word_starts in_word (c # cs) =
     (if is_space c then word_starts False cs
      else (if in_word then 0 else 1) + word_starts True cs)"

definition word_count :: "string \<Rightarrow> nat" where
  "word_count s = word_starts False s"

subsection \<open>The tokenizer and the labels\<close>

text \<open>Modelled from the spec: the tokenizer is not part of the sources. The spec has it split
  a word into one or more subwords and map every subword to an integer id; these are the
  two properties of a tokenizer that the theorems about lengths and positions rely on.\<close>

definition subwords_nonempty :: "tokenizer \<Rightarrow> string list \<Rightarrow> bool" where
  "subwords_nonempty tok queries =
     (\<forall>q \<in> set queries. \<forall>w \<in> set (query_words q). text_to_tokens tok w \<noteq> [])"

definition ids_per_token :: "tokenizer \<Rightarrow> bool" where
  "ids_per_token tok = (\<forall>ts. length (tokens_to_ids tok ts) = length ts)"

text \<open>Well-formed labels: the inputs on which the label lookups of the first loop raise
  nothing. Without labels nothing is required; with labels the vocabulary is present and
  holds the pad label, every sentence has its line of labels, every label of these lines
  is in the vocabulary, and a line has at least as many labels as the sentence has words.
  Lemma \<open>get_features_returns_iff\<close> shows that for a non-empty batch these are exactly
  the inputs on which \<open>get_features\<close> returns.\<close>

definition labels_ok :: "label_ids \<Rightarrow> string \<Rightarrow> string list list option \<Rightarrow> string list \<Rightarrow> bool" where
  "labels_ok label_ids pad_label raw_labels queries =
     (case raw_labels of
        None \<Rightarrow> True
      | Some rl \<Rightarrow>
          (case label_ids of
             None \<Rightarrow> False
           | Some m \<Rightarrow>
               m pad_label \<noteq> None \<and> length queries \<le> length rl \<and>
               (\<forall>i < length queries.
                  (\<forall>l \<in> set (rl ! i). m l \<noteq> None) \<and>
                  length (query_words (queries ! i)) \<le> length (rl ! i))))"

subsection \<open>The policy of the two masks\<close>

text \<open>The kind of a position of the subtoken sequence: the start marker, the first subword
  of a word, a continuation subword, the end marker; and the loss-mask bit and the
  alignment bit that the specification gives to each kind.\<close>

datatype position = Start | First | Continuation | End

definition word_positions :: "string list \<Rightarrow> position list" where
  "word_positions word_tokens =
     (case word_tokens of [] \<Rightarrow> [] | t # rest \<Rightarrow> First # map (\<lambda>_. Continuation) rest)"

definition sentence_positions :: "tokenizer \<Rightarrow> string \<Rightarrow> position list" where
  "sentence_positions tok q =
     Start # concat (map (\<lambda>w. word_positions (text_to_tokens tok w)) (query_words q)) @ [End]"

fun loss_bit :: "bool \<Rightarrow> bool \<Rightarrow> position \<Rightarrow> int" where
  "loss_bit ignore_extra_tokens ignore_start_end Start = (if ignore_start_end then 0 else 1)"
| "loss_bit ignore_extra_tokens ignore_start_end First = 1"
| "loss_bit ignore_extra_tokens ignore_start_end Continuation =
     (if ignore_extra_tokens then 0 else 1)"
| "loss_bit ignore_extra_tokens ignore_start_end End = (if ignore_start_end then 0 else 1)"

fun align_bit :: "position \<Rightarrow> int" where
  "align_bit Start = 0"
| "align_bit First = 1"
| "align_bit Continuation = 0"
| "align_bit End = 0"

text \<open>The index, in the subtoken sequence of a sentence, of the first subword of its word
  number \<open>j\<close>: one for the start marker plus the subwords of the words before it.\<close>

definition word_offset :: "tokenizer \<Rightarrow> string list \<Rightarrow> nat \<Rightarrow> nat" where
  "word_offset tok ws j = 1 + length (concat (map (text_to_tokens tok) (take j ws)))"

subsection \<open>The training dataset\<close>

text \<open>The condition of line 235 under which the constructor computes the features, and the
  dataset made of six lists.\<close>

definition recomputes :: "env \<Rightarrow> string \<Rightarrow> string \<Rightarrow> int \<Rightarrow> int \<Rightarrow> bool \<Rightarrow> bool" where
  "recomputes e text_file tokenizer_type max_seq_length vocab_size overwrite_processed_files =
     ((\<not> dist_initialized e \<or> dist_rank e = 0) \<and>
      (overwrite_processed_files \<or>
       pickles e (features_pkl_path text_file tokenizer_type max_seq_length vocab_size) = None))"

definition dataset_of :: "features \<Rightarrow> dataset" where
  "dataset_of features =
     \<lparr>ds_input_ids = all_input_ids features,
      ds_segment_ids = all_segment_ids features,
      ds_input_mask = all_input_mask features,
      ds_loss_mask = all_loss_mask features,
      ds_subtokens_mask = all_subtokens_mask features,
      ds_labels = all_labels features\<rparr>"

text \<open>The end of the constructor, from the barrier on: \<open>e1\<close> are the files as this process
  leaves them before the barrier, which it passes only when \<open>torch.distributed\<close> is
  initialised; then the cached file is loaded.\<close>

definition load_cached :: "env \<Rightarrow> barrier \<Rightarrow> string \<Rightarrow> (error + (dataset \<times> env)) option" where
  "load_cached e1 barrier features_pkl =
     (case (if dist_initialized e1 then barrier e1 else Some e1) of
        None \<Rightarrow> None
      | Some e2 \<Rightarrow>
          (case pickles e2 features_pkl of
             None \<Rightarrow> Some (Inl (FileNotFoundError features_pkl))
           | Some features \<Rightarrow> Some (Inr (dataset_of features, e2))))"

section \<open>Closed forms of the loops\<close>

text \<open>What the loops of \<open>get_features\<close> compute, written without accumulators: the
  contribution of one word to each list, the four lists of a sentence, one row of the
  second loop, and the six lists made of the rows. The lemmas below prove that the loops
  compute exactly these.\<close>

definition word_loss :: "tokenizer \<Rightarrow> bool \<Rightarrow> string \<Rightarrow> int list" where
  "word_loss tok iet w = 1 # times (int_of_bool (\<not> iet)) (int (length (text_to_tokens tok w)) - 1)"

definition word_align :: "tokenizer \<Rightarrow> string \<Rightarrow> int list" where
  "word_align tok w = 1 # times 0 (int (length (text_to_tokens tok w)) - 1)"

definition word_labels :: "tokenizer \<Rightarrow> string \<times> int \<Rightarrow> int list" where
  "word_labels tok wl = times (snd wl) (int (length (text_to_tokens tok (fst wl))))"

definition built_subtokens :: "tokenizer \<Rightarrow> string \<Rightarrow> string list" where
  "built_subtokens tok q =
     cls_token tok # concat (map (text_to_tokens tok) (query_words q)) @ [sep_token tok]"

definition built_loss_mask :: "tokenizer \<Rightarrow> bool \<Rightarrow> bool \<Rightarrow> string \<Rightarrow> int list" where
  "built_loss_mask tok iet ise q =
     (1 - int_of_bool ise) # concat (map (word_loss tok iet) (query_words q))
        @ [1 - int_of_bool ise]"

definition built_subtokens_mask :: "tokenizer \<Rightarrow> string \<Rightarrow> int list" where
  "built_subtokens_mask tok q = 0 # concat (map (word_align tok) (query_words q)) @ [0]"

definition built_labels :: "tokenizer \<Rightarrow> int \<Rightarrow> int list \<Rightarrow> string \<Rightarrow> int list" where
  "built_labels tok pad_id ql q =
     pad_id # concat (map (word_labels tok) (zip (query_words q) ql)) @ [pad_id]"

definition fit :: "tokenizer \<Rightarrow> bool \<Rightarrow> int option \<Rightarrow> int \<Rightarrow> sent \<Rightarrow> row" where
  "fit tok ise lab m s =
     pad_sent tok lab m
       (if int (length (subtokens s)) > m then truncate_sent tok ise lab m s else s)"

definition rows_features :: "bool \<Rightarrow> row list \<Rightarrow> features" where
  "rows_features with_label rows =
     \<lparr>all_input_ids = map input_ids rows,
      all_segment_ids = map segment_ids rows,
      all_input_mask = map row_input_mask rows,
      all_loss_mask = map row_loss_mask rows,
      all_subtokens_mask = map row_subtokens_mask rows,
      all_labels = (if with_label then map row_labels rows else [])\<rparr>"

section \<open>Concrete inputs\<close>

text \<open>A tokenizer that splits a word into its characters and gives a token its length as id,
  two label vocabularies (the pad label \<open>O\<close> with id 0, and with id 7 to tell it from the
  zero padding), two small batches with their labels, a sentence with a no-break space,
  and two environments of the training dataset on a single process, one with a cached
  feature file and one without.\<close>

definition ex_tok :: tokenizer where
  "ex_tok = \<lparr>cls_token = ''[CLS]'', sep_token = ''[SEP]'',
             text_to_tokens = (\<lambda>w. map (\<lambda>c. [c]) w),
             tokens_to_ids = map (\<lambda>t. int (length t))\<rparr>"

definition ex_label_ids :: label_ids where
  "ex_label_ids = Some [''O'' \<mapsto> 0, ''B'' \<mapsto> 1]"

definition ex_label_ids_b :: label_ids where
  "ex_label_ids_b = Some [''O'' \<mapsto> 7, ''B'' \<mapsto> 1]"

definition ex_queries :: "string list" where
  "ex_queries = [''ab c'', ''d'']"

definition ex_raw_labels :: "string list list" where
  "ex_raw_labels = [[''B'', ''O''], [''O'']]"

definition ex_queries_b :: "string list" where
  "ex_queries_b = [''ab c'', ''de'']"

definition ex_raw_labels_b :: "string list list" where
  "ex_raw_labels_b = [[''B'', ''O''], [''B'']]"

text \<open>A sentence of two words separated by a no-break space.\<close>

definition ex_query_nbsp :: string where
  "ex_query_nbsp = [CHR ''a'', CHR 0xA0, CHR ''b'']"

definition ex_features :: features where
  "ex_features =
     \<lparr>all_input_ids = [[5, 1, 5]], all_segment_ids = [[0, 0, 0]],
      all_input_mask = [[1, 1, 1]], all_loss_mask = [[1, 1, 1]],
      all_subtokens_mask = [[0, 1, 0]], all_labels = [[0, 1, 0]]\<rparr>"

definition ex_env_cached :: env where
  "ex_env_cached =
     \<lparr>files = [''d/t.txt'' \<mapsto> [''a'', ''b'', ''c''], ''d/l.txt'' \<mapsto> [''B'', ''B'']],
      pickles = [''d/cached_t.txt_BertTokenizer_4_0'' \<mapsto> ex_features],
      dist_initialized = False,
      dist_rank = 0\<rparr>"

definition ex_env_fresh :: env where
  "ex_env_fresh =
     \<lparr>files = [''d/t.txt'' \<mapsto> [''a'', ''b'', ''c''], ''d/l.txt'' \<mapsto> [''B'', ''B'']],
      pickles = Map.empty,
      dist_initialized = False,
      dist_rank = 0\<rparr>"

text \<open>Two processes of a group that share a directory with one sentence and its label, and
  no cached file: the master, which finds the files at the barrier as it left them, and
  another process, which finds there the features the master has dumped meanwhile, or
  waits for ever when the master has raised.\<close>

definition ex_env_master :: env where
  "ex_env_master =
     \<lparr>files = [''d/t.txt'' \<mapsto> [''d''], ''d/l.txt'' \<mapsto> [''B'']],
      pickles = Map.empty,
      dist_initialized = True,
      dist_rank = 0\<rparr>"

definition ex_env_worker :: env where
  "ex_env_worker =
     \<lparr>files = [''d/t.txt'' \<mapsto> [''d''], ''d/l.txt'' \<mapsto> [''B'']],
      pickles = Map.empty,
      dist_initialized = True,
      dist_rank = 1\<rparr>"

definition ex_barrier_same :: barrier where
  "ex_barrier_same e = Some e"

definition ex_barrier_dumped :: barrier where
  "ex_barrier_dumped e =
     Some (e\<lparr>pickles := (pickles e)(''d/cached_t.txt_BertTokenizer_4_0'' \<mapsto> ex_features)\<rparr>)"

definition ex_barrier_never :: barrier where
  "ex_barrier_never e = None"

section \<open>The loops and their closed forms\<close>

subsection \<open>The first loop\<close>

text \<open>The word loop, one iteration of the first loop and the first loop itself: what they
  return, and when they return.\<close>

lemma word_loop_subtokens:
  "word_loop tok iet ql j ws s = Inr s' \<Longrightarrow>
     subtokens s' = subtokens s @ concat (map (text_to_tokens tok) ws)"
  by (induction ws arbitrary: s j) (auto simp: Let_def split: option.splits if_splits)

lemma word_loop_input_mask:
  "word_loop tok iet ql j ws s = Inr s' \<Longrightarrow> input_mask s' = input_mask s"
  by (induction ws arbitrary: s j) (auto simp: Let_def split: option.splits if_splits)

lemma word_loop_loss_mask:
  "word_loop tok iet ql j ws s = Inr s' \<Longrightarrow>
     loss_mask s' = loss_mask s @ concat (map (word_loss tok iet) ws)"
  by (induction ws arbitrary: s j) (auto simp: Let_def word_loss_def split: option.splits if_splits)

lemma word_loop_subtokens_mask:
  "word_loop tok iet ql j ws s = Inr s' \<Longrightarrow>
     subtokens_mask s' = subtokens_mask s @ concat (map (word_align tok) ws)"
  by (induction ws arbitrary: s j) (auto simp: Let_def word_align_def split: option.splits if_splits)

lemma word_loop_labels_None:
  "word_loop tok iet None j ws s = Inr s' \<Longrightarrow> labels s' = labels s"
  by (induction ws arbitrary: s j) (auto simp: Let_def)

lemma word_loop_labels_Some:
  "word_loop tok iet (Some ql) j ws s = Inr s' \<Longrightarrow>
     labels s' = labels s @ concat (map (word_labels tok) (zip ws (drop j ql)))"
proof (induction ws arbitrary: s j)
  case Nil
  then show ?case by simp
next
  case (Cons w ws)
  from Cons.prems have j: "j < length ql"
    by (auto simp: Let_def split: if_splits)
  then have d: "drop j ql = ql ! j # drop (Suc j) ql"
    by (simp add: Cons_nth_drop_Suc)
  from Cons.prems j show ?case
    by (auto simp: Let_def d word_labels_def dest!: Cons.IH)
qed

lemma word_loop_Some_bound:
  "word_loop tok iet (Some ql) j ws s = Inr s' \<Longrightarrow> j \<le> length ql \<Longrightarrow> j + length ws \<le> length ql"
  by (induction ws arbitrary: s j) (fastforce simp: Let_def split: if_splits)+

lemma word_loop_returns_None: "\<exists>s'. word_loop tok iet None j ws s = Inr s'"
  by (induction ws arbitrary: s j) (auto simp: Let_def)

lemma word_loop_returns_Some:
  "j + length ws \<le> length ql \<Longrightarrow> \<exists>s'. word_loop tok iet (Some ql) j ws s = Inr s'"
  by (induction ws arbitrary: s j) (auto simp: Let_def)

lemma encode_query_cases:
  assumes "encode_query tok lids pad rl iet ise i q = Inr (s, p)"
  obtains st s1 where
    "label_prep lids pad rl i = Inr st"
    "word_loop tok iet (map_option snd st) 0 (split (strip q))
       \<lparr>subtokens = [cls_token tok], input_mask = [],
        loss_mask = [1 - int_of_bool ise], subtokens_mask = [0],
        labels = (case st of None \<Rightarrow> [] | Some (pad_id, _) \<Rightarrow> [pad_id])\<rparr> = Inr s1"
    "subtokens s = subtokens s1 @ [sep_token tok]"
    "input_mask s = replicate (Suc (length (subtokens s1))) 1"
    "loss_mask s = loss_mask s1 @ [1 - int_of_bool ise]"
    "subtokens_mask s = subtokens_mask s1 @ [0]"
    "labels s = (case st of None \<Rightarrow> labels s1 | Some (pad_id, _) \<Rightarrow> labels s1 @ [pad_id])"
    "p = map_option fst st"
  using assms
  by (auto simp: encode_query_def Let_def times_def nat_add_distrib
      split: sum.splits option.splits)

lemma encode_query_masks:
  assumes "encode_query tok lids pad rl iet ise i q = Inr (s, p)"
  shows "subtokens s = built_subtokens tok q"
    and "input_mask s = replicate (length (built_subtokens tok q)) 1"
    and "loss_mask s = built_loss_mask tok iet ise q"
    and "subtokens_mask s = built_subtokens_mask tok q"
proof -
  from assms obtain st s1 where
    w: "word_loop tok iet (map_option snd st) 0 (split (strip q))
       \<lparr>subtokens = [cls_token tok], input_mask = [],
        loss_mask = [1 - int_of_bool ise], subtokens_mask = [0],
        labels = (case st of None \<Rightarrow> [] | Some (pad_id, _) \<Rightarrow> [pad_id])\<rparr> = Inr s1" and
    s: "subtokens s = subtokens s1 @ [sep_token tok]"
       "input_mask s = replicate (Suc (length (subtokens s1))) 1"
       "loss_mask s = loss_mask s1 @ [1 - int_of_bool ise]"
       "subtokens_mask s = subtokens_mask s1 @ [0]"
    by (rule encode_query_cases)
  from word_loop_subtokens [OF w] s show a: "subtokens s = built_subtokens tok q"
    by (simp add: built_subtokens_def query_words_def)
  from word_loop_subtokens [OF w] s
  show "input_mask s = replicate (length (built_subtokens tok q)) 1"
    by (simp add: built_subtokens_def query_words_def)
  from word_loop_loss_mask [OF w] s show "loss_mask s = built_loss_mask tok iet ise q"
    by (simp add: built_loss_mask_def query_words_def)
  from word_loop_subtokens_mask [OF w] s show "subtokens_mask s = built_subtokens_mask tok q"
    by (simp add: built_subtokens_mask_def query_words_def)
qed

lemma encode_query_None:
  assumes "encode_query tok lids pad None iet ise i q = Inr (s, p)"
  shows "p = None" and "labels s = []"
proof -
  from assms obtain st s1 where
    l: "label_prep lids pad None i = Inr st" and
    w: "word_loop tok iet (map_option snd st) 0 (split (strip q))
       \<lparr>subtokens = [cls_token tok], input_mask = [],
        loss_mask = [1 - int_of_bool ise], subtokens_mask = [0],
        labels = (case st of None \<Rightarrow> [] | Some (pad_id, _) \<Rightarrow> [pad_id])\<rparr> = Inr s1" and
    s: "labels s = (case st of None \<Rightarrow> labels s1 | Some (pad_id, _) \<Rightarrow> labels s1 @ [pad_id])"
       "p = map_option fst st"
    by (rule encode_query_cases)
  from l have n: "st = None"
    by (simp add: label_prep_def)
  with s show "p = None" by simp
  from w n have "labels s1 = []"
    by (auto dest: word_loop_labels_None)
  with s n show "labels s = []" by simp
qed

lemma encode_query_Some:
  assumes "encode_query tok lids pad (Some rl) iet ise i q = Inr (s, p)"
  shows "\<exists>pad_id ql. label_lookup lids pad = Inr pad_id \<and> i < length rl \<and>
           lookup_all lids (rl ! i) = Inr ql \<and> p = Some pad_id \<and>
           length (query_words q) \<le> length ql \<and>
           labels s = built_labels tok pad_id ql q"
proof -
  from assms obtain st s1 where
    l: "label_prep lids pad (Some rl) i = Inr st" and
    w: "word_loop tok iet (map_option snd st) 0 (split (strip q))
       \<lparr>subtokens = [cls_token tok], input_mask = [],
        loss_mask = [1 - int_of_bool ise], subtokens_mask = [0],
        labels = (case st of None \<Rightarrow> [] | Some (pad_id, _) \<Rightarrow> [pad_id])\<rparr> = Inr s1" and
    s: "labels s = (case st of None \<Rightarrow> labels s1 | Some (pad_id, _) \<Rightarrow> labels s1 @ [pad_id])"
       "p = map_option fst st"
    by (rule encode_query_cases)
  from l obtain pad_id ql where
    a: "label_lookup lids pad = Inr pad_id" "i < length rl"
       "lookup_all lids (rl ! i) = Inr ql" "st = Some (pad_id, ql)"
    by (auto simp: label_prep_def split: sum.splits if_splits)
  from w a have w': "word_loop tok iet (Some ql) 0 (split (strip q))
       \<lparr>subtokens = [cls_token tok], input_mask = [],
        loss_mask = [1 - int_of_bool ise], subtokens_mask = [0],
        labels = [pad_id]\<rparr> = Inr s1"
    by simp
  from word_loop_Some_bound [OF w'] have b: "length (query_words q) \<le> length ql"
    by (simp add: query_words_def)
  from word_loop_labels_Some [OF w'] s a
  have "labels s = built_labels tok pad_id ql q"
    by (simp add: built_labels_def query_words_def)
  with a b s show ?thesis by simp
qed

lemma encode_query_returns_None:
  "\<exists>s. encode_query tok lids pad None iet ise i q = Inr (s, None)"
proof -
  let ?s0 = "\<lparr>subtokens = [cls_token tok], input_mask = [],
              loss_mask = [1 - int_of_bool ise], subtokens_mask = [0], labels = []\<rparr>"
  obtain s1 where "word_loop tok iet None 0 (split (strip q)) ?s0 = Inr s1"
    using word_loop_returns_None by blast
  then show ?thesis
    by (simp add: encode_query_def label_prep_def Let_def)
qed

lemma encode_query_returns_Some:
  assumes "label_lookup lids pad = Inr pad_id" and "i < length rl"
    and "lookup_all lids (rl ! i) = Inr ql" and "length (query_words q) \<le> length ql"
  shows "\<exists>s. encode_query tok lids pad (Some rl) iet ise i q = Inr (s, Some pad_id)"
proof -
  let ?s0 = "\<lparr>subtokens = [cls_token tok], input_mask = [],
              loss_mask = [1 - int_of_bool ise], subtokens_mask = [0], labels = [pad_id]\<rparr>"
  obtain s1 where "word_loop tok iet (Some ql) 0 (split (strip q)) ?s0 = Inr s1"
    using word_loop_returns_Some [of 0 "split (strip q)" ql tok iet ?s0] assms(4)
    by (auto simp: query_words_def)
  with assms(1-3) show ?thesis
    by (simp add: encode_query_def label_prep_def Let_def)
qed

lemma lookup_all_Some:
  "lookup_all (Some m) labs = Inr vs \<longleftrightarrow> (\<forall>l \<in> set labs. m l \<noteq> None) \<and> vs = map (\<lambda>l. the (m l)) labs"
proof (induction labs arbitrary: vs)
  case Nil
  then show ?case by auto
next
  case (Cons l labs)
  show ?case
  proof (cases "lookup_all (Some m) labs")
    case (Inl e)
    with Cons.IH show ?thesis
      by (auto simp: label_lookup_def split: option.splits)
  next
    case (Inr ws)
    with Cons.IH [of ws] show ?thesis
      by (auto simp: label_lookup_def split: option.splits)
  qed
qed

lemma lookup_all_length: "lookup_all lids labs = Inr vs \<Longrightarrow> length vs = length labs"
  by (induction labs arbitrary: vs) (auto split: sum.splits)

lemma lookup_all_nth:
  "lookup_all lids labs = Inr vs \<Longrightarrow> k < length labs \<Longrightarrow> label_lookup lids (labs ! k) = Inr (vs ! k)"
  by (induction labs arbitrary: vs k) (auto split: sum.splits simp: nth_Cons split: nat.splits)

lemma first_loop_nth:
  "first_loop tok lids pad rl iet ise i qs pid = Inr (ss, pid') \<Longrightarrow>
     length ss = length qs \<and>
     (\<forall>k<length qs. \<exists>p. encode_query tok lids pad rl iet ise (i + k) (qs ! k) = Inr (ss ! k, p))"
proof (induction qs arbitrary: i ss pid)
  case Nil
  then show ?case by simp
next
  case (Cons q qs)
  from Cons.prems obtain s p1 ss1 where
    e: "encode_query tok lids pad rl iet ise i q = Inr (s, p1)" and
    r: "first_loop tok lids pad rl iet ise (Suc i) qs
          (case p1 of None \<Rightarrow> pid | Some p \<Rightarrow> Some p) = Inr (ss1, pid')" and
    ss: "ss = s # ss1"
    by (auto split: sum.splits prod.splits)
  from Cons.IH [OF r] have l: "length ss1 = length qs" and
    n: "\<And>k. k < length qs \<Longrightarrow>
          \<exists>p. encode_query tok lids pad rl iet ise (Suc i + k) (qs ! k) = Inr (ss1 ! k, p)"
    by auto
  have "\<exists>p. encode_query tok lids pad rl iet ise (i + k) ((q # qs) ! k) = Inr (ss ! k, p)"
    if "k < length (q # qs)" for k
  proof (cases k)
    case 0
    with e ss show ?thesis by auto
  next
    case (Suc k')
    with that n [of k'] ss show ?thesis by auto
  qed
  with l ss show ?case by simp
qed

lemma first_loop_pad_id_None:
  "first_loop tok lids pad None iet ise i qs pid = Inr (ss, pid') \<Longrightarrow> pid' = pid"
proof (induction qs arbitrary: i ss pid)
  case Nil
  then show ?case by simp
next
  case (Cons q qs)
  then show ?case
    by (fastforce split: sum.splits prod.splits dest: encode_query_None)
qed

lemma first_loop_pad_id_Some:
  "first_loop tok lids pad (Some rl) iet ise i qs pid = Inr (ss, pid') \<Longrightarrow>
     (qs = [] \<and> pid' = pid) \<or> (\<exists>pad_id. label_lookup lids pad = Inr pad_id \<and> pid' = Some pad_id)"
proof (induction qs arbitrary: i ss pid)
  case Nil
  then show ?case by simp
next
  case (Cons q qs)
  from Cons.prems obtain s p1 ss1 where
    e: "encode_query tok lids pad (Some rl) iet ise i q = Inr (s, p1)" and
    r: "first_loop tok lids pad (Some rl) iet ise (Suc i) qs
          (case p1 of None \<Rightarrow> pid | Some p \<Rightarrow> Some p) = Inr (ss1, pid')"
    by (auto split: sum.splits prod.splits)
  from encode_query_Some [OF e] obtain pad_id where
    p: "label_lookup lids pad = Inr pad_id" "p1 = Some pad_id"
    by blast
  from Cons.IH [OF r] p show ?case by auto
qed

lemma first_loop_returns:
  "(\<And>k. k < length qs \<Longrightarrow> \<exists>s p. encode_query tok lids pad rl iet ise (i + k) (qs ! k) = Inr (s, p))
     \<Longrightarrow> \<exists>ss pid'. first_loop tok lids pad rl iet ise i qs pid = Inr (ss, pid')"
proof (induction qs arbitrary: i pid)
  case Nil
  then show ?case by simp
next
  case (Cons q qs)
  from Cons.prems [of 0] obtain s p where
    e: "encode_query tok lids pad rl iet ise i q = Inr (s, p)"
    by auto
  have "\<exists>s p. encode_query tok lids pad rl iet ise (Suc i + k) (qs ! k) = Inr (s, p)"
    if "k < length qs" for k
    using Cons.prems [of "Suc k"] that by simp
  from Cons.IH [OF this] obtain ss pid' where
    "first_loop tok lids pad rl iet ise (Suc i) qs
       (case p of None \<Rightarrow> pid | Some p \<Rightarrow> Some p) = Inr (ss, pid')"
    by blast
  with e show ?case by simp
qed

subsection \<open>The second loop and \<open>get_features\<close>\<close>

lemma second_loop_eq:
  "second_loop tok ise lab m ss c =
     (map (fit tok ise lab m) ss, c + length (filter (\<lambda>s. int (length (subtokens s)) > m) ss))"
  by (induction ss arbitrary: c) (auto simp: Let_def fit_def)

lemma py_max_eq: "xs \<noteq> [] \<Longrightarrow> py_max xs = Inr (Max (set xs))"
proof (cases xs)
  case Nil
  assume "xs \<noteq> []"
  with Nil show ?thesis by simp
next
  case (Cons a list)
  have "fold max list a = Max (set (a # list))"
    by (rule Max.set_eq_fold [symmetric])
  with Cons show ?thesis
    by (simp add: py_max_def)
qed

lemma py_max_Nil: "py_max [] = Inl (ValueError ''max() arg is an empty sequence'')"
  by (simp add: py_max_def)

lemma get_features_first_loop:
  assumes "first_loop tok lids pad rl iet ise 0 qs None = Inr (ss, pid)" and "qs \<noteq> []"
  shows "get_features qs m tok lids pad rl iet ise =
           Inr (rows_features (rl \<noteq> None)
                  (map (fit tok ise (if rl \<noteq> None then pid else None)
                          (min m (Max (set (map (\<lambda>s. int (length (subtokens s))) ss))))) ss),
                \<lparr>max_length = min m (Max (set (map (\<lambda>s. int (length (subtokens s))) ss))),
                 too_long = length (filter (\<lambda>s. int (length (subtokens s))
                     > min m (Max (set (map (\<lambda>s. int (length (subtokens s))) ss)))) ss)\<rparr>)"
proof -
  from first_loop_nth [OF assms(1)] assms(2) have ne: "ss \<noteq> []"
    by auto
  have pid: "\<not> (rl \<noteq> None \<and> pid = None)"
  proof (cases rl)
    case None
    then show ?thesis by simp
  next
    case (Some labs)
    with first_loop_pad_id_Some [of tok lids pad labs iet ise 0 qs None ss pid] assms
    show ?thesis by auto
  qed
  from ne have "py_max (map (\<lambda>s. int (length (subtokens s))) ss)
      = Inr (Max (set (map (\<lambda>s. int (length (subtokens s))) ss)))"
    by (intro py_max_eq) simp
  with assms(1) pid show ?thesis
    unfolding get_features_def Let_def
    by (simp add: second_loop_eq rows_features_def)
qed

lemma get_features_Nil:
  "get_features [] m tok lids pad rl iet ise = Inl (ValueError ''max() arg is an empty sequence'')"
  by (simp add: get_features_def py_max_def)

lemma get_features_Inr_first_loop:
  assumes "get_features qs m tok lids pad rl iet ise = Inr r"
  shows "qs \<noteq> [] \<and> (\<exists>ss pid. first_loop tok lids pad rl iet ise 0 qs None = Inr (ss, pid))"
  using assms
  by (cases qs) (auto simp: get_features_def py_max_def Let_def split: sum.splits prod.splits)

subsection \<open>The errors of the first loop\<close>

lemma word_loop_error: "word_loop tok iet ql j ws s = Inl e \<Longrightarrow> e = IndexError"
  by (induction ws arbitrary: s j) (auto simp: Let_def split: option.splits if_splits)

lemma label_lookup_error: "label_lookup lids l = Inl e \<Longrightarrow> e = TypeError \<or> e = KeyError l"
  by (auto simp: label_lookup_def split: option.splits)

lemma lookup_all_error:
  "lookup_all lids ls = Inl e \<Longrightarrow> e = TypeError \<or> (\<exists>l. e = KeyError l)"
  by (induction ls) (auto split: sum.splits dest: label_lookup_error)

lemma label_prep_error:
  "label_prep lids pad rl i = Inl e \<Longrightarrow> e = TypeError \<or> e = IndexError \<or> (\<exists>l. e = KeyError l)"
  by (auto simp: label_prep_def split: option.splits sum.splits if_splits
      dest: label_lookup_error lookup_all_error)

lemma encode_query_error:
  "encode_query tok lids pad rl iet ise i q = Inl e \<Longrightarrow>
     e = TypeError \<or> e = IndexError \<or> (\<exists>l. e = KeyError l)"
  by (auto simp: encode_query_def Let_def split: sum.splits
      dest: label_prep_error word_loop_error)

lemma first_loop_error:
  "first_loop tok lids pad rl iet ise i qs pid = Inl e \<Longrightarrow>
     e = TypeError \<or> e = IndexError \<or> (\<exists>l. e = KeyError l)"
proof (induction qs arbitrary: i pid)
  case Nil
  then show ?case by simp
next
  case (Cons q qs)
  show ?case
  proof (cases "encode_query tok lids pad rl iet ise i q")
    case (Inl e')
    with Cons.prems have "e' = e" by simp
    with Inl show ?thesis by (auto dest: encode_query_error)
  next
    case (Inr r)
    obtain s p where r: "r = (s, p)" by (cases r)
    from Cons.prems Inr r
    have "first_loop tok lids pad rl iet ise (Suc i) qs
            (case p of None \<Rightarrow> pid | Some v \<Rightarrow> Some v) = Inl e"
      by (auto split: sum.splits)
    then show ?thesis by (rule Cons.IH)
  qed
qed

lemma get_features_max_error:
  assumes "get_features qs m tok lids pad rl iet ise
             = Inl (ValueError ''max() arg is an empty sequence'')"
  shows "qs = []"
proof (rule ccontr)
  assume ne: "qs \<noteq> []"
  show False
  proof (cases "first_loop tok lids pad rl iet ise 0 qs None")
    case (Inl e)
    with assms have "e = ValueError ''max() arg is an empty sequence''"
      by (simp add: get_features_def)
    with Inl show False by (auto dest: first_loop_error)
  next
    case (Inr r)
    obtain ss pid where "r = (ss, pid)" by (cases r)
    with Inr ne assms show False
      by (simp add: get_features_first_loop)
  qed
qed

subsection \<open>Truncation and padding of one sentence\<close>

lemma length_built_subtokens: "length (built_subtokens tok q) = sent_length tok q"
  by (simp add: built_subtokens_def sent_length_def length_concat comp_def)

lemma slice_from_last_n:
  assumes "2 \<le> m"
  shows "slice_from (- m + 1) xs = last_n (nat (m - 1)) xs"
    and "slice_from (1 - m) xs = last_n (nat (m - 1)) xs"
proof -
  have "nat (int (length xs) + (1 - m)) = length xs - nat (m - 1)"
    using assms by linarith
  with assms show "slice_from (1 - m) xs = last_n (nat (m - 1)) xs"
    by (simp add: slice_from_def last_n_def)
  then show "slice_from (- m + 1) xs = last_n (nat (m - 1)) xs"
    by simp
qed

lemma length_last_n: "length (last_n n xs) = min n (length xs)"
  by (simp add: last_n_def)

lemma fit_segment_ids: "segment_ids (fit tok ise lab m s) = replicate (nat m) 0"
  by (simp add: fit_def pad_sent_def Let_def times_def)

lemma fit_too_long:
  assumes "int (length (subtokens s)) > m" and "2 \<le> m"
  shows "input_ids (fit tok ise lab m s)
           = tokens_to_ids tok (cls_token tok # last_n (nat (m - 1)) (subtokens s))"
    and "row_input_mask (fit tok ise lab m s) = 1 # last_n (nat (m - 1)) (input_mask s)"
    and "row_loss_mask (fit tok ise lab m s)
           = int_of_bool (\<not> ise) # last_n (nat (m - 1)) (loss_mask s)"
    and "row_subtokens_mask (fit tok ise lab m s) = 0 # last_n (nat (m - 1)) (subtokens_mask s)"
    and "row_labels (fit tok ise lab m s)
           = (case lab of None \<Rightarrow> labels s
              | Some pad_id \<Rightarrow> pad_id # last_n (nat (m - 1)) (labels s))"
proof -
  have l: "int (length (subtokens (truncate_sent tok ise lab m s))) = m"
    using assms by (simp add: truncate_sent_def slice_from_last_n length_last_n)
  show "input_ids (fit tok ise lab m s)
           = tokens_to_ids tok (cls_token tok # last_n (nat (m - 1)) (subtokens s))"
    using assms l by (simp add: fit_def pad_sent_def Let_def)
       (simp add: truncate_sent_def slice_from_last_n)
  show "row_input_mask (fit tok ise lab m s) = 1 # last_n (nat (m - 1)) (input_mask s)"
    using assms l by (simp add: fit_def pad_sent_def Let_def)
       (simp add: truncate_sent_def slice_from_last_n)
  show "row_loss_mask (fit tok ise lab m s)
           = int_of_bool (\<not> ise) # last_n (nat (m - 1)) (loss_mask s)"
    using assms l by (simp add: fit_def pad_sent_def Let_def)
       (simp add: truncate_sent_def slice_from_last_n)
  show "row_subtokens_mask (fit tok ise lab m s) = 0 # last_n (nat (m - 1)) (subtokens_mask s)"
    using assms l by (simp add: fit_def pad_sent_def Let_def)
       (simp add: truncate_sent_def slice_from_last_n)
  show "row_labels (fit tok ise lab m s)
           = (case lab of None \<Rightarrow> labels s
              | Some pad_id \<Rightarrow> pad_id # last_n (nat (m - 1)) (labels s))"
    using assms l by (simp add: fit_def pad_sent_def Let_def)
       (simp add: truncate_sent_def slice_from_last_n split: option.splits)
qed

lemma length_slice_from_neg:
  assumes "int (length xs) > m"
  shows "\<not> int (Suc (length (slice_from (- m + 1) xs))) < m"
  using assms by (simp add: slice_from_def)

lemma fit_too_long_slice:
  assumes "int (length (subtokens s)) > m"
  shows "input_ids (fit tok ise lab m s)
           = tokens_to_ids tok (cls_token tok # slice_from (- m + 1) (subtokens s))"
    and "row_input_mask (fit tok ise lab m s) = 1 # slice_from (- m + 1) (input_mask s)"
    and "row_loss_mask (fit tok ise lab m s)
           = int_of_bool (\<not> ise) # slice_from (- m + 1) (loss_mask s)"
    and "row_subtokens_mask (fit tok ise lab m s) = 0 # slice_from (- m + 1) (subtokens_mask s)"
    and "row_labels (fit tok ise lab m s)
           = (case lab of None \<Rightarrow> labels s
              | Some pad_id \<Rightarrow> pad_id # slice_from (- m + 1) (labels s))"
proof -
  have l: "\<not> int (length (subtokens (truncate_sent tok ise lab m s))) < m"
    using length_slice_from_neg [OF assms] by (simp add: truncate_sent_def)
  show "input_ids (fit tok ise lab m s)
           = tokens_to_ids tok (cls_token tok # slice_from (- m + 1) (subtokens s))"
    using assms l by (simp add: fit_def pad_sent_def Let_def)
       (simp add: truncate_sent_def)
  show "row_input_mask (fit tok ise lab m s) = 1 # slice_from (- m + 1) (input_mask s)"
    using assms l by (simp add: fit_def pad_sent_def Let_def)
       (simp add: truncate_sent_def)
  show "row_loss_mask (fit tok ise lab m s)
           = int_of_bool (\<not> ise) # slice_from (- m + 1) (loss_mask s)"
    using assms l by (simp add: fit_def pad_sent_def Let_def)
       (simp add: truncate_sent_def)
  show "row_subtokens_mask (fit tok ise lab m s) = 0 # slice_from (- m + 1) (subtokens_mask s)"
    using assms l by (simp add: fit_def pad_sent_def Let_def)
       (simp add: truncate_sent_def)
  show "row_labels (fit tok ise lab m s)
           = (case lab of None \<Rightarrow> labels s
              | Some pad_id \<Rightarrow> pad_id # slice_from (- m + 1) (labels s))"
    using assms l by (simp add: fit_def pad_sent_def Let_def)
       (simp add: truncate_sent_def split: option.splits)
qed

lemma fit_exact:
  assumes "int (length (subtokens s)) = m"
  shows "input_ids (fit tok ise lab m s) = tokens_to_ids tok (subtokens s)"
    and "row_input_mask (fit tok ise lab m s) = input_mask s"
    and "row_loss_mask (fit tok ise lab m s) = loss_mask s"
    and "row_subtokens_mask (fit tok ise lab m s) = subtokens_mask s"
    and "row_labels (fit tok ise lab m s) = labels s"
  using assms by (simp_all add: fit_def pad_sent_def Let_def)

lemma fit_short:
  assumes "int (length (subtokens s)) < m"
  shows "input_ids (fit tok ise lab m s)
           = tokens_to_ids tok (subtokens s) @ replicate (nat m - length (subtokens s)) 0"
    and "row_input_mask (fit tok ise lab m s)
           = input_mask s @ replicate (nat m - length (subtokens s)) 0"
    and "row_loss_mask (fit tok ise lab m s)
           = loss_mask s @ replicate (nat m - length (subtokens s)) 0"
    and "row_subtokens_mask (fit tok ise lab m s)
           = subtokens_mask s @ replicate (nat m - length (subtokens s)) 0"
    and "row_labels (fit tok ise lab m s)
           = (case lab of None \<Rightarrow> labels s
              | Some pad_id \<Rightarrow> labels s @ replicate (nat m - length (subtokens s)) pad_id)"
proof -
  have e: "nat (m - int (length (subtokens s))) = nat m - length (subtokens s)"
    using assms by linarith
  show "input_ids (fit tok ise lab m s)
           = tokens_to_ids tok (subtokens s) @ replicate (nat m - length (subtokens s)) 0"
    and "row_input_mask (fit tok ise lab m s)
           = input_mask s @ replicate (nat m - length (subtokens s)) 0"
    and "row_loss_mask (fit tok ise lab m s)
           = loss_mask s @ replicate (nat m - length (subtokens s)) 0"
    and "row_subtokens_mask (fit tok ise lab m s)
           = subtokens_mask s @ replicate (nat m - length (subtokens s)) 0"
    and "row_labels (fit tok ise lab m s)
           = (case lab of None \<Rightarrow> labels s
              | Some pad_id \<Rightarrow> labels s @ replicate (nat m - length (subtokens s)) pad_id)"
    using assms by (simp_all add: fit_def pad_sent_def Let_def times_def e split: option.splits)
qed

lemma fit_not_too_long:
  assumes "int (length (subtokens s)) \<le> m"
  shows "input_ids (fit tok ise lab m s)
           = tokens_to_ids tok (subtokens s) @ replicate (nat m - length (subtokens s)) 0"
    and "row_input_mask (fit tok ise lab m s)
           = input_mask s @ replicate (nat m - length (subtokens s)) 0"
    and "row_loss_mask (fit tok ise lab m s)
           = loss_mask s @ replicate (nat m - length (subtokens s)) 0"
    and "row_subtokens_mask (fit tok ise lab m s)
           = subtokens_mask s @ replicate (nat m - length (subtokens s)) 0"
    and "row_labels (fit tok ise lab m s)
           = (case lab of None \<Rightarrow> labels s
              | Some pad_id \<Rightarrow> labels s @ replicate (nat m - length (subtokens s)) pad_id)"
proof -
  have e: "nat (m - int (length (subtokens s))) = nat m - length (subtokens s)"
    using assms by linarith
  have z: "\<not> int (length (subtokens s)) < m \<Longrightarrow> nat m - length (subtokens s) = 0"
    by linarith
  show "input_ids (fit tok ise lab m s)
           = tokens_to_ids tok (subtokens s) @ replicate (nat m - length (subtokens s)) 0"
    and "row_input_mask (fit tok ise lab m s)
           = input_mask s @ replicate (nat m - length (subtokens s)) 0"
    and "row_loss_mask (fit tok ise lab m s)
           = loss_mask s @ replicate (nat m - length (subtokens s)) 0"
    and "row_subtokens_mask (fit tok ise lab m s)
           = subtokens_mask s @ replicate (nat m - length (subtokens s)) 0"
    and "row_labels (fit tok ise lab m s)
           = (case lab of None \<Rightarrow> labels s
              | Some pad_id \<Rightarrow> labels s @ replicate (nat m - length (subtokens s)) pad_id)"
    using assms
    by (simp_all add: fit_def pad_sent_def Let_def times_def e z split: option.splits)
qed

subsection \<open>The sentences after the first loop\<close>

lemma first_loop_length:
  "first_loop tok lids pad rl iet ise i qs pid = Inr (ss, pid') \<Longrightarrow> length ss = length qs"
  by (drule first_loop_nth) simp

lemma first_loop_masks:
  assumes "first_loop tok lids pad rl iet ise i qs pid = Inr (ss, pid')" and "k < length qs"
  shows "subtokens (ss ! k) = built_subtokens tok (qs ! k)"
    and "input_mask (ss ! k) = replicate (sent_length tok (qs ! k)) 1"
    and "loss_mask (ss ! k) = built_loss_mask tok iet ise (qs ! k)"
    and "subtokens_mask (ss ! k) = built_subtokens_mask tok (qs ! k)"
    and "length (subtokens (ss ! k)) = sent_length tok (qs ! k)"
proof -
  from first_loop_nth [OF assms(1)] assms(2) obtain p where
    e: "encode_query tok lids pad rl iet ise (i + k) (qs ! k) = Inr (ss ! k, p)"
    by blast
  from encode_query_masks [OF e]
  show "subtokens (ss ! k) = built_subtokens tok (qs ! k)"
    and "input_mask (ss ! k) = replicate (sent_length tok (qs ! k)) 1"
    and "loss_mask (ss ! k) = built_loss_mask tok iet ise (qs ! k)"
    and "subtokens_mask (ss ! k) = built_subtokens_mask tok (qs ! k)"
    and "length (subtokens (ss ! k)) = sent_length tok (qs ! k)"
    by (simp_all add: length_built_subtokens)
qed

lemma first_loop_lengths:
  assumes "first_loop tok lids pad rl iet ise i qs pid = Inr (ss, pid')"
  shows "map (\<lambda>s. int (length (subtokens s))) ss = map (\<lambda>q. int (sent_length tok q)) qs"
proof (rule nth_equalityI)
  show "length (map (\<lambda>s. int (length (subtokens s))) ss)
      = length (map (\<lambda>q. int (sent_length tok q)) qs)"
    using first_loop_length [OF assms] by simp
next
  fix k
  assume "k < length (map (\<lambda>s. int (length (subtokens s))) ss)"
  then have k: "k < length qs" and k': "k < length ss"
    using first_loop_length [OF assms] by simp_all
  from first_loop_masks(5) [OF assms k] k k'
  show "map (\<lambda>s. int (length (subtokens s))) ss ! k = map (\<lambda>q. int (sent_length tok q)) qs ! k"
    by simp
qed

lemma first_loop_labels_Some:
  assumes "first_loop tok lids pad (Some rl) iet ise 0 qs None = Inr (ss, pid)" and "qs \<noteq> []"
  shows "\<exists>pad_id. label_lookup lids pad = Inr pad_id \<and> pid = Some pad_id \<and>
           (\<forall>k < length qs. \<exists>ql. k < length rl \<and> lookup_all lids (rl ! k) = Inr ql \<and>
              length (query_words (qs ! k)) \<le> length ql \<and>
              labels (ss ! k) = built_labels tok pad_id ql (qs ! k))"
proof -
  from first_loop_pad_id_Some [OF assms(1)] assms(2) obtain pad_id where
    p: "label_lookup lids pad = Inr pad_id" "pid = Some pad_id"
    by auto
  have "\<exists>ql. k < length rl \<and> lookup_all lids (rl ! k) = Inr ql \<and>
              length (query_words (qs ! k)) \<le> length ql \<and>
              labels (ss ! k) = built_labels tok pad_id ql (qs ! k)"
    if "k < length qs" for k
  proof -
    from first_loop_nth [OF assms(1)] that obtain p' where
      "encode_query tok lids pad (Some rl) iet ise k (qs ! k) = Inr (ss ! k, p')"
      by auto
    from encode_query_Some [OF this] p show ?thesis by auto
  qed
  with p show ?thesis by blast
qed

lemma first_loop_labels_None:
  assumes "first_loop tok lids pad None iet ise i qs pid = Inr (ss, pid')" and "k < length qs"
  shows "labels (ss ! k) = []"
proof -
  from first_loop_nth [OF assms(1)] assms(2) obtain p where
    "encode_query tok lids pad None iet ise (i + k) (qs ! k) = Inr (ss ! k, p)"
    by blast
  then show ?thesis by (rule encode_query_None)
qed

lemma first_loop_labels_ok:
  assumes "labels_ok lids pad rl qs"
  shows "\<exists>ss pid. first_loop tok lids pad rl iet ise 0 qs None = Inr (ss, pid)"
proof (rule first_loop_returns)
  fix k
  assume k: "k < length qs"
  show "\<exists>s p. encode_query tok lids pad rl iet ise (0 + k) (qs ! k) = Inr (s, p)"
  proof (cases rl)
    case None
    with encode_query_returns_None [of tok lids pad iet ise k "qs ! k"] show ?thesis
      by auto
  next
    case (Some labs)
    with assms obtain m where m: "lids = Some m" "m pad \<noteq> None" "length qs \<le> length labs"
      "\<forall>l \<in> set (labs ! k). m l \<noteq> None" "length (query_words (qs ! k)) \<le> length (labs ! k)"
      using k by (auto simp: labels_ok_def split: option.splits)
    from m(1,2) obtain pad_id where p: "label_lookup lids pad = Inr pad_id"
      by (auto simp: label_lookup_def)
    from m(1,4) have l: "lookup_all lids (labs ! k) = Inr (map (\<lambda>l. the (m l)) (labs ! k))"
      by (simp add: lookup_all_Some)
    from k m(3) have kl: "k < length labs" by simp
    from m(5) have "length (query_words (qs ! k)) \<le> length (map (\<lambda>l. the (m l)) (labs ! k))"
      by simp
    from encode_query_returns_Some [OF p kl l this, of tok iet ise] Some
    show ?thesis by auto
  qed
qed

lemma first_loop_labels_ok_conv:
  assumes "first_loop tok lids pad rl iet ise 0 qs None = Inr (ss, pid)" and "qs \<noteq> []"
  shows "labels_ok lids pad rl qs"
proof (cases rl)
  case None
  then show ?thesis by (simp add: labels_ok_def)
next
  case (Some labs)
  from first_loop_labels_Some [OF assms(1) [unfolded Some] assms(2)] obtain pad_id where
    p: "label_lookup lids pad = Inr pad_id" and
    a: "\<And>k. k < length qs \<Longrightarrow> \<exists>ql. k < length labs \<and> lookup_all lids (labs ! k) = Inr ql \<and>
              length (query_words (qs ! k)) \<le> length ql"
    by blast
  from p obtain m where m: "lids = Some m" "m pad \<noteq> None"
    by (auto simp: label_lookup_def split: option.splits)
  from assms(2) a [of "length qs - 1"] have le: "length qs \<le> length labs"
    by (cases qs) auto
  have "(\<forall>l \<in> set (labs ! k). m l \<noteq> None) \<and> length (query_words (qs ! k)) \<le> length (labs ! k)"
    if "k < length qs" for k
    using a [OF that] m(1) by (auto simp: lookup_all_Some)
  with m le Some show ?thesis
    by (simp add: labels_ok_def)
qed

lemma filter_length_map_eq:
  assumes "map f xs = map g ys"
  shows "length (filter (\<lambda>x. P (f x)) xs) = length (filter (\<lambda>y. P (g y)) ys)"
proof -
  have "length (filter (\<lambda>x. P (f x)) xs) = length (filter P (map f xs))"
    by (simp add: filter_map comp_def)
  also have "\<dots> = length (filter P (map g ys))"
    by (simp add: assms)
  also have "\<dots> = length (filter (\<lambda>y. P (g y)) ys)"
    by (simp add: filter_map comp_def)
  finally show ?thesis .
qed

lemma get_features_rows:
  assumes "first_loop tok lids pad rl iet ise 0 qs None = Inr (ss, pid)" and "qs \<noteq> []"
  shows "get_features qs m tok lids pad rl iet ise =
           Inr (rows_features (rl \<noteq> None)
                  (map (fit tok ise (if rl \<noteq> None then pid else None)
                          (effective_max_length m tok qs)) ss),
                \<lparr>max_length = effective_max_length m tok qs,
                 too_long = length (filter (\<lambda>q. int (sent_length tok q)
                     > effective_max_length m tok qs) qs)\<rparr>)"
proof -
  note l = first_loop_lengths [OF assms(1)]
  have "length (filter (\<lambda>s. effective_max_length m tok qs < int (length (subtokens s))) ss)
      = length (filter (\<lambda>q. effective_max_length m tok qs < int (sent_length tok q)) qs)"
    by (rule filter_length_map_eq [OF l])
  with get_features_first_loop [OF assms, of m] l show ?thesis
    by (simp add: effective_max_length_def)
qed

subsection \<open>Lengths\<close>

lemma sent_length_ge2: "2 \<le> sent_length tok q"
  by (simp add: sent_length_def)

lemma effective_max_length_in:
  assumes "qs \<noteq> []"
  shows "effective_max_length m tok qs = m \<or>
         (\<exists>q \<in> set qs. effective_max_length m tok qs = int (sent_length tok q))"
proof -
  have "Max (set (map (\<lambda>q. int (sent_length tok q)) qs)) \<in> set (map (\<lambda>q. int (sent_length tok q)) qs)"
    using assms by (intro Max_in) simp_all
  then show ?thesis
    by (auto simp: effective_max_length_def min_def)
qed

lemma effective_max_length_ge2:
  assumes "qs \<noteq> []" and "2 \<le> m"
  shows "2 \<le> effective_max_length m tok qs"
  using effective_max_length_in [OF assms(1), of m tok] assms(2) sent_length_ge2
  by (auto simp del: of_nat_add)

lemma effective_max_length_le:
  assumes "q \<in> set qs"
  shows "effective_max_length m tok qs \<le> m"
    and "int (sent_length tok q) \<le> Max (set (map (\<lambda>q. int (sent_length tok q)) qs))"
  using assms by (simp_all add: effective_max_length_def)

lemma length_word_loss:
  "text_to_tokens tok w \<noteq> [] \<Longrightarrow> length (word_loss tok iet w) = length (text_to_tokens tok w)"
  by (cases "text_to_tokens tok w") (simp_all add: word_loss_def times_def)

lemma length_word_align:
  "text_to_tokens tok w \<noteq> [] \<Longrightarrow> length (word_align tok w) = length (text_to_tokens tok w)"
  by (cases "text_to_tokens tok w") (simp_all add: word_align_def times_def)

lemma length_built_loss_mask:
  assumes "\<forall>w \<in> set (query_words q). text_to_tokens tok w \<noteq> []"
  shows "length (built_loss_mask tok iet ise q) = sent_length tok q"
proof -
  have "sum_list (map (\<lambda>w. length (word_loss tok iet w)) (query_words q))
      = sum_list (map (\<lambda>w. length (text_to_tokens tok w)) (query_words q))"
    using assms by (intro arg_cong [where f = sum_list] map_cong) (simp_all add: length_word_loss)
  then show ?thesis
    by (simp add: built_loss_mask_def sent_length_def length_concat comp_def)
qed

lemma length_built_subtokens_mask:
  assumes "\<forall>w \<in> set (query_words q). text_to_tokens tok w \<noteq> []"
  shows "length (built_subtokens_mask tok q) = sent_length tok q"
proof -
  have "sum_list (map (\<lambda>w. length (word_align tok w)) (query_words q))
      = sum_list (map (\<lambda>w. length (text_to_tokens tok w)) (query_words q))"
    using assms by (intro arg_cong [where f = sum_list] map_cong) (simp_all add: length_word_align)
  then show ?thesis
    by (simp add: built_subtokens_mask_def sent_length_def length_concat comp_def)
qed

lemma length_built_labels:
  assumes "length (query_words q) \<le> length ql"
  shows "length (built_labels tok pad_id ql q) = sent_length tok q"
proof -
  have "map (\<lambda>wl. length (word_labels tok wl)) (zip (query_words q) ql)
      = map (\<lambda>w. length (text_to_tokens tok w)) (map fst (zip (query_words q) ql))"
    by (simp add: word_labels_def times_def comp_def)
  also have "map fst (zip (query_words q) ql) = query_words q"
    using assms by (simp add: map_fst_zip_take)
  finally show ?thesis
    by (simp add: built_labels_def sent_length_def length_concat comp_def)
qed

lemma fit_length:
  assumes "2 \<le> m"
  shows "length (subtokens s) = length (input_mask s) \<Longrightarrow>
           int (length (row_input_mask (fit tok ise lab m s))) = m"
    and "length (subtokens s) = length (loss_mask s) \<Longrightarrow>
           int (length (row_loss_mask (fit tok ise lab m s))) = m"
    and "length (subtokens s) = length (subtokens_mask s) \<Longrightarrow>
           int (length (row_subtokens_mask (fit tok ise lab m s))) = m"
    and "length (subtokens s) = length (labels s) \<Longrightarrow>
           int (length (row_labels (fit tok ise (Some pad_id) m s))) = m"
    and "\<forall>ts. length (tokens_to_ids tok ts) = length ts \<Longrightarrow>
           int (length (input_ids (fit tok ise lab m s))) = m"
proof -
  consider (long) "int (length (subtokens s)) > m" | (short) "int (length (subtokens s)) \<le> m"
    by linarith
  then have "(length (subtokens s) = length (input_mask s) \<longrightarrow>
           int (length (row_input_mask (fit tok ise lab m s))) = m) \<and>
    (length (subtokens s) = length (loss_mask s) \<longrightarrow>
           int (length (row_loss_mask (fit tok ise lab m s))) = m) \<and>
    (length (subtokens s) = length (subtokens_mask s) \<longrightarrow>
           int (length (row_subtokens_mask (fit tok ise lab m s))) = m) \<and>
    (length (subtokens s) = length (labels s) \<longrightarrow>
           int (length (row_labels (fit tok ise (Some pad_id) m s))) = m) \<and>
    ((\<forall>ts. length (tokens_to_ids tok ts) = length ts) \<longrightarrow>
           int (length (input_ids (fit tok ise lab m s))) = m)"
  proof cases
    case long
    with assms show ?thesis
      by (auto simp: fit_too_long length_last_n)
  next
    case short
    then show ?thesis
      by (auto simp: fit_not_too_long)
  qed
  then show "length (subtokens s) = length (input_mask s) \<Longrightarrow>
           int (length (row_input_mask (fit tok ise lab m s))) = m"
    and "length (subtokens s) = length (loss_mask s) \<Longrightarrow>
           int (length (row_loss_mask (fit tok ise lab m s))) = m"
    and "length (subtokens s) = length (subtokens_mask s) \<Longrightarrow>
           int (length (row_subtokens_mask (fit tok ise lab m s))) = m"
    and "length (subtokens s) = length (labels s) \<Longrightarrow>
           int (length (row_labels (fit tok ise (Some pad_id) m s))) = m"
    and "\<forall>ts. length (tokens_to_ids tok ts) = length ts \<Longrightarrow>
           int (length (input_ids (fit tok ise lab m s))) = m"
    by blast+
qed

lemma rows_features_simps:
  "all_input_ids (rows_features wl rows) = map input_ids rows"
  "all_segment_ids (rows_features wl rows) = map segment_ids rows"
  "all_input_mask (rows_features wl rows) = map row_input_mask rows"
  "all_loss_mask (rows_features wl rows) = map row_loss_mask rows"
  "all_subtokens_mask (rows_features wl rows) = map row_subtokens_mask rows"
  "all_labels (rows_features wl rows) = (if wl then map row_labels rows else [])"
  by (simp_all add: rows_features_def)

subsection \<open>When \<open>get_features\<close> returns\<close>

lemma get_features_returns:
  assumes "queries \<noteq> []" and "labels_ok label_ids pad_label raw_labels queries"
  obtains ss pid where
    "first_loop tok label_ids pad_label raw_labels iet ise 0 queries None = Inr (ss, pid)"
    "length ss = length queries"
    "get_features queries m tok label_ids pad_label raw_labels iet ise =
       Inr (rows_features (raw_labels \<noteq> None)
              (map (fit tok ise (if raw_labels \<noteq> None then pid else None)
                      (effective_max_length m tok queries)) ss),
            \<lparr>max_length = effective_max_length m tok queries,
             too_long = length (filter (\<lambda>q. int (sent_length tok q)
                 > effective_max_length m tok queries) queries)\<rparr>)"
proof -
  from first_loop_labels_ok [OF assms(2)] obtain ss pid where
    fl: "first_loop tok label_ids pad_label raw_labels iet ise 0 queries None = Inr (ss, pid)"
    by blast
  from that [OF fl first_loop_length [OF fl] get_features_rows [OF fl assms(1)]]
  show ?thesis .
qed

lemma get_features_returns_iff:
  assumes "queries \<noteq> []"
  shows "(\<exists>r. get_features queries m tok label_ids pad_label raw_labels iet ise = Inr r)
           = labels_ok label_ids pad_label raw_labels queries"
proof
  assume "\<exists>r. get_features queries m tok label_ids pad_label raw_labels iet ise = Inr r"
  then obtain ss pid where
    "first_loop tok label_ids pad_label raw_labels iet ise 0 queries None = Inr (ss, pid)"
    by (auto dest: get_features_Inr_first_loop)
  then show "labels_ok label_ids pad_label raw_labels queries"
    using assms by (rule first_loop_labels_ok_conv)
next
  assume "labels_ok label_ids pad_label raw_labels queries"
  with assms show "\<exists>r. get_features queries m tok label_ids pad_label raw_labels iet ise = Inr r"
    by (rule get_features_returns) blast
qed

lemma first_loop_pad_id:
  assumes "first_loop tok lids pad rl iet ise 0 qs None = Inr (ss, pid)" and "qs \<noteq> []"
    and "rl \<noteq> None"
  shows "\<exists>pad_id. label_lookup lids pad = Inr pad_id \<and> pid = Some pad_id"
proof -
  from assms(3) obtain labs where "rl = Some labs" by auto
  with first_loop_labels_Some [of tok lids pad labs iet ise qs ss pid] assms(1,2)
  show ?thesis by blast
qed

lemma first_loop_labels_length:
  assumes "first_loop tok lids pad rl iet ise 0 qs None = Inr (ss, pid)" and "k < length qs"
    and "rl \<noteq> None"
  shows "length (labels (ss ! k)) = length (subtokens (ss ! k))"
proof -
  from assms(3) obtain labs where rl: "rl = Some labs" by auto
  from assms(2) have ne: "qs \<noteq> []" by auto
  from first_loop_labels_Some [OF assms(1) [unfolded rl] ne] assms(2)
  obtain pad_id ql where "length (query_words (qs ! k)) \<le> length ql"
    "labels (ss ! k) = built_labels tok pad_id ql (qs ! k)"
    by blast
  with first_loop_masks(5) [OF assms(1,2)] show ?thesis
    by (simp add: length_built_labels)
qed

subsection \<open>Counting words\<close>

lemma length_split_from:
  "length (split_from cur s) = (if cur = [] then word_starts False s else 1 + word_starts True s)"
  by (induction cur s rule: split_from.induct) auto

lemma word_starts_dropWhile: "word_starts False (dropWhile is_space s) = word_starts False s"
  by (induction s) auto

lemma word_starts_append_spaces:
  "\<forall>c \<in> set ys. is_space c \<Longrightarrow> word_starts b (xs @ ys) = word_starts b xs"
proof (induction xs arbitrary: b)
  case Nil
  then show ?case by (induction ys arbitrary: b) auto
next
  case (Cons x xs)
  then show ?case by auto
qed

lemma word_starts_strip_right:
  "word_starts b (rev (dropWhile is_space (rev s))) = word_starts b s"
proof -
  have s: "s = rev (dropWhile is_space (rev s)) @ rev (takeWhile is_space (rev s))"
    by (metis rev_append rev_rev_ident takeWhile_dropWhile_id)
  have "\<forall>c \<in> set (rev (takeWhile is_space (rev s))). is_space c"
    by (auto dest: set_takeWhileD)
  from word_starts_append_spaces [OF this, of b "rev (dropWhile is_space (rev s))"] s
  show ?thesis by simp
qed

lemma length_query_words: "length (query_words q) = word_count q"
  by (simp add: query_words_def split_def strip_def length_split_from word_count_def
        word_starts_strip_right word_starts_dropWhile)

lemma count_list_replicate_other: "x \<noteq> y \<Longrightarrow> count_list (replicate n x) y = 0"
  by (induction n) auto

lemma count_word_align: "count_list (word_align tok w) 1 = 1"
  by (simp add: word_align_def times_def count_list_replicate_other)

lemma count_concat_word_align: "count_list (concat (map (word_align tok) ws)) 1 = length ws"
  by (induction ws) (simp_all add: count_word_align)

lemma count_built_subtokens_mask:
  "count_list (built_subtokens_mask tok q) 1 = length (query_words q)"
  by (simp add: built_subtokens_mask_def count_concat_word_align)

subsection \<open>Indexing\<close>

lemma py_index_nat: "idx < length xs \<Longrightarrow> py_index xs (int idx) = Inr (xs ! idx)"
  by (simp add: py_index_def Let_def)

subsection \<open>Positions\<close>

lemma length_word_positions: "length (word_positions ts) = length ts"
  by (cases ts) (simp_all add: word_positions_def)

lemma length_sentence_positions: "length (sentence_positions tok q) = sent_length tok q"
  by (simp add: sentence_positions_def sent_length_def length_concat comp_def
        length_word_positions)

lemma word_loss_positions:
  "text_to_tokens tok w \<noteq> [] \<Longrightarrow>
     word_loss tok iet w = map (loss_bit iet ise) (word_positions (text_to_tokens tok w))"
  by (cases "text_to_tokens tok w")
     (simp_all add: word_loss_def word_positions_def times_def int_of_bool_def map_replicate_const)

lemma word_align_positions:
  "text_to_tokens tok w \<noteq> [] \<Longrightarrow>
     word_align tok w = map align_bit (word_positions (text_to_tokens tok w))"
  by (cases "text_to_tokens tok w")
     (simp_all add: word_align_def word_positions_def times_def map_replicate_const)

lemma built_loss_mask_positions:
  assumes "\<forall>w \<in> set (query_words q). text_to_tokens tok w \<noteq> []"
  shows "built_loss_mask tok iet ise q = map (loss_bit iet ise) (sentence_positions tok q)"
proof -
  have c: "concat (map (word_loss tok iet) (query_words q))
      = concat (map (\<lambda>w. map (loss_bit iet ise) (word_positions (text_to_tokens tok w)))
          (query_words q))"
    using assms by (intro arg_cong [where f = concat] map_cong) (simp_all add: word_loss_positions)
  have h: "1 - int_of_bool ise = loss_bit iet ise Start" "1 - int_of_bool ise = loss_bit iet ise End"
    by (simp_all add: int_of_bool_def)
  show ?thesis
    unfolding built_loss_mask_def sentence_positions_def c
    by (simp add: map_concat comp_def int_of_bool_def)
qed

lemma built_subtokens_mask_positions:
  assumes "\<forall>w \<in> set (query_words q). text_to_tokens tok w \<noteq> []"
  shows "built_subtokens_mask tok q = map align_bit (sentence_positions tok q)"
proof -
  have c: "concat (map (word_align tok) (query_words q))
      = concat (map (\<lambda>w. map align_bit (word_positions (text_to_tokens tok w))) (query_words q))"
    using assms by (intro arg_cong [where f = concat] map_cong) (simp_all add: word_align_positions)
  show ?thesis
    unfolding built_subtokens_mask_def sentence_positions_def c
    by (simp add: map_concat comp_def)
qed

lemma concat_nth_offset:
  "j < length xss \<Longrightarrow> k < length (xss ! j) \<Longrightarrow>
     length (concat (take j xss)) + k < length (concat xss) \<and>
     concat xss ! (length (concat (take j xss)) + k) = xss ! j ! k"
proof (induction xss arbitrary: j)
  case Nil
  then show ?case by simp
next
  case (Cons xs xss)
  show ?case
  proof (cases j)
    case 0
    with Cons.prems show ?thesis by (simp add: nth_append)
  next
    case (Suc j')
    with Cons.prems have "j' < length xss" "k < length (xss ! j')" by simp_all
    from Cons.IH [OF this] Suc show ?thesis
      by (simp add: nth_append add.assoc)
  qed
qed

lemma length_concat_word_labels:
  assumes "length ws \<le> length ql"
  shows "length (concat (take j (map (word_labels tok) (zip ws ql))))
           = length (concat (map (text_to_tokens tok) (take j ws)))"
proof -
  have "map length (take j (map (word_labels tok) (zip ws ql)))
      = map (\<lambda>wl. length (text_to_tokens tok (fst wl))) (take j (zip ws ql))"
    by (simp add: take_map word_labels_def times_def comp_def)
  also have "\<dots> = map (\<lambda>w. length (text_to_tokens tok w)) (map fst (take j (zip ws ql)))"
    by (simp add: comp_def)
  also have "map fst (take j (zip ws ql)) = take j ws"
    using assms by (simp add: take_map [symmetric] map_fst_zip_take)
  finally show ?thesis
    by (simp add: length_concat comp_def)
qed

lemma built_labels_nth:
  assumes "length (query_words q) \<le> length ql" and "j < length (query_words q)"
    and "k < length (text_to_tokens tok (query_words q ! j))"
  shows "built_labels tok pad_id ql q ! (word_offset tok (query_words q) j + k) = ql ! j"
proof -
  let ?ws = "query_words q"
  let ?xss = "map (word_labels tok) (zip ?ws ql)"
  from assms(1,2) have j: "j < length ?xss" by simp
  from assms(1,2) have x: "?xss ! j = replicate (length (text_to_tokens tok (?ws ! j))) (ql ! j)"
    by (simp add: word_labels_def times_def)
  with assms(3) have k: "k < length (?xss ! j)" by simp
  from concat_nth_offset [OF j k] x assms(3)
  have "length (concat (take j ?xss)) + k < length (concat ?xss)"
    "concat ?xss ! (length (concat (take j ?xss)) + k) = ql ! j"
    by simp_all
  then show ?thesis
    by (simp add: built_labels_def word_offset_def nth_append
          length_concat_word_labels [OF assms(1)])
qed

lemma built_subtokens_nth:
  assumes "j < length (query_words q)"
    and "k < length (text_to_tokens tok (query_words q ! j))"
  shows "built_subtokens tok q ! (word_offset tok (query_words q) j + k)
           = text_to_tokens tok (query_words q ! j) ! k"
    and "word_offset tok (query_words q) j + k < length (built_subtokens tok q) - 1"
proof -
  let ?ws = "query_words q"
  let ?xss = "map (text_to_tokens tok) ?ws"
  from assms have j: "j < length ?xss" and k: "k < length (?xss ! j)" by simp_all
  from concat_nth_offset [OF j k] assms(1)
  have a: "length (concat (take j ?xss)) + k < length (concat ?xss)"
    "concat ?xss ! (length (concat (take j ?xss)) + k) = text_to_tokens tok (?ws ! j) ! k"
    by simp_all
  then show "built_subtokens tok q ! (word_offset tok (query_words q) j + k)
           = text_to_tokens tok (query_words q ! j) ! k"
    by (simp add: built_subtokens_def word_offset_def nth_append take_map)
  from a show "word_offset tok (query_words q) j + k < length (built_subtokens tok q) - 1"
    by (simp add: built_subtokens_def word_offset_def take_map)
qed

lemma built_labels_ends:
  "built_labels tok pad_id ql q ! 0 = pad_id"
  "built_labels tok pad_id ql q ! (length (built_labels tok pad_id ql q) - 1) = pad_id"
  by (simp_all add: built_labels_def nth_append)

lemma built_subtokens_ends:
  "built_subtokens tok q ! 0 = cls_token tok"
  "built_subtokens tok q ! (length (built_subtokens tok q) - 1) = sep_token tok"
  by (simp_all add: built_subtokens_def nth_append)

subsection \<open>Paths and the training dataset\<close>

lemma endswith_rev: "endswith s suffix = (take (length suffix) (rev s) = rev suffix)"
proof
  assume "endswith s suffix"
  then have l: "length suffix \<le> length s" and d: "drop (length s - length suffix) s = suffix"
    by (simp_all add: endswith_def)
  from d have "rev (drop (length s - length suffix) s) = rev suffix" by simp
  with l show "take (length suffix) (rev s) = rev suffix"
    by (simp add: rev_drop)
next
  assume t: "take (length suffix) (rev s) = rev suffix"
  then have "length (take (length suffix) (rev s)) = length suffix"
    by simp
  then have l: "length suffix \<le> length s" by simp
  from t have "rev (take (length suffix) (rev s)) = suffix" by simp
  with l have "drop (length s - length suffix) s = suffix"
    by (simp add: rev_take)
  with l show "endswith s suffix" by (simp add: endswith_def)
qed

lemma take_takeWhile:
  "\<forall>c \<in> set xs. P c \<Longrightarrow>
     (take (length xs) (takeWhile P r) = xs) = (take (length xs) r = xs)"
proof (induction xs arbitrary: r)
  case Nil
  then show ?case by simp
next
  case (Cons x xs)
  then show ?case by (cases r) auto
qed

lemma endswith_basename: "endswith (basename p) ''.txt'' = endswith p ''.txt''"
proof -
  have "\<forall>c \<in> set ''txt.''. c \<noteq> slash"
    by (simp add: slash_def)
  from take_takeWhile [OF this, of "rev p"] show ?thesis
    by (simp add: endswith_rev basename_def)
qed

lemma str_nat_digit: "n < 10 \<Longrightarrow> str_nat n = [''0123456789'' ! n]"
  by (subst str_nat.simps) simp

lemma str_nat_digits:
  "\<not> n < 10 \<Longrightarrow> str_nat n = str_nat (n div 10) @ [''0123456789'' ! (n mod 10)]"
  by (subst str_nat.simps) simp

lemma dataset_init_extension:
  assumes "\<not> endswith text_file ''.txt''"
  shows "dataset_init e barrier text_file label_file m tok ttype vocab lids num_samples pad
           iet ise ow
           = Some (Inl (ValueError ''{text_file} should have extension .txt''))"
  using assms by (simp add: dataset_init_def Let_def endswith_basename)

lemma dataset_init_recomputes:
  assumes "endswith text_file ''.txt''" and "recomputes e text_file ttype m vocab ow"
  shows "dataset_init e barrier text_file label_file m tok ttype vocab lids num_samples pad
           iet ise ow
           = (case compute_features e text_file label_file m tok lids num_samples pad iet ise of
                Inl err \<Rightarrow> Some (Inl err)
              | Inr features \<Rightarrow>
                  load_cached
                    (e\<lparr>pickles := (pickles e)(features_pkl_path text_file ttype m vocab
                             \<mapsto> features)\<rparr>)
                    barrier (features_pkl_path text_file ttype m vocab))"
  using assms
  by (auto simp: dataset_init_def Let_def endswith_basename recomputes_def dataset_of_def
      load_cached_def split: sum.splits option.splits)

lemma dataset_init_cached:
  assumes "endswith text_file ''.txt''" and "\<not> recomputes e text_file ttype m vocab ow"
  shows "dataset_init e barrier text_file label_file m tok ttype vocab lids num_samples pad
           iet ise ow
           = load_cached e barrier (features_pkl_path text_file ttype m vocab)"
  using assms
  by (auto simp: dataset_init_def Let_def endswith_basename recomputes_def dataset_of_def
      load_cached_def split: option.splits)

subsection \<open>Truncation for a configured length of at least 2\<close>

text \<open>For a non-empty batch on which \<open>get_features\<close> returns, the reported count is
  the number of sentences longer than the effective max length and a sentence of exactly
  this length keeps its lists unchanged, whatever \<open>max_seq_length\<close> is. When
  \<open>max_seq_length\<close> is at least 2, a sentence longer than the effective max length is
  replaced by the start marker followed by its last effective length - 1 subtokens, its
  masks by their start value followed by their last effective length - 1 entries, and its
  labels (when supplied) by the pad label id followed by the last effective length - 1
  labels.\<close>

lemma truncation_from_two:
  assumes "queries \<noteq> []" and "labels_ok label_ids pad_label raw_labels queries"
  shows "\<exists>f rep ss pid.
      first_loop tok label_ids pad_label raw_labels ignore_extra_tokens ignore_start_end
        0 queries None = Inr (ss, pid) \<and>
      length ss = length queries \<and>
      get_features queries max_seq_length tok label_ids pad_label raw_labels
        ignore_extra_tokens ignore_start_end = Inr (f, rep) \<and>
      too_long rep = length (filter (\<lambda>s. int (length (subtokens s)) > max_length rep) ss) \<and>
      (\<forall>i < length queries.
         2 \<le> max_seq_length \<and> int (length (subtokens (ss ! i))) > max_length rep \<longrightarrow>
         all_input_ids f ! i = tokens_to_ids tok
            (cls_token tok # last_n (nat (max_length rep - 1)) (subtokens (ss ! i))) \<and>
         all_input_mask f ! i = 1 # last_n (nat (max_length rep - 1)) (input_mask (ss ! i)) \<and>
         all_loss_mask f ! i = (1 - int_of_bool ignore_start_end)
            # last_n (nat (max_length rep - 1)) (loss_mask (ss ! i)) \<and>
         all_subtokens_mask f ! i
            = 0 # last_n (nat (max_length rep - 1)) (subtokens_mask (ss ! i)) \<and>
         (raw_labels \<noteq> None \<longrightarrow>
            (\<exists>pad_id. label_lookup label_ids pad_label = Inr pad_id \<and>
               all_labels f ! i
                 = pad_id # last_n (nat (max_length rep - 1)) (labels (ss ! i))))) \<and>
      (\<forall>i < length queries. int (length (subtokens (ss ! i))) = max_length rep \<longrightarrow>
         all_input_ids f ! i = tokens_to_ids tok (subtokens (ss ! i)) \<and>
         all_input_mask f ! i = input_mask (ss ! i) \<and>
         all_loss_mask f ! i = loss_mask (ss ! i) \<and>
         all_subtokens_mask f ! i = subtokens_mask (ss ! i) \<and>
         (raw_labels \<noteq> None \<longrightarrow> all_labels f ! i = labels (ss ! i)))"
proof -
  let ?m = "effective_max_length max_seq_length tok queries"
  let ?lab = "if raw_labels \<noteq> None then pid else None"
  from assms obtain ss pid where
    fl: "first_loop tok label_ids pad_label raw_labels ignore_extra_tokens ignore_start_end
           0 queries None = Inr (ss, pid)" and
    len: "length ss = length queries" and
    g: "get_features queries max_seq_length tok label_ids pad_label raw_labels
          ignore_extra_tokens ignore_start_end =
       Inr (rows_features (raw_labels \<noteq> None)
              (map (fit tok ignore_start_end (if raw_labels \<noteq> None then pid else None) ?m) ss),
            \<lparr>max_length = ?m,
             too_long = length (filter (\<lambda>q. int (sent_length tok q) > ?m) queries)\<rparr>)"
    by (rule get_features_returns)
  let ?row = "\<lambda>i. fit tok ignore_start_end (if raw_labels \<noteq> None then pid else None) ?m (ss ! i)"
  have cnt: "length (filter (\<lambda>q. int (sent_length tok q) > ?m) queries)
      = length (filter (\<lambda>s. int (length (subtokens s)) > ?m) ss)"
    by (rule filter_length_map_eq [OF first_loop_lengths [OF fl, symmetric]])
  have long: "input_ids (?row i) = tokens_to_ids tok
            (cls_token tok # last_n (nat (?m - 1)) (subtokens (ss ! i))) \<and>
         row_input_mask (?row i) = 1 # last_n (nat (?m - 1)) (input_mask (ss ! i)) \<and>
         row_loss_mask (?row i) = (1 - int_of_bool ignore_start_end)
            # last_n (nat (?m - 1)) (loss_mask (ss ! i)) \<and>
         row_subtokens_mask (?row i) = 0 # last_n (nat (?m - 1)) (subtokens_mask (ss ! i)) \<and>
         (raw_labels \<noteq> None \<longrightarrow>
            (\<exists>pad_id. label_lookup label_ids pad_label = Inr pad_id \<and>
               row_labels (?row i) = pad_id # last_n (nat (?m - 1)) (labels (ss ! i))))"
    if m: "2 \<le> max_seq_length" and gt: "int (length (subtokens (ss ! i))) > ?m" for i
  proof -
    have m2: "2 \<le> ?m"
      by (rule effective_max_length_ge2 [OF assms(1) m])
    note t = fit_too_long [OF gt m2, of tok ignore_start_end]
    have "\<exists>pad_id. label_lookup label_ids pad_label = Inr pad_id \<and>
               row_labels (?row i) = pad_id # last_n (nat (?m - 1)) (labels (ss ! i))"
      if r: "raw_labels \<noteq> None"
    proof -
      from first_loop_pad_id [OF fl assms(1) r] obtain pad_id where
        "label_lookup label_ids pad_label = Inr pad_id" "pid = Some pad_id"
        by blast
      with t(5) [of "Some pad_id"] r show ?thesis by simp
    qed
    with t(1-4) show ?thesis
      by (simp add: int_of_bool_def)
  qed
  have exact: "input_ids (?row i) = tokens_to_ids tok (subtokens (ss ! i)) \<and>
         row_input_mask (?row i) = input_mask (ss ! i) \<and>
         row_loss_mask (?row i) = loss_mask (ss ! i) \<and>
         row_subtokens_mask (?row i) = subtokens_mask (ss ! i) \<and>
         row_labels (?row i) = labels (ss ! i)"
    if "int (length (subtokens (ss ! i))) = ?m" for i
    using fit_exact [OF that] by simp
  define f where "f = rows_features (raw_labels \<noteq> None)
     (map (fit tok ignore_start_end (if raw_labels \<noteq> None then pid else None) ?m) ss)"
  define rep where "rep = \<lparr>max_length = ?m,
     too_long = length (filter (\<lambda>q. int (sent_length tok q) > ?m) queries)\<rparr>"
  have C: "get_features queries max_seq_length tok label_ids pad_label raw_labels
          ignore_extra_tokens ignore_start_end = Inr (f, rep)"
    using g by (simp add: f_def rep_def)
  have D: "too_long rep = length (filter (\<lambda>s. int (length (subtokens s)) > max_length rep) ss)"
    using cnt by (simp add: rep_def)
  have E: "\<forall>i < length queries.
         2 \<le> max_seq_length \<and> int (length (subtokens (ss ! i))) > max_length rep \<longrightarrow>
         all_input_ids f ! i = tokens_to_ids tok
            (cls_token tok # last_n (nat (max_length rep - 1)) (subtokens (ss ! i))) \<and>
         all_input_mask f ! i = 1 # last_n (nat (max_length rep - 1)) (input_mask (ss ! i)) \<and>
         all_loss_mask f ! i = (1 - int_of_bool ignore_start_end)
            # last_n (nat (max_length rep - 1)) (loss_mask (ss ! i)) \<and>
         all_subtokens_mask f ! i
            = 0 # last_n (nat (max_length rep - 1)) (subtokens_mask (ss ! i)) \<and>
         (raw_labels \<noteq> None \<longrightarrow>
            (\<exists>pad_id. label_lookup label_ids pad_label = Inr pad_id \<and>
               all_labels f ! i
                 = pad_id # last_n (nat (max_length rep - 1)) (labels (ss ! i))))"
  proof (intro allI impI)
    fix i
    assume i: "i < length queries"
      and "2 \<le> max_seq_length \<and> int (length (subtokens (ss ! i))) > max_length rep"
    then have m: "2 \<le> max_seq_length" and "int (length (subtokens (ss ! i))) > ?m"
      by (simp_all add: rep_def)
    from long [OF this] i len show "all_input_ids f ! i = tokens_to_ids tok
            (cls_token tok # last_n (nat (max_length rep - 1)) (subtokens (ss ! i))) \<and>
         all_input_mask f ! i = 1 # last_n (nat (max_length rep - 1)) (input_mask (ss ! i)) \<and>
         all_loss_mask f ! i = (1 - int_of_bool ignore_start_end)
            # last_n (nat (max_length rep - 1)) (loss_mask (ss ! i)) \<and>
         all_subtokens_mask f ! i
            = 0 # last_n (nat (max_length rep - 1)) (subtokens_mask (ss ! i)) \<and>
         (raw_labels \<noteq> None \<longrightarrow>
            (\<exists>pad_id. label_lookup label_ids pad_label = Inr pad_id \<and>
               all_labels f ! i
                 = pad_id # last_n (nat (max_length rep - 1)) (labels (ss ! i))))"
      by (simp add: f_def rep_def rows_features_simps)
  qed
  have F: "\<forall>i < length queries. int (length (subtokens (ss ! i))) = max_length rep \<longrightarrow>
         all_input_ids f ! i = tokens_to_ids tok (subtokens (ss ! i)) \<and>
         all_input_mask f ! i = input_mask (ss ! i) \<and>
         all_loss_mask f ! i = loss_mask (ss ! i) \<and>
         all_subtokens_mask f ! i = subtokens_mask (ss ! i) \<and>
         (raw_labels \<noteq> None \<longrightarrow> all_labels f ! i = labels (ss ! i))"
  proof (intro allI impI)
    fix i
    assume i: "i < length queries" and "int (length (subtokens (ss ! i))) = max_length rep"
    then have "int (length (subtokens (ss ! i))) = ?m"
      by (simp add: rep_def)
    from exact [OF this] i len show "all_input_ids f ! i = tokens_to_ids tok (subtokens (ss ! i)) \<and>
         all_input_mask f ! i = input_mask (ss ! i) \<and>
         all_loss_mask f ! i = loss_mask (ss ! i) \<and>
         all_subtokens_mask f ! i = subtokens_mask (ss ! i) \<and>
         (raw_labels \<noteq> None \<longrightarrow> all_labels f ! i = labels (ss ! i))"
      by (cases raw_labels) (simp_all add: f_def rep_def rows_features_simps)
  qed
  from fl len C D E F show ?thesis by blast
qed

subsection \<open>The concrete inputs\<close>

lemma ex_query_words:
  "query_words ''ab c'' = [''ab'', ''c'']" "query_words ''d'' = [''d'']"
  by (simp_all add: query_words_def split_def strip_def is_space_def whitespace_def)

lemma ex_labels_ok: "labels_ok ex_label_ids ''O'' (Some ex_raw_labels) ex_queries"
  by (simp add: labels_ok_def ex_label_ids_def ex_raw_labels_def ex_queries_def ex_query_words
        less_Suc_eq numeral_2_eq_2 all_conj_distrib)

lemma ex_tok_tokens: "subwords_nonempty ex_tok ex_queries"
  by (simp add: subwords_nonempty_def ex_queries_def ex_query_words ex_tok_def)

lemma ex_tok_ids: "ids_per_token ex_tok"
  by (simp add: ids_per_token_def ex_tok_def)

lemma ex_sent_length: "sent_length ex_tok ''ab c'' = 5" "sent_length ex_tok ''d'' = 3"
  by (simp_all add: sent_length_def ex_query_words ex_tok_def)

lemma ex_effective: "effective_max_length 4 ex_tok ex_queries = 4"
  by (simp add: effective_max_length_def ex_queries_def ex_sent_length)

lemma ex_effective_10: "effective_max_length 10 ex_tok ex_queries = 5"
  by (simp add: effective_max_length_def ex_queries_def ex_sent_length)

lemma ex_query_words_b: "query_words ''de'' = [''de'']"
  by (simp add: query_words_def split_def strip_def is_space_def whitespace_def)

lemma ex_labels_ok_b: "labels_ok ex_label_ids ''O'' (Some ex_raw_labels_b) ex_queries_b"
  by (simp add: labels_ok_def ex_label_ids_def ex_raw_labels_b_def ex_queries_b_def
        ex_query_words ex_query_words_b less_Suc_eq numeral_2_eq_2 all_conj_distrib)

lemma ex_path: "features_pkl_path ''d/t.txt'' ''BertTokenizer'' 4 0
  = ''d/cached_t.txt_BertTokenizer_4_0''"
  by (simp add: features_pkl_path_def path_join_def dirname_def basename_def slash_def
        str_int_def str_nat_digit Let_def)

lemma ex_endswith: "endswith ''d/t.txt'' ''.txt''" "\<not> endswith ''d/t.csv'' ''.txt''"
  by (simp_all add: endswith_def)

lemma ex_recomputes_fresh: "recomputes ex_env_fresh ''d/t.txt'' ''BertTokenizer'' 4 0 False"
  by (simp add: recomputes_def ex_env_fresh_def)

lemma ex_recomputes_cached:
  "\<not> recomputes ex_env_cached ''d/t.txt'' ''BertTokenizer'' 4 0 False"
  by (simp add: recomputes_def ex_env_cached_def ex_path)

lemma ex_recomputes_master:
  "recomputes ex_env_master ''d/t.txt'' ''BertTokenizer'' 4 0 False"
  by (simp add: recomputes_def ex_env_master_def)

lemma ex_recomputes_worker:
  "\<not> recomputes ex_env_worker ''d/t.txt'' ''BertTokenizer'' 4 0 False"
  by (simp add: recomputes_def ex_env_worker_def)

lemma ex_get_features_d:
  "get_features [''d''] 4 ex_tok ex_label_ids ''O'' (Some [[''B'']]) False False
     = Inr (ex_features, \<lparr>max_length = 3, too_long = 0\<rparr>)"
  by code_simp

section \<open>The claims of the specification\<close>

subsection \<open>The lengths of the rows\<close>

text \<open>
  C1, as amended. For a non-empty list of sentences with labels supplied and well formed
  (the pad label and every label of the batch are keys of the vocabulary, every sentence
  has its line of labels with at least one label per word), a tokenizer that returns at
  least one subword for every word and one id for every token, and a configured
  \<open>max_seq_length\<close> of at least 2, \<open>get_features\<close> returns six lists with one entry per
  sentence, and every entry of every list has exactly the effective max length. The bound
  2 is needed: the slice \<open>[-max_seq_length + 1:]\<close> keeps the last \<open>max_seq_length - 1\<close>
  elements only when \<open>- max_seq_length + 1\<close> is negative.
\<close>

theorem get_features_lengths:
  assumes "queries \<noteq> []" and "2 \<le> max_seq_length"
    and "labels_ok label_ids pad_label (Some raw_labels) queries"
    and "subwords_nonempty tok queries"
    and "ids_per_token tok"
  shows "\<exists>f rep.
      get_features queries max_seq_length tok label_ids pad_label (Some raw_labels)
        ignore_extra_tokens ignore_start_end = Inr (f, rep) \<and>
      max_length rep = effective_max_length max_seq_length tok queries \<and>
      length (all_input_ids f) = length queries \<and>
      length (all_segment_ids f) = length queries \<and>
      length (all_input_mask f) = length queries \<and>
      length (all_loss_mask f) = length queries \<and>
      length (all_subtokens_mask f) = length queries \<and>
      length (all_labels f) = length queries \<and>
      (\<forall>i < length queries.
         int (length (all_input_ids f ! i)) = max_length rep \<and>
         int (length (all_segment_ids f ! i)) = max_length rep \<and>
         int (length (all_input_mask f ! i)) = max_length rep \<and>
         int (length (all_loss_mask f ! i)) = max_length rep \<and>
         int (length (all_subtokens_mask f ! i)) = max_length rep \<and>
         int (length (all_labels f ! i)) = max_length rep)"
proof -
  let ?m = "effective_max_length max_seq_length tok queries"
  from first_loop_labels_ok [OF assms(3)] obtain ss pid where
    fl: "first_loop tok label_ids pad_label (Some raw_labels) ignore_extra_tokens
           ignore_start_end 0 queries None = Inr (ss, pid)"
    by blast
  from first_loop_labels_Some [OF fl assms(1)] obtain pad_id where
    pid: "pid = Some pad_id" and
    lab: "\<And>k. k < length queries \<Longrightarrow> \<exists>ql. length (query_words (queries ! k)) \<le> length ql \<and>
            labels (ss ! k) = built_labels tok pad_id ql (queries ! k)"
    by blast
  have len: "length ss = length queries"
    by (rule first_loop_length [OF fl])
  have m2: "2 \<le> ?m"
    by (rule effective_max_length_ge2 [OF assms(1,2)])
  let ?rows = "map (fit tok ignore_start_end (Some pad_id) ?m) ss"
  have g: "get_features queries max_seq_length tok label_ids pad_label (Some raw_labels)
        ignore_extra_tokens ignore_start_end
      = Inr (rows_features True ?rows,
             \<lparr>max_length = ?m,
              too_long = length (filter (\<lambda>q. int (sent_length tok q) > ?m) queries)\<rparr>)"
    using get_features_rows [OF fl assms(1), of max_seq_length] pid by simp
  have rows: "int (length (input_ids (?rows ! i))) = ?m \<and>
         int (length (segment_ids (?rows ! i))) = ?m \<and>
         int (length (row_input_mask (?rows ! i))) = ?m \<and>
         int (length (row_loss_mask (?rows ! i))) = ?m \<and>
         int (length (row_subtokens_mask (?rows ! i))) = ?m \<and>
         int (length (row_labels (?rows ! i))) = ?m"
    if i: "i < length queries" for i
  proof -
    from i have q: "queries ! i \<in> set queries" by simp
    with assms(4) have t: "\<forall>w \<in> set (query_words (queries ! i)). text_to_tokens tok w \<noteq> []"
      by (simp add: subwords_nonempty_def)
    from assms(5) have ids: "\<forall>ts. length (tokens_to_ids tok ts) = length ts"
      by (simp add: ids_per_token_def)
    note f = first_loop_masks [OF fl i]
    from lab [OF i] obtain ql where
      "length (query_words (queries ! i)) \<le> length ql"
      "labels (ss ! i) = built_labels tok pad_id ql (queries ! i)"
      by blast
    then have l4: "length (subtokens (ss ! i)) = length (labels (ss ! i))"
      using f(5) by (simp add: length_built_labels)
    have l1: "length (subtokens (ss ! i)) = length (input_mask (ss ! i))"
      using f(2,5) by simp
    have l2: "length (subtokens (ss ! i)) = length (loss_mask (ss ! i))"
      using f(3,5) t by (simp add: length_built_loss_mask)
    have l3: "length (subtokens (ss ! i)) = length (subtokens_mask (ss ! i))"
      using f(4,5) t by (simp add: length_built_subtokens_mask)
    from m2 have "int (length (segment_ids (fit tok ignore_start_end (Some pad_id) ?m (ss ! i)))) = ?m"
      by (simp add: fit_segment_ids)
    with fit_length(1) [OF m2 l1] fit_length(2) [OF m2 l2] fit_length(3) [OF m2 l3]
      fit_length(4) [OF m2 l4] fit_length(5) [OF m2 ids] i len
    show ?thesis by simp
  qed
  show ?thesis
    apply (rule exI [of _ "rows_features True ?rows"])
    apply (rule exI [of _ "\<lparr>max_length = ?m,
              too_long = length (filter (\<lambda>q. int (sent_length tok q) > ?m) queries)\<rparr>"])
    using g rows len
    apply (simp add: rows_features_simps)
    done
qed

text \<open>The hypotheses of C1 hold for the two sentences \<open>ab c\<close> and \<open>d\<close>, the
  character tokenizer and \<open>max_seq_length = 4\<close>: the first sentence is cut from five
  subtokens to four, the second is padded from three to four.\<close>

theorem get_features_lengths_witness:
  "ex_queries \<noteq> [] \<and> (2::int) \<le> 4 \<and>
   labels_ok ex_label_ids ''O'' (Some ex_raw_labels) ex_queries \<and>
   subwords_nonempty ex_tok ex_queries \<and> ids_per_token ex_tok \<and>
   (\<exists>f rep.
      get_features ex_queries 4 ex_tok ex_label_ids ''O'' (Some ex_raw_labels) True True
        = Inr (f, rep) \<and>
      max_length rep = 4 \<and>
      length (all_labels f) = 2 \<and>
      int (length (all_input_ids f ! 0)) = 4 \<and> int (length (all_labels f ! 0)) = 4 \<and>
      int (length (all_input_ids f ! 1)) = 4 \<and> int (length (all_labels f ! 1)) = 4)"
proof -
  have h1: "ex_queries \<noteq> []" by (simp add: ex_queries_def)
  have h2: "(2::int) \<le> 4" by simp
  have l: "length ex_queries = 2" by (simp add: ex_queries_def)
  from get_features_lengths [OF h1 h2 ex_labels_ok ex_tok_tokens ex_tok_ids, of True True]
  obtain f rep where
    "get_features ex_queries 4 ex_tok ex_label_ids ''O'' (Some ex_raw_labels) True True
        = Inr (f, rep)"
    "max_length rep = 4" "length (all_labels f) = 2"
    "int (length (all_input_ids f ! 0)) = 4 \<and> int (length (all_labels f ! 0)) = 4"
    "int (length (all_input_ids f ! 1)) = 4 \<and> int (length (all_labels f ! 1)) = 4"
    by (auto simp: ex_effective l)
  with h1 h2 ex_labels_ok ex_tok_tokens ex_tok_ids show ?thesis
    by blast
qed

text \<open>C1 as stated fails for \<open>max_seq_length = 1\<close> and \<open>0\<close>. With 1 the slice is
  \<open>[0:]\<close>, the whole list, and the sentence of three subtokens becomes one of four; with 0
  the slice is \<open>[1:]\<close> and the sentence keeps its three subtokens. In both cases the
  effective max length is the configured one.\<close>

theorem get_features_lengths_counterexample:
  "get_features [''a''] 1 ex_tok ex_label_ids ''O'' (Some [[''B'']]) False False
     = Inr (\<lparr>all_input_ids = [[5, 5, 1, 5]],
             all_segment_ids = [[0]],
             all_input_mask = [[1, 1, 1, 1]],
             all_loss_mask = [[1, 1, 1, 1]],
             all_subtokens_mask = [[0, 0, 1, 0]],
             all_labels = [[0, 0, 1, 0]]\<rparr>,
            \<lparr>max_length = 1, too_long = 1\<rparr>)
   \<and> int (length [5, 5, 1, 5 :: int]) \<noteq> 1
   \<and> get_features [''a''] 0 ex_tok ex_label_ids ''O'' (Some [[''B'']]) False False
     = Inr (\<lparr>all_input_ids = [[5, 1, 5]],
             all_segment_ids = [[]],
             all_input_mask = [[1, 1, 1]],
             all_loss_mask = [[1, 1, 1]],
             all_subtokens_mask = [[0, 1, 0]],
             all_labels = [[0, 1, 0]]\<rparr>,
            \<lparr>max_length = 0, too_long = 1\<rparr>)
   \<and> int (length [5, 1, 5 :: int]) \<noteq> 0"
  by code_simp

subsection \<open>The loss mask and the subtokens mask\<close>

text \<open>
  C2. For a non-empty batch on which \<open>get_features\<close> returns and a tokenizer that returns
  at least one subword for every word of the batch, the first loop builds for every
  sentence the subtoken sequence start marker, subwords of the words in order, end marker,
  and, position by position along it, the loss mask and the subtokens mask of the policy:
  the start marker has loss bit 1, or 0 with \<open>ignore_start_end\<close>, and alignment
  bit 0; the first subword of a word has loss bit 1 and alignment bit 1; a continuation
  subword has alignment bit 0 and loss bit 0 with \<open>ignore_extra_tokens\<close>, else 1; the end
  marker is as the start marker. A sentence that is not truncated keeps these masks in the
  result, followed by the zero padding.
\<close>

theorem mask_policy:
  assumes "queries \<noteq> []" and "labels_ok label_ids pad_label raw_labels queries"
    and "subwords_nonempty tok queries"
  shows "\<exists>f rep ss pid.
      first_loop tok label_ids pad_label raw_labels ignore_extra_tokens ignore_start_end
        0 queries None = Inr (ss, pid) \<and>
      length ss = length queries \<and>
      get_features queries max_seq_length tok label_ids pad_label raw_labels
        ignore_extra_tokens ignore_start_end = Inr (f, rep) \<and>
      (\<forall>i < length queries.
         subtokens (ss ! i)
           = cls_token tok # concat (map (text_to_tokens tok) (query_words (queries ! i)))
               @ [sep_token tok] \<and>
         length (sentence_positions tok (queries ! i)) = length (subtokens (ss ! i)) \<and>
         loss_mask (ss ! i)
           = map (loss_bit ignore_extra_tokens ignore_start_end)
               (sentence_positions tok (queries ! i)) \<and>
         subtokens_mask (ss ! i) = map align_bit (sentence_positions tok (queries ! i)) \<and>
         (int (length (subtokens (ss ! i))) \<le> max_length rep \<longrightarrow>
            all_loss_mask f ! i
              = map (loss_bit ignore_extra_tokens ignore_start_end)
                  (sentence_positions tok (queries ! i))
                @ replicate (nat (max_length rep) - length (subtokens (ss ! i))) 0 \<and>
            all_subtokens_mask f ! i
              = map align_bit (sentence_positions tok (queries ! i))
                @ replicate (nat (max_length rep) - length (subtokens (ss ! i))) 0))"
proof -
  let ?m = "effective_max_length max_seq_length tok queries"
  from assms(1,2) obtain ss pid where
    fl: "first_loop tok label_ids pad_label raw_labels ignore_extra_tokens ignore_start_end
           0 queries None = Inr (ss, pid)" and
    len: "length ss = length queries" and
    g: "get_features queries max_seq_length tok label_ids pad_label raw_labels
          ignore_extra_tokens ignore_start_end =
       Inr (rows_features (raw_labels \<noteq> None)
              (map (fit tok ignore_start_end (if raw_labels \<noteq> None then pid else None) ?m) ss),
            \<lparr>max_length = ?m,
             too_long = length (filter (\<lambda>q. int (sent_length tok q) > ?m) queries)\<rparr>)"
    by (rule get_features_returns)
  define f where "f = rows_features (raw_labels \<noteq> None)
     (map (fit tok ignore_start_end (if raw_labels \<noteq> None then pid else None) ?m) ss)"
  define rep where "rep = \<lparr>max_length = ?m,
     too_long = length (filter (\<lambda>q. int (sent_length tok q) > ?m) queries)\<rparr>"
  have C: "get_features queries max_seq_length tok label_ids pad_label raw_labels
          ignore_extra_tokens ignore_start_end = Inr (f, rep)"
    using g by (simp add: f_def rep_def)
  have M: "\<forall>i < length queries.
         subtokens (ss ! i)
           = cls_token tok # concat (map (text_to_tokens tok) (query_words (queries ! i)))
               @ [sep_token tok] \<and>
         length (sentence_positions tok (queries ! i)) = length (subtokens (ss ! i)) \<and>
         loss_mask (ss ! i)
           = map (loss_bit ignore_extra_tokens ignore_start_end)
               (sentence_positions tok (queries ! i)) \<and>
         subtokens_mask (ss ! i) = map align_bit (sentence_positions tok (queries ! i)) \<and>
         (int (length (subtokens (ss ! i))) \<le> max_length rep \<longrightarrow>
            all_loss_mask f ! i
              = map (loss_bit ignore_extra_tokens ignore_start_end)
                  (sentence_positions tok (queries ! i))
                @ replicate (nat (max_length rep) - length (subtokens (ss ! i))) 0 \<and>
            all_subtokens_mask f ! i
              = map align_bit (sentence_positions tok (queries ! i))
                @ replicate (nat (max_length rep) - length (subtokens (ss ! i))) 0)"
  proof (intro allI impI)
    fix i
    assume i: "i < length queries"
    then have "queries ! i \<in> set queries" by simp
    with assms(3) have t: "\<forall>w \<in> set (query_words (queries ! i)). text_to_tokens tok w \<noteq> []"
      unfolding subwords_nonempty_def by blast
    note b = first_loop_masks [OF fl i]
    have s: "subtokens (ss ! i)
           = cls_token tok # concat (map (text_to_tokens tok) (query_words (queries ! i)))
               @ [sep_token tok]"
      using b(1) by (simp add: built_subtokens_def)
    have n: "length (sentence_positions tok (queries ! i)) = length (subtokens (ss ! i))"
      using b(5) by (simp add: length_sentence_positions)
    have l: "loss_mask (ss ! i)
           = map (loss_bit ignore_extra_tokens ignore_start_end)
               (sentence_positions tok (queries ! i))"
      using b(3) by (simp add: built_loss_mask_positions [OF t])
    have a: "subtokens_mask (ss ! i) = map align_bit (sentence_positions tok (queries ! i))"
      using b(4) by (simp add: built_subtokens_mask_positions [OF t])
    have r: "all_loss_mask f ! i
              = map (loss_bit ignore_extra_tokens ignore_start_end)
                  (sentence_positions tok (queries ! i))
                @ replicate (nat (max_length rep) - length (subtokens (ss ! i))) 0 \<and>
            all_subtokens_mask f ! i
              = map align_bit (sentence_positions tok (queries ! i))
                @ replicate (nat (max_length rep) - length (subtokens (ss ! i))) 0"
      if "int (length (subtokens (ss ! i))) \<le> max_length rep"
    proof -
      from that have le: "int (length (subtokens (ss ! i))) \<le> ?m"
        by (simp add: rep_def)
      from fit_not_too_long(3,4) [OF le, of tok ignore_start_end] i len
      show ?thesis
        by (simp add: f_def rep_def rows_features_simps l [symmetric] a [symmetric])
    qed
    from s n l a r show "subtokens (ss ! i)
           = cls_token tok # concat (map (text_to_tokens tok) (query_words (queries ! i)))
               @ [sep_token tok] \<and>
         length (sentence_positions tok (queries ! i)) = length (subtokens (ss ! i)) \<and>
         loss_mask (ss ! i)
           = map (loss_bit ignore_extra_tokens ignore_start_end)
               (sentence_positions tok (queries ! i)) \<and>
         subtokens_mask (ss ! i) = map align_bit (sentence_positions tok (queries ! i)) \<and>
         (int (length (subtokens (ss ! i))) \<le> max_length rep \<longrightarrow>
            all_loss_mask f ! i
              = map (loss_bit ignore_extra_tokens ignore_start_end)
                  (sentence_positions tok (queries ! i))
                @ replicate (nat (max_length rep) - length (subtokens (ss ! i))) 0 \<and>
            all_subtokens_mask f ! i
              = map align_bit (sentence_positions tok (queries ! i))
                @ replicate (nat (max_length rep) - length (subtokens (ss ! i))) 0)"
      by blast
  qed
  from fl len C M show ?thesis by blast
qed

text \<open>The sentence \<open>ab c\<close> with both flags set: \<open>ab\<close> gives a first subword and a
  continuation subword, \<open>c\<close> a first subword.\<close>

theorem mask_policy_witness:
  "ex_queries \<noteq> [] \<and> labels_ok ex_label_ids ''O'' (Some ex_raw_labels) ex_queries \<and>
   subwords_nonempty ex_tok ex_queries \<and>
   sentence_positions ex_tok ''ab c'' = [Start, First, Continuation, First, End] \<and>
   (\<exists>f rep.
      get_features ex_queries 10 ex_tok ex_label_ids ''O'' (Some ex_raw_labels) True True
        = Inr (f, rep) \<and>
      all_loss_mask f ! 0 = [0, 1, 0, 1, 0] \<and>
      all_subtokens_mask f ! 0 = [0, 1, 0, 1, 0])"
proof -
  have h1: "ex_queries \<noteq> []" by (simp add: ex_queries_def)
  have p: "sentence_positions ex_tok ''ab c'' = [Start, First, Continuation, First, End]"
    by (simp add: sentence_positions_def ex_query_words ex_tok_def word_positions_def)
  from mask_policy [OF h1 ex_labels_ok ex_tok_tokens, of True True 10]
  obtain f rep where
    g: "get_features ex_queries 10 ex_tok ex_label_ids ''O'' (Some ex_raw_labels) True True
        = Inr (f, rep)"
    by blast
  have "get_features ex_queries 10 ex_tok ex_label_ids ''O'' (Some ex_raw_labels) True True
        = Inr (\<lparr>all_input_ids = [[5, 1, 1, 1, 5], [5, 1, 5, 0, 0]],
                all_segment_ids = [[0, 0, 0, 0, 0], [0, 0, 0, 0, 0]],
                all_input_mask = [[1, 1, 1, 1, 1], [1, 1, 1, 0, 0]],
                all_loss_mask = [[0, 1, 0, 1, 0], [0, 1, 0, 0, 0]],
                all_subtokens_mask = [[0, 1, 0, 1, 0], [0, 1, 0, 0, 0]],
                all_labels = [[0, 1, 1, 0, 0], [0, 0, 0, 0, 0]]\<rparr>,
               \<lparr>max_length = 5, too_long = 0\<rparr>)"
    by code_simp
  with g have "all_loss_mask f ! 0 = [0, 1, 0, 1, 0] \<and> all_subtokens_mask f ! 0 = [0, 1, 0, 1, 0]"
    by auto
  with h1 ex_labels_ok ex_tok_tokens p g show ?thesis by blast
qed

subsection \<open>Truncation\<close>

text \<open>
  C3 does not hold of the code for \<open>max_seq_length = 1\<close>. The sentence \<open>ab\<close> has four
  subtokens after the first loop and the effective max length is 1, so the sentence is
  longer than the effective max length and is truncated. The slice \<open>[-1 + 1:]\<close> of
  lines 123 to 126 is \<open>[0:]\<close>, the whole list: the row is the start marker followed by all
  four subtokens, five ids beside one segment id, where C3 asks for the start marker
  followed by the last \<open>1 - 1\<close> subtokens, the start marker alone. For a configured
  length of at least 2 the slice index is negative and the rows are the ones C3 describes
  (lemma \<open>truncation_from_two\<close>).
\<close>

theorem truncation_at_one:
  "first_loop ex_tok None ''O'' None False True 0 [''ab''] None
     = Inr ([\<lparr>subtokens = [''[CLS]'', ''a'', ''b'', ''[SEP]''],
              input_mask = [1, 1, 1, 1],
              loss_mask = [0, 1, 1, 0],
              subtokens_mask = [0, 1, 0, 0],
              labels = []\<rparr>], None)
   \<and> get_features [''ab''] 1 ex_tok None ''O'' None False True
     = Inr (\<lparr>all_input_ids = [[5, 5, 1, 1, 5]],
             all_segment_ids = [[0]],
             all_input_mask = [[1, 1, 1, 1, 1]],
             all_loss_mask = [[0, 0, 1, 1, 0]],
             all_subtokens_mask = [[0, 0, 1, 0, 0]],
             all_labels = []\<rparr>,
            \<lparr>max_length = 1, too_long = 1\<rparr>)
   \<and> tokens_to_ids ex_tok
        (cls_token ex_tok # last_n (nat (1 - 1)) [''[CLS]'', ''a'', ''b'', ''[SEP]'']) = [5]
   \<and> [5, 5, 1, 1, 5] \<noteq> [5 :: int]"
  by code_simp

subsection \<open>Labels of subwords\<close>

text \<open>
  C4. For a non-empty batch with well-formed labels, the first loop builds for every
  sentence a label list as long as its subtoken sequence: the position of the start marker
  and the position of the end marker hold the pad label id, and the position of every
  subword of a word, first or continuation, holds the id of that word's label. A sentence
  that is not truncated keeps this list in the result, followed by the pad label id on
  the padding.
\<close>

theorem label_expansion:
  assumes "queries \<noteq> []" and "labels_ok label_ids pad_label (Some raw_labels) queries"
  shows "\<exists>f rep ss pad_id.
      first_loop tok label_ids pad_label (Some raw_labels) ignore_extra_tokens
        ignore_start_end 0 queries None = Inr (ss, Some pad_id) \<and>
      label_lookup label_ids pad_label = Inr pad_id \<and>
      length ss = length queries \<and>
      get_features queries max_seq_length tok label_ids pad_label (Some raw_labels)
        ignore_extra_tokens ignore_start_end = Inr (f, rep) \<and>
      (\<forall>i < length queries.
         length (labels (ss ! i)) = length (subtokens (ss ! i)) \<and>
         subtokens (ss ! i) ! 0 = cls_token tok \<and>
         labels (ss ! i) ! 0 = pad_id \<and>
         subtokens (ss ! i) ! (length (subtokens (ss ! i)) - 1) = sep_token tok \<and>
         labels (ss ! i) ! (length (subtokens (ss ! i)) - 1) = pad_id \<and>
         (\<forall>j < length (query_words (queries ! i)).
            \<forall>k < length (text_to_tokens tok (query_words (queries ! i) ! j)).
              word_offset tok (query_words (queries ! i)) j + k
                < length (subtokens (ss ! i)) - 1 \<and>
              subtokens (ss ! i) ! (word_offset tok (query_words (queries ! i)) j + k)
                = text_to_tokens tok (query_words (queries ! i) ! j) ! k \<and>
              label_lookup label_ids (raw_labels ! i ! j)
                = Inr (labels (ss ! i) ! (word_offset tok (query_words (queries ! i)) j + k))) \<and>
         (int (length (subtokens (ss ! i))) \<le> max_length rep \<longrightarrow>
            all_labels f ! i
              = labels (ss ! i)
                @ replicate (nat (max_length rep) - length (subtokens (ss ! i))) pad_id))"
proof -
  let ?m = "effective_max_length max_seq_length tok queries"
  from assms obtain ss pid where
    fl: "first_loop tok label_ids pad_label (Some raw_labels) ignore_extra_tokens
           ignore_start_end 0 queries None = Inr (ss, pid)" and
    len: "length ss = length queries" and
    g: "get_features queries max_seq_length tok label_ids pad_label (Some raw_labels)
          ignore_extra_tokens ignore_start_end =
       Inr (rows_features (Some raw_labels \<noteq> None)
              (map (fit tok ignore_start_end (if Some raw_labels \<noteq> None then pid else None) ?m) ss),
            \<lparr>max_length = ?m,
             too_long = length (filter (\<lambda>q. int (sent_length tok q) > ?m) queries)\<rparr>)"
    by (rule get_features_returns)
  from first_loop_labels_Some [OF fl assms(1)] obtain pad_id where
    pd: "label_lookup label_ids pad_label = Inr pad_id" "pid = Some pad_id" and
    lab: "\<And>k. k < length queries \<Longrightarrow> \<exists>ql. k < length raw_labels \<and>
            lookup_all label_ids (raw_labels ! k) = Inr ql \<and>
            length (query_words (queries ! k)) \<le> length ql \<and>
            labels (ss ! k) = built_labels tok pad_id ql (queries ! k)"
    by blast
  define f where "f = rows_features True (map (fit tok ignore_start_end (Some pad_id) ?m) ss)"
  define rep where "rep = \<lparr>max_length = ?m,
     too_long = length (filter (\<lambda>q. int (sent_length tok q) > ?m) queries)\<rparr>"
  have C: "get_features queries max_seq_length tok label_ids pad_label (Some raw_labels)
          ignore_extra_tokens ignore_start_end = Inr (f, rep)"
    using g pd by (simp add: f_def rep_def)
  have fl': "first_loop tok label_ids pad_label (Some raw_labels) ignore_extra_tokens
           ignore_start_end 0 queries None = Inr (ss, Some pad_id)"
    using fl pd by simp
  have L: "\<forall>i < length queries.
         length (labels (ss ! i)) = length (subtokens (ss ! i)) \<and>
         subtokens (ss ! i) ! 0 = cls_token tok \<and>
         labels (ss ! i) ! 0 = pad_id \<and>
         subtokens (ss ! i) ! (length (subtokens (ss ! i)) - 1) = sep_token tok \<and>
         labels (ss ! i) ! (length (subtokens (ss ! i)) - 1) = pad_id \<and>
         (\<forall>j < length (query_words (queries ! i)).
            \<forall>k < length (text_to_tokens tok (query_words (queries ! i) ! j)).
              word_offset tok (query_words (queries ! i)) j + k
                < length (subtokens (ss ! i)) - 1 \<and>
              subtokens (ss ! i) ! (word_offset tok (query_words (queries ! i)) j + k)
                = text_to_tokens tok (query_words (queries ! i) ! j) ! k \<and>
              label_lookup label_ids (raw_labels ! i ! j)
                = Inr (labels (ss ! i) ! (word_offset tok (query_words (queries ! i)) j + k))) \<and>
         (int (length (subtokens (ss ! i))) \<le> max_length rep \<longrightarrow>
            all_labels f ! i
              = labels (ss ! i)
                @ replicate (nat (max_length rep) - length (subtokens (ss ! i))) pad_id)"
  proof (intro allI impI)
    fix i
    assume i: "i < length queries"
    note b = first_loop_masks [OF fl i]
    from lab [OF i] obtain ql where
      q: "lookup_all label_ids (raw_labels ! i) = Inr ql"
         "length (query_words (queries ! i)) \<le> length ql"
         "labels (ss ! i) = built_labels tok pad_id ql (queries ! i)"
      by blast
    have n: "length (labels (ss ! i)) = length (subtokens (ss ! i))"
      using q(2,3) b(5) by (simp add: length_built_labels)
    have e: "subtokens (ss ! i) ! 0 = cls_token tok" "labels (ss ! i) ! 0 = pad_id"
      "subtokens (ss ! i) ! (length (subtokens (ss ! i)) - 1) = sep_token tok"
      "labels (ss ! i) ! (length (subtokens (ss ! i)) - 1) = pad_id"
      using built_labels_ends [of tok pad_id ql "queries ! i"]
        built_subtokens_ends [of tok "queries ! i"] n
      by (simp_all add: b(1) q(3))
    have w: "word_offset tok (query_words (queries ! i)) j + k
                < length (subtokens (ss ! i)) - 1 \<and>
              subtokens (ss ! i) ! (word_offset tok (query_words (queries ! i)) j + k)
                = text_to_tokens tok (query_words (queries ! i) ! j) ! k \<and>
              label_lookup label_ids (raw_labels ! i ! j)
                = Inr (labels (ss ! i) ! (word_offset tok (query_words (queries ! i)) j + k))"
      if j: "j < length (query_words (queries ! i))"
        and k: "k < length (text_to_tokens tok (query_words (queries ! i) ! j))" for j k
    proof -
      from j q(2) lookup_all_length [OF q(1)] have "j < length (raw_labels ! i)" by simp
      from lookup_all_nth [OF q(1) this]
      have "label_lookup label_ids (raw_labels ! i ! j) = Inr (ql ! j)" .
      with built_labels_nth [OF q(2) j k, of pad_id] built_subtokens_nth [OF j k]
      show ?thesis by (simp add: b(1) q(3))
    qed
    have r: "all_labels f ! i
              = labels (ss ! i)
                @ replicate (nat (max_length rep) - length (subtokens (ss ! i))) pad_id"
      if "int (length (subtokens (ss ! i))) \<le> max_length rep"
    proof -
      from that have le: "int (length (subtokens (ss ! i))) \<le> ?m"
        by (simp add: rep_def)
      from fit_not_too_long(5) [OF le, of tok ignore_start_end "Some pad_id"] i len
      show ?thesis
        by (simp add: f_def rep_def rows_features_simps)
    qed
    from n e w r show "length (labels (ss ! i)) = length (subtokens (ss ! i)) \<and>
         subtokens (ss ! i) ! 0 = cls_token tok \<and>
         labels (ss ! i) ! 0 = pad_id \<and>
         subtokens (ss ! i) ! (length (subtokens (ss ! i)) - 1) = sep_token tok \<and>
         labels (ss ! i) ! (length (subtokens (ss ! i)) - 1) = pad_id \<and>
         (\<forall>j < length (query_words (queries ! i)).
            \<forall>k < length (text_to_tokens tok (query_words (queries ! i) ! j)).
              word_offset tok (query_words (queries ! i)) j + k
                < length (subtokens (ss ! i)) - 1 \<and>
              subtokens (ss ! i) ! (word_offset tok (query_words (queries ! i)) j + k)
                = text_to_tokens tok (query_words (queries ! i) ! j) ! k \<and>
              label_lookup label_ids (raw_labels ! i ! j)
                = Inr (labels (ss ! i) ! (word_offset tok (query_words (queries ! i)) j + k))) \<and>
         (int (length (subtokens (ss ! i))) \<le> max_length rep \<longrightarrow>
            all_labels f ! i
              = labels (ss ! i)
                @ replicate (nat (max_length rep) - length (subtokens (ss ! i))) pad_id)"
      by blast
  qed
  from fl' pd(1) len C L show ?thesis by blast
qed

text \<open>The sentence \<open>ab c\<close> with labels \<open>B O\<close>, the pad label \<open>O\<close> with id 7 and \<open>B\<close> with
  id 1: both subwords of \<open>ab\<close> carry 1, the subword of \<open>c\<close> and both markers carry 7.\<close>

theorem label_expansion_witness:
  "ex_queries \<noteq> [] \<and> labels_ok ex_label_ids_b ''O'' (Some ex_raw_labels) ex_queries \<and>
   (\<exists>f rep ss.
      first_loop ex_tok ex_label_ids_b ''O'' (Some ex_raw_labels) False False 0 ex_queries None
        = Inr (ss, Some 7) \<and>
      subtokens (ss ! 0) = [''[CLS]'', ''a'', ''b'', ''c'', ''[SEP]''] \<and>
      labels (ss ! 0) = [7, 1, 1, 7, 7] \<and>
      get_features ex_queries 10 ex_tok ex_label_ids_b ''O'' (Some ex_raw_labels) False False
        = Inr (f, rep) \<and>
      all_labels f ! 0 = [7, 1, 1, 7, 7])"
proof -
  have h1: "ex_queries \<noteq> []" by (simp add: ex_queries_def)
  have h2: "labels_ok ex_label_ids_b ''O'' (Some ex_raw_labels) ex_queries"
    by (simp add: labels_ok_def ex_label_ids_b_def ex_raw_labels_def ex_queries_def
        ex_query_words less_Suc_eq numeral_2_eq_2 all_conj_distrib)
  from label_expansion [OF h1 h2, of ex_tok False False 10]
  obtain f rep where
    g: "get_features ex_queries 10 ex_tok ex_label_ids_b ''O'' (Some ex_raw_labels) False False
        = Inr (f, rep)"
    by blast
  have fl: "first_loop ex_tok ex_label_ids_b ''O'' (Some ex_raw_labels) False False 0 ex_queries None
        = Inr ([\<lparr>subtokens = [''[CLS]'', ''a'', ''b'', ''c'', ''[SEP]''],
                 input_mask = [1, 1, 1, 1, 1],
                 loss_mask = [1, 1, 1, 1, 1],
                 subtokens_mask = [0, 1, 0, 1, 0],
                 labels = [7, 1, 1, 7, 7]\<rparr>,
                \<lparr>subtokens = [''[CLS]'', ''d'', ''[SEP]''],
                 input_mask = [1, 1, 1],
                 loss_mask = [1, 1, 1],
                 subtokens_mask = [0, 1, 0],
                 labels = [7, 7, 7]\<rparr>], Some 7)"
    by code_simp
  have "get_features ex_queries 10 ex_tok ex_label_ids_b ''O'' (Some ex_raw_labels) False False
        = Inr (\<lparr>all_input_ids = [[5, 1, 1, 1, 5], [5, 1, 5, 0, 0]],
                all_segment_ids = [[0, 0, 0, 0, 0], [0, 0, 0, 0, 0]],
                all_input_mask = [[1, 1, 1, 1, 1], [1, 1, 1, 0, 0]],
                all_loss_mask = [[1, 1, 1, 1, 1], [1, 1, 1, 0, 0]],
                all_subtokens_mask = [[0, 1, 0, 1, 0], [0, 1, 0, 0, 0]],
                all_labels = [[7, 1, 1, 7, 7], [7, 7, 7, 7, 7]]\<rparr>,
               \<lparr>max_length = 5, too_long = 0\<rparr>)"
    by code_simp
  with g have a: "all_labels f ! 0 = [7, 1, 1, 7, 7]"
    by auto
  show ?thesis
    apply (intro conjI h1 h2)
    apply (rule exI [of _ f])
    apply (rule exI [of _ rep])
    apply (rule exI)
    apply (intro conjI)
        apply (rule fl)
       apply simp
      apply simp
     apply (rule g)
    apply (rule a)
    done
qed

subsection \<open>The effective max length\<close>

text \<open>
  C5. For a non-empty batch on which \<open>get_features\<close> returns (the labels, when supplied,
  are well formed), the effective max length it reports and uses is the minimum of the
  configured \<open>max_seq_length\<close> and the length of the longest subtoken sequence of the
  batch, the two markers included, so it never exceeds the longest sequence. The first
  loop leaves a sequence of \<open>sent_length\<close> subtokens for every sentence. This minimum is
  the length used by the second loop: the segment ids are \<open>[0]\<close> times it; the sentences
  counted as too long are those longer than it, and each of them is replaced by the start
  marker followed by the slice \<open>[-minimum + 1:]\<close> of its lists, which makes a row of
  exactly this length when \<open>max_seq_length\<close> is at least 2; every other sentence is
  followed by as many pads as it has subtokens less than the minimum, none for a sentence
  of this length, so that its row has exactly this length and no row is padded beyond the
  longest sequence.
\<close>

theorem effective_max_length_policy:
  assumes "queries \<noteq> []" and "labels_ok label_ids pad_label raw_labels queries"
  shows "\<exists>f rep ss pid.
      first_loop tok label_ids pad_label raw_labels ignore_extra_tokens ignore_start_end
        0 queries None = Inr (ss, pid) \<and>
      map (\<lambda>s. length (subtokens s)) ss = map (sent_length tok) queries \<and>
      get_features queries max_seq_length tok label_ids pad_label raw_labels
        ignore_extra_tokens ignore_start_end = Inr (f, rep) \<and>
      max_length rep
        = min max_seq_length (Max (set (map (\<lambda>q. int (sent_length tok q)) queries))) \<and>
      max_length rep \<le> Max (set (map (\<lambda>q. int (sent_length tok q)) queries)) \<and>
      too_long rep = length (filter (\<lambda>q. int (sent_length tok q) > max_length rep) queries) \<and>
      (\<forall>i < length queries. all_segment_ids f ! i = replicate (nat (max_length rep)) 0) \<and>
      (\<forall>i < length queries. int (length (subtokens (ss ! i))) > max_length rep \<longrightarrow>
         all_input_ids f ! i = tokens_to_ids tok
            (cls_token tok # slice_from (- max_length rep + 1) (subtokens (ss ! i))) \<and>
         all_input_mask f ! i = 1 # slice_from (- max_length rep + 1) (input_mask (ss ! i)) \<and>
         all_loss_mask f ! i = int_of_bool (\<not> ignore_start_end)
            # slice_from (- max_length rep + 1) (loss_mask (ss ! i)) \<and>
         all_subtokens_mask f ! i
            = 0 # slice_from (- max_length rep + 1) (subtokens_mask (ss ! i)) \<and>
         (raw_labels \<noteq> None \<longrightarrow>
            (\<exists>pad_id. label_lookup label_ids pad_label = Inr pad_id \<and>
               all_labels f ! i
                 = pad_id # slice_from (- max_length rep + 1) (labels (ss ! i)))) \<and>
         (2 \<le> max_seq_length \<longrightarrow>
            all_input_mask f ! i = replicate (nat (max_length rep)) 1 \<and>
            int (length (all_input_mask f ! i)) = max_length rep)) \<and>
      (\<forall>i < length queries. int (length (subtokens (ss ! i))) \<le> max_length rep \<longrightarrow>
         all_input_ids f ! i = tokens_to_ids tok (subtokens (ss ! i))
            @ replicate (nat (max_length rep) - length (subtokens (ss ! i))) 0 \<and>
         all_input_mask f ! i = replicate (length (subtokens (ss ! i))) 1
            @ replicate (nat (max_length rep) - length (subtokens (ss ! i))) 0 \<and>
         all_loss_mask f ! i = loss_mask (ss ! i)
            @ replicate (nat (max_length rep) - length (subtokens (ss ! i))) 0 \<and>
         all_subtokens_mask f ! i = subtokens_mask (ss ! i)
            @ replicate (nat (max_length rep) - length (subtokens (ss ! i))) 0 \<and>
         (raw_labels \<noteq> None \<longrightarrow>
            (\<exists>pad_id. label_lookup label_ids pad_label = Inr pad_id \<and>
               all_labels f ! i = labels (ss ! i)
                 @ replicate (nat (max_length rep) - length (subtokens (ss ! i))) pad_id)) \<and>
         int (length (all_input_mask f ! i)) = max_length rep)"
proof -
  let ?m = "effective_max_length max_seq_length tok queries"
  from assms obtain ss pid where
    fl: "first_loop tok label_ids pad_label raw_labels ignore_extra_tokens ignore_start_end
           0 queries None = Inr (ss, pid)" and
    len: "length ss = length queries" and
    g: "get_features queries max_seq_length tok label_ids pad_label raw_labels
          ignore_extra_tokens ignore_start_end =
       Inr (rows_features (raw_labels \<noteq> None)
              (map (fit tok ignore_start_end (if raw_labels \<noteq> None then pid else None) ?m) ss),
            \<lparr>max_length = ?m,
             too_long = length (filter (\<lambda>q. int (sent_length tok q) > ?m) queries)\<rparr>)"
    by (rule get_features_returns)
  let ?row = "\<lambda>i. fit tok ignore_start_end (if raw_labels \<noteq> None then pid else None) ?m (ss ! i)"
  have l: "map (\<lambda>s. length (subtokens s)) ss = map (sent_length tok) queries"
    using first_loop_masks(5) [OF fl] len by (intro nth_equalityI) simp_all
  have lab: "\<exists>pad_id. label_lookup label_ids pad_label = Inr pad_id \<and>
      (if raw_labels \<noteq> None then pid else None) = Some pad_id"
    if r: "raw_labels \<noteq> None"
    using first_loop_pad_id [OF fl assms(1) r] r by auto
  have long: "input_ids (?row i) = tokens_to_ids tok
            (cls_token tok # slice_from (- ?m + 1) (subtokens (ss ! i))) \<and>
         row_input_mask (?row i) = 1 # slice_from (- ?m + 1) (input_mask (ss ! i)) \<and>
         row_loss_mask (?row i) = int_of_bool (\<not> ignore_start_end)
            # slice_from (- ?m + 1) (loss_mask (ss ! i)) \<and>
         row_subtokens_mask (?row i) = 0 # slice_from (- ?m + 1) (subtokens_mask (ss ! i)) \<and>
         (raw_labels \<noteq> None \<longrightarrow>
            (\<exists>pad_id. label_lookup label_ids pad_label = Inr pad_id \<and>
               row_labels (?row i) = pad_id # slice_from (- ?m + 1) (labels (ss ! i)))) \<and>
         (2 \<le> max_seq_length \<longrightarrow>
            row_input_mask (?row i) = replicate (nat ?m) 1 \<and>
            int (length (row_input_mask (?row i))) = ?m)"
    if i: "i < length queries" and gt: "int (length (subtokens (ss ! i))) > ?m" for i
  proof -
    note t = fit_too_long_slice [OF gt, of tok ignore_start_end]
    note b = first_loop_masks [OF fl i]
    have L: "\<exists>pad_id. label_lookup label_ids pad_label = Inr pad_id \<and>
               row_labels (?row i) = pad_id # slice_from (- ?m + 1) (labels (ss ! i))"
      if r: "raw_labels \<noteq> None"
    proof -
      from lab [OF r] obtain pad_id where
        pd: "label_lookup label_ids pad_label = Inr pad_id"
          "(if raw_labels \<noteq> None then pid else None) = Some pad_id"
        by blast
      have "row_labels (?row i) = pad_id # slice_from (- ?m + 1) (labels (ss ! i))"
        unfolding pd(2) using t(5) [of "Some pad_id"] by simp
      with pd(1) show ?thesis by blast
    qed
    have N: "row_input_mask (?row i) = replicate (nat ?m) 1 \<and>
            int (length (row_input_mask (?row i))) = ?m"
      if m: "2 \<le> max_seq_length"
    proof -
      have m2: "2 \<le> ?m"
        by (rule effective_max_length_ge2 [OF assms(1) m])
      have d: "length (subtokens (ss ! i)) - (length (subtokens (ss ! i)) - nat (?m - 1))
          = nat (?m - 1)"
        using gt m2 by linarith
      have "row_input_mask (?row i) = 1 # replicate (nat (?m - 1)) 1"
        using b(2,5) d by (simp add: t(2) slice_from_last_n [OF m2] last_n_def)
      also have "\<dots> = replicate (Suc (nat (?m - 1))) 1"
        by simp
      also have "Suc (nat (?m - 1)) = nat ?m"
        using m2 by linarith
      finally have e: "row_input_mask (?row i) = replicate (nat ?m) 1" .
      from m2 have "int (length (replicate (nat ?m) (1 :: int))) = ?m"
        by simp
      with e show ?thesis by simp
    qed
    from t(1-4) L N show ?thesis by blast
  qed
  have short: "input_ids (?row i) = tokens_to_ids tok (subtokens (ss ! i))
            @ replicate (nat ?m - length (subtokens (ss ! i))) 0 \<and>
         row_input_mask (?row i) = replicate (length (subtokens (ss ! i))) 1
            @ replicate (nat ?m - length (subtokens (ss ! i))) 0 \<and>
         row_loss_mask (?row i) = loss_mask (ss ! i)
            @ replicate (nat ?m - length (subtokens (ss ! i))) 0 \<and>
         row_subtokens_mask (?row i) = subtokens_mask (ss ! i)
            @ replicate (nat ?m - length (subtokens (ss ! i))) 0 \<and>
         (raw_labels \<noteq> None \<longrightarrow>
            (\<exists>pad_id. label_lookup label_ids pad_label = Inr pad_id \<and>
               row_labels (?row i) = labels (ss ! i)
                 @ replicate (nat ?m - length (subtokens (ss ! i))) pad_id)) \<and>
         int (length (row_input_mask (?row i))) = ?m"
    if i: "i < length queries" and le: "int (length (subtokens (ss ! i))) \<le> ?m" for i
  proof -
    note p = fit_not_too_long [OF le, of tok ignore_start_end]
    note b = first_loop_masks [OF fl i]
    have L: "\<exists>pad_id. label_lookup label_ids pad_label = Inr pad_id \<and>
               row_labels (?row i) = labels (ss ! i)
                 @ replicate (nat ?m - length (subtokens (ss ! i))) pad_id"
      if r: "raw_labels \<noteq> None"
    proof -
      from lab [OF r] obtain pad_id where
        pd: "label_lookup label_ids pad_label = Inr pad_id"
          "(if raw_labels \<noteq> None then pid else None) = Some pad_id"
        by blast
      have "row_labels (?row i) = labels (ss ! i)
                 @ replicate (nat ?m - length (subtokens (ss ! i))) pad_id"
        unfolding pd(2) using p(5) [of "Some pad_id"] by simp
      with pd(1) show ?thesis by blast
    qed
    have M: "row_input_mask (?row i) = replicate (length (subtokens (ss ! i))) 1
            @ replicate (nat ?m - length (subtokens (ss ! i))) 0"
      using b(2,5) by (simp add: p(2))
    have "length (row_input_mask (?row i))
        = length (subtokens (ss ! i)) + (nat ?m - length (subtokens (ss ! i)))"
      unfolding M by simp
    with le have N: "int (length (row_input_mask (?row i))) = ?m"
      by linarith
    from p(1,3,4) L M N show ?thesis by blast
  qed
  define f where "f = rows_features (raw_labels \<noteq> None)
     (map (fit tok ignore_start_end (if raw_labels \<noteq> None then pid else None) ?m) ss)"
  define rep where "rep = \<lparr>max_length = ?m,
     too_long = length (filter (\<lambda>q. int (sent_length tok q) > ?m) queries)\<rparr>"
  have C: "get_features queries max_seq_length tok label_ids pad_label raw_labels
          ignore_extra_tokens ignore_start_end = Inr (f, rep)"
    using g by (simp add: f_def rep_def)
  have M1: "max_length rep
        = min max_seq_length (Max (set (map (\<lambda>q. int (sent_length tok q)) queries)))"
    by (simp add: rep_def effective_max_length_def)
  have M2: "max_length rep \<le> Max (set (map (\<lambda>q. int (sent_length tok q)) queries))"
    unfolding M1 by simp
  have D: "too_long rep
      = length (filter (\<lambda>q. int (sent_length tok q) > max_length rep) queries)"
    by (simp add: rep_def)
  have S: "\<forall>i < length queries. all_segment_ids f ! i = replicate (nat (max_length rep)) 0"
    using len by (simp add: f_def rep_def rows_features_simps fit_segment_ids)
  have E: "\<forall>i < length queries. int (length (subtokens (ss ! i))) > max_length rep \<longrightarrow>
         all_input_ids f ! i = tokens_to_ids tok
            (cls_token tok # slice_from (- max_length rep + 1) (subtokens (ss ! i))) \<and>
         all_input_mask f ! i = 1 # slice_from (- max_length rep + 1) (input_mask (ss ! i)) \<and>
         all_loss_mask f ! i = int_of_bool (\<not> ignore_start_end)
            # slice_from (- max_length rep + 1) (loss_mask (ss ! i)) \<and>
         all_subtokens_mask f ! i
            = 0 # slice_from (- max_length rep + 1) (subtokens_mask (ss ! i)) \<and>
         (raw_labels \<noteq> None \<longrightarrow>
            (\<exists>pad_id. label_lookup label_ids pad_label = Inr pad_id \<and>
               all_labels f ! i
                 = pad_id # slice_from (- max_length rep + 1) (labels (ss ! i)))) \<and>
         (2 \<le> max_seq_length \<longrightarrow>
            all_input_mask f ! i = replicate (nat (max_length rep)) 1 \<and>
            int (length (all_input_mask f ! i)) = max_length rep)"
  proof (intro allI impI)
    fix i
    assume i: "i < length queries" and "int (length (subtokens (ss ! i))) > max_length rep"
    then have "int (length (subtokens (ss ! i))) > ?m"
      by (simp add: rep_def)
    from long [OF i this] i len show "all_input_ids f ! i = tokens_to_ids tok
            (cls_token tok # slice_from (- max_length rep + 1) (subtokens (ss ! i))) \<and>
         all_input_mask f ! i = 1 # slice_from (- max_length rep + 1) (input_mask (ss ! i)) \<and>
         all_loss_mask f ! i = int_of_bool (\<not> ignore_start_end)
            # slice_from (- max_length rep + 1) (loss_mask (ss ! i)) \<and>
         all_subtokens_mask f ! i
            = 0 # slice_from (- max_length rep + 1) (subtokens_mask (ss ! i)) \<and>
         (raw_labels \<noteq> None \<longrightarrow>
            (\<exists>pad_id. label_lookup label_ids pad_label = Inr pad_id \<and>
               all_labels f ! i
                 = pad_id # slice_from (- max_length rep + 1) (labels (ss ! i)))) \<and>
         (2 \<le> max_seq_length \<longrightarrow>
            all_input_mask f ! i = replicate (nat (max_length rep)) 1 \<and>
            int (length (all_input_mask f ! i)) = max_length rep)"
      by (cases raw_labels) (auto simp: f_def rep_def rows_features_simps)
  qed
  have F: "\<forall>i < length queries. int (length (subtokens (ss ! i))) \<le> max_length rep \<longrightarrow>
         all_input_ids f ! i = tokens_to_ids tok (subtokens (ss ! i))
            @ replicate (nat (max_length rep) - length (subtokens (ss ! i))) 0 \<and>
         all_input_mask f ! i = replicate (length (subtokens (ss ! i))) 1
            @ replicate (nat (max_length rep) - length (subtokens (ss ! i))) 0 \<and>
         all_loss_mask f ! i = loss_mask (ss ! i)
            @ replicate (nat (max_length rep) - length (subtokens (ss ! i))) 0 \<and>
         all_subtokens_mask f ! i = subtokens_mask (ss ! i)
            @ replicate (nat (max_length rep) - length (subtokens (ss ! i))) 0 \<and>
         (raw_labels \<noteq> None \<longrightarrow>
            (\<exists>pad_id. label_lookup label_ids pad_label = Inr pad_id \<and>
               all_labels f ! i = labels (ss ! i)
                 @ replicate (nat (max_length rep) - length (subtokens (ss ! i))) pad_id)) \<and>
         int (length (all_input_mask f ! i)) = max_length rep"
  proof (intro allI impI)
    fix i
    assume i: "i < length queries" and "int (length (subtokens (ss ! i))) \<le> max_length rep"
    then have le: "int (length (subtokens (ss ! i))) \<le> ?m"
      by (simp add: rep_def)
    from short [OF i le] i len le show "all_input_ids f ! i = tokens_to_ids tok (subtokens (ss ! i))
            @ replicate (nat (max_length rep) - length (subtokens (ss ! i))) 0 \<and>
         all_input_mask f ! i = replicate (length (subtokens (ss ! i))) 1
            @ replicate (nat (max_length rep) - length (subtokens (ss ! i))) 0 \<and>
         all_loss_mask f ! i = loss_mask (ss ! i)
            @ replicate (nat (max_length rep) - length (subtokens (ss ! i))) 0 \<and>
         all_subtokens_mask f ! i = subtokens_mask (ss ! i)
            @ replicate (nat (max_length rep) - length (subtokens (ss ! i))) 0 \<and>
         (raw_labels \<noteq> None \<longrightarrow>
            (\<exists>pad_id. label_lookup label_ids pad_label = Inr pad_id \<and>
               all_labels f ! i = labels (ss ! i)
                 @ replicate (nat (max_length rep) - length (subtokens (ss ! i))) pad_id)) \<and>
         int (length (all_input_mask f ! i)) = max_length rep"
      by (cases raw_labels) (auto simp: f_def rep_def rows_features_simps)
  qed
  from fl l C M1 M2 D S E F show ?thesis by blast
qed

text \<open>For the two sentences \<open>ab c\<close> (five subtokens) and \<open>d\<close> (three subtokens): with a
  configured length of 4 the effective length is 4, the first sentence is cut to the start
  marker and its last three subtokens and the second is padded by one position; with a
  configured length of 10 the effective length is 5, the length of the longer sentence,
  and the second sentence is padded to 5 positions, not to 10.\<close>

theorem effective_max_length_policy_witness:
  "ex_queries \<noteq> [] \<and> labels_ok ex_label_ids ''O'' (Some ex_raw_labels) ex_queries \<and>
   (\<exists>f rep.
      get_features ex_queries 4 ex_tok ex_label_ids ''O'' (Some ex_raw_labels) False False
        = Inr (f, rep) \<and>
      max_length rep = 4 \<and> too_long rep = 1 \<and>
      all_segment_ids f ! 0 = [0, 0, 0, 0] \<and>
      all_input_ids f ! 0 = [5, 1, 1, 5] \<and>
      all_input_mask f ! 0 = [1, 1, 1, 1] \<and>
      all_labels f ! 0 = [0, 1, 0, 0] \<and>
      all_input_ids f ! 1 = [5, 1, 5, 0] \<and>
      all_input_mask f ! 1 = [1, 1, 1, 0]) \<and>
   (\<exists>f rep.
      get_features ex_queries 10 ex_tok ex_label_ids ''O'' (Some ex_raw_labels) False False
        = Inr (f, rep) \<and>
      max_length rep = 5 \<and> too_long rep = 0 \<and>
      all_segment_ids f ! 1 = [0, 0, 0, 0, 0] \<and>
      all_input_mask f ! 0 = [1, 1, 1, 1, 1] \<and>
      all_input_mask f ! 1 = [1, 1, 1, 0, 0])"
proof -
  have h1: "ex_queries \<noteq> []" by (simp add: ex_queries_def)
  have q: "length ex_queries = 2" "ex_queries ! 0 = ''ab c''" "ex_queries ! 1 = ''d''"
    by (simp_all add: ex_queries_def)
  have fl: "first_loop ex_tok ex_label_ids ''O'' (Some ex_raw_labels) False False 0
      ex_queries None
    = Inr ([\<lparr>subtokens = [''[CLS]'', ''a'', ''b'', ''c'', ''[SEP]''],
             input_mask = [1, 1, 1, 1, 1], loss_mask = [1, 1, 1, 1, 1],
             subtokens_mask = [0, 1, 0, 1, 0], labels = [0, 1, 1, 0, 0]\<rparr>,
            \<lparr>subtokens = [''[CLS]'', ''d'', ''[SEP]''],
             input_mask = [1, 1, 1], loss_mask = [1, 1, 1],
             subtokens_mask = [0, 1, 0], labels = [0, 0, 0]\<rparr>], Some 0)"
    by code_simp
  have pad: "label_lookup ex_label_ids ''O'' = Inr 0"
    by code_simp
  have ids: "tokens_to_ids ex_tok [''[CLS]'', ''b'', ''c'', ''[SEP]''] = [5, 1, 1, 5]"
    "tokens_to_ids ex_tok [''[CLS]'', ''d'', ''[SEP]''] = [5, 1, 5]"
    "cls_token ex_tok = ''[CLS]''"
    by (simp_all add: ex_tok_def)
  have m4: "min 4 (Max (set (map (\<lambda>q. int (sent_length ex_tok q)) ex_queries))) = 4"
    using ex_effective by (simp add: effective_max_length_def)
  have m10: "min 10 (Max (set (map (\<lambda>q. int (sent_length ex_tok q)) ex_queries))) = 5"
    using ex_effective_10 by (simp add: effective_max_length_def)
  from effective_max_length_policy [OF h1 ex_labels_ok, of ex_tok False False 4]
  obtain f rep ss pid where
    s: "first_loop ex_tok ex_label_ids ''O'' (Some ex_raw_labels) False False 0
          ex_queries None = Inr (ss, pid)" and
    g: "get_features ex_queries 4 ex_tok ex_label_ids ''O'' (Some ex_raw_labels) False False
        = Inr (f, rep)" and
    r: "max_length rep = 4"
       "too_long rep = length (filter (\<lambda>q. int (sent_length ex_tok q) > max_length rep) ex_queries)"
       "\<forall>i < length ex_queries. all_segment_ids f ! i = replicate (nat (max_length rep)) 0" and
    t: "\<forall>i < length ex_queries. int (length (subtokens (ss ! i))) > max_length rep \<longrightarrow>
         all_input_ids f ! i = tokens_to_ids ex_tok
            (cls_token ex_tok # slice_from (- max_length rep + 1) (subtokens (ss ! i))) \<and>
         all_input_mask f ! i = 1 # slice_from (- max_length rep + 1) (input_mask (ss ! i)) \<and>
         all_loss_mask f ! i = int_of_bool (\<not> False)
            # slice_from (- max_length rep + 1) (loss_mask (ss ! i)) \<and>
         all_subtokens_mask f ! i
            = 0 # slice_from (- max_length rep + 1) (subtokens_mask (ss ! i)) \<and>
         (Some ex_raw_labels \<noteq> None \<longrightarrow>
            (\<exists>pad_id. label_lookup ex_label_ids ''O'' = Inr pad_id \<and>
               all_labels f ! i
                 = pad_id # slice_from (- max_length rep + 1) (labels (ss ! i)))) \<and>
         ((2::int) \<le> 4 \<longrightarrow>
            all_input_mask f ! i = replicate (nat (max_length rep)) 1 \<and>
            int (length (all_input_mask f ! i)) = max_length rep)" and
    p: "\<forall>i < length ex_queries. int (length (subtokens (ss ! i))) \<le> max_length rep \<longrightarrow>
         all_input_ids f ! i = tokens_to_ids ex_tok (subtokens (ss ! i))
            @ replicate (nat (max_length rep) - length (subtokens (ss ! i))) 0 \<and>
         all_input_mask f ! i = replicate (length (subtokens (ss ! i))) 1
            @ replicate (nat (max_length rep) - length (subtokens (ss ! i))) 0 \<and>
         all_loss_mask f ! i = loss_mask (ss ! i)
            @ replicate (nat (max_length rep) - length (subtokens (ss ! i))) 0 \<and>
         all_subtokens_mask f ! i = subtokens_mask (ss ! i)
            @ replicate (nat (max_length rep) - length (subtokens (ss ! i))) 0 \<and>
         (Some ex_raw_labels \<noteq> None \<longrightarrow>
            (\<exists>pad_id. label_lookup ex_label_ids ''O'' = Inr pad_id \<and>
               all_labels f ! i = labels (ss ! i)
                 @ replicate (nat (max_length rep) - length (subtokens (ss ! i))) pad_id)) \<and>
         int (length (all_input_mask f ! i)) = max_length rep"
    unfolding m4 by blast
  from s fl have ss: "ss = [\<lparr>subtokens = [''[CLS]'', ''a'', ''b'', ''c'', ''[SEP]''],
             input_mask = [1, 1, 1, 1, 1], loss_mask = [1, 1, 1, 1, 1],
             subtokens_mask = [0, 1, 0, 1, 0], labels = [0, 1, 1, 0, 0]\<rparr>,
            \<lparr>subtokens = [''[CLS]'', ''d'', ''[SEP]''],
             input_mask = [1, 1, 1], loss_mask = [1, 1, 1],
             subtokens_mask = [0, 1, 0], labels = [0, 0, 0]\<rparr>]"
    by simp
  from r(1,2) have a1: "too_long rep = 1"
    by (simp add: ex_queries_def ex_sent_length)
  from r(1,3) q have a2: "all_segment_ids f ! 0 = [0, 0, 0, 0]"
    by (simp add: numeral_eq_Suc)
  from t [rule_format, of 0] q r(1) pad
  have a3: "all_input_ids f ! 0 = [5, 1, 1, 5] \<and> all_input_mask f ! 0 = [1, 1, 1, 1]
      \<and> all_labels f ! 0 = [0, 1, 0, 0]"
    by (simp add: ss slice_from_def ids)
  from p [rule_format, of 1] q r(1)
  have a4: "all_input_ids f ! 1 = [5, 1, 5, 0] \<and> all_input_mask f ! 1 = [1, 1, 1, 0]"
    by (simp add: ss ids numeral_eq_Suc)
  from effective_max_length_policy [OF h1 ex_labels_ok, of ex_tok False False 10]
  obtain f' rep' ss' pid' where
    s': "first_loop ex_tok ex_label_ids ''O'' (Some ex_raw_labels) False False 0
          ex_queries None = Inr (ss', pid')" and
    g': "get_features ex_queries 10 ex_tok ex_label_ids ''O'' (Some ex_raw_labels) False False
        = Inr (f', rep')" and
    r': "max_length rep' = 5"
       "too_long rep' = length (filter (\<lambda>q. int (sent_length ex_tok q) > max_length rep') ex_queries)"
       "\<forall>i < length ex_queries. all_segment_ids f' ! i = replicate (nat (max_length rep')) 0" and
    p': "\<forall>i < length ex_queries. int (length (subtokens (ss' ! i))) \<le> max_length rep' \<longrightarrow>
         all_input_ids f' ! i = tokens_to_ids ex_tok (subtokens (ss' ! i))
            @ replicate (nat (max_length rep') - length (subtokens (ss' ! i))) 0 \<and>
         all_input_mask f' ! i = replicate (length (subtokens (ss' ! i))) 1
            @ replicate (nat (max_length rep') - length (subtokens (ss' ! i))) 0 \<and>
         all_loss_mask f' ! i = loss_mask (ss' ! i)
            @ replicate (nat (max_length rep') - length (subtokens (ss' ! i))) 0 \<and>
         all_subtokens_mask f' ! i = subtokens_mask (ss' ! i)
            @ replicate (nat (max_length rep') - length (subtokens (ss' ! i))) 0 \<and>
         (Some ex_raw_labels \<noteq> None \<longrightarrow>
            (\<exists>pad_id. label_lookup ex_label_ids ''O'' = Inr pad_id \<and>
               all_labels f' ! i = labels (ss' ! i)
                 @ replicate (nat (max_length rep') - length (subtokens (ss' ! i))) pad_id)) \<and>
         int (length (all_input_mask f' ! i)) = max_length rep'"
    unfolding m10 by blast
  from s' fl have ss': "ss' = [\<lparr>subtokens = [''[CLS]'', ''a'', ''b'', ''c'', ''[SEP]''],
             input_mask = [1, 1, 1, 1, 1], loss_mask = [1, 1, 1, 1, 1],
             subtokens_mask = [0, 1, 0, 1, 0], labels = [0, 1, 1, 0, 0]\<rparr>,
            \<lparr>subtokens = [''[CLS]'', ''d'', ''[SEP]''],
             input_mask = [1, 1, 1], loss_mask = [1, 1, 1],
             subtokens_mask = [0, 1, 0], labels = [0, 0, 0]\<rparr>]"
    by simp
  from r'(1,2) have b1: "too_long rep' = 0"
    by (simp add: ex_queries_def ex_sent_length)
  from r'(1,3) q have b2: "all_segment_ids f' ! 1 = [0, 0, 0, 0, 0]"
    by (simp add: numeral_eq_Suc)
  from p' [rule_format, of 0] q r'(1)
  have b3: "all_input_mask f' ! 0 = [1, 1, 1, 1, 1]"
    by (simp add: ss' numeral_eq_Suc)
  from p' [rule_format, of 1] q r'(1)
  have b4: "all_input_mask f' ! 1 = [1, 1, 1, 0, 0]"
    by (simp add: ss' numeral_eq_Suc)
  from g r(1) a1 a2 a3 a4 have A: "\<exists>f rep.
      get_features ex_queries 4 ex_tok ex_label_ids ''O'' (Some ex_raw_labels) False False
        = Inr (f, rep) \<and>
      max_length rep = 4 \<and> too_long rep = 1 \<and>
      all_segment_ids f ! 0 = [0, 0, 0, 0] \<and>
      all_input_ids f ! 0 = [5, 1, 1, 5] \<and>
      all_input_mask f ! 0 = [1, 1, 1, 1] \<and>
      all_labels f ! 0 = [0, 1, 0, 0] \<and>
      all_input_ids f ! 1 = [5, 1, 5, 0] \<and>
      all_input_mask f ! 1 = [1, 1, 1, 0]"
    by blast
  from g' r'(1) b1 b2 b3 b4 have B: "\<exists>f rep.
      get_features ex_queries 10 ex_tok ex_label_ids ''O'' (Some ex_raw_labels) False False
        = Inr (f, rep) \<and>
      max_length rep = 5 \<and> too_long rep = 0 \<and>
      all_segment_ids f ! 1 = [0, 0, 0, 0, 0] \<and>
      all_input_mask f ! 0 = [1, 1, 1, 1, 1] \<and>
      all_input_mask f ! 1 = [1, 1, 1, 0, 0]"
    by blast
  from h1 ex_labels_ok A B show ?thesis by blast
qed

subsection \<open>Padding and segment ids\<close>

text \<open>
  C6, as amended. For a non-empty batch on which \<open>get_features\<close> returns: the segment
  ids of every sentence are \<open>[0] * effective max length\<close>, a list of zeros whose length is
  the effective max length when \<open>max_seq_length\<close> is not negative (for a negative
  \<open>max_seq_length\<close> Python's list repetition gives the empty list); and a sentence whose
  subtoken sequence, as the first loop built it, is shorter than the effective max length
  has its ids, input mask, loss mask and subtokens mask followed by as many zeros, and its
  labels (when supplied) by as many pad label ids, as subtokens are missing. The padded
  input mask and labels then have exactly the effective max length; the padded loss mask
  and subtokens mask have it when the tokenizer returns at least one subword for every
  word of the batch, and the padded ids have it when the tokenizer returns one id per
  token.
\<close>

theorem padding_policy:
  assumes "queries \<noteq> []" and "labels_ok label_ids pad_label raw_labels queries"
  shows "\<exists>f rep ss pid.
      first_loop tok label_ids pad_label raw_labels ignore_extra_tokens ignore_start_end
        0 queries None = Inr (ss, pid) \<and>
      length ss = length queries \<and>
      get_features queries max_seq_length tok label_ids pad_label raw_labels
        ignore_extra_tokens ignore_start_end = Inr (f, rep) \<and>
      (\<forall>i < length queries.
         all_segment_ids f ! i = replicate (nat (max_length rep)) 0 \<and>
         (0 \<le> max_seq_length \<longrightarrow> int (length (all_segment_ids f ! i)) = max_length rep)) \<and>
      (\<forall>i < length queries. int (length (subtokens (ss ! i))) < max_length rep \<longrightarrow>
         all_input_ids f ! i = tokens_to_ids tok (subtokens (ss ! i))
            @ replicate (nat (max_length rep) - length (subtokens (ss ! i))) 0 \<and>
         all_input_mask f ! i = input_mask (ss ! i)
            @ replicate (nat (max_length rep) - length (subtokens (ss ! i))) 0 \<and>
         all_loss_mask f ! i = loss_mask (ss ! i)
            @ replicate (nat (max_length rep) - length (subtokens (ss ! i))) 0 \<and>
         all_subtokens_mask f ! i = subtokens_mask (ss ! i)
            @ replicate (nat (max_length rep) - length (subtokens (ss ! i))) 0 \<and>
         (raw_labels \<noteq> None \<longrightarrow>
            (\<exists>pad_id. label_lookup label_ids pad_label = Inr pad_id \<and>
               all_labels f ! i = labels (ss ! i)
                 @ replicate (nat (max_length rep) - length (subtokens (ss ! i))) pad_id) \<and>
            int (length (all_labels f ! i)) = max_length rep) \<and>
         int (length (all_input_mask f ! i)) = max_length rep \<and>
         (subwords_nonempty tok queries \<longrightarrow>
            int (length (all_loss_mask f ! i)) = max_length rep \<and>
            int (length (all_subtokens_mask f ! i)) = max_length rep) \<and>
         (ids_per_token tok \<longrightarrow> int (length (all_input_ids f ! i)) = max_length rep))"
proof -
  let ?m = "effective_max_length max_seq_length tok queries"
  from assms obtain ss pid where
    fl: "first_loop tok label_ids pad_label raw_labels ignore_extra_tokens ignore_start_end
           0 queries None = Inr (ss, pid)" and
    len: "length ss = length queries" and
    g: "get_features queries max_seq_length tok label_ids pad_label raw_labels
          ignore_extra_tokens ignore_start_end =
       Inr (rows_features (raw_labels \<noteq> None)
              (map (fit tok ignore_start_end (if raw_labels \<noteq> None then pid else None) ?m) ss),
            \<lparr>max_length = ?m,
             too_long = length (filter (\<lambda>q. int (sent_length tok q) > ?m) queries)\<rparr>)"
    by (rule get_features_returns)
  let ?row = "\<lambda>i. fit tok ignore_start_end (if raw_labels \<noteq> None then pid else None) ?m (ss ! i)"
  define f where "f = rows_features (raw_labels \<noteq> None)
     (map (fit tok ignore_start_end (if raw_labels \<noteq> None then pid else None) ?m) ss)"
  define rep where "rep = \<lparr>max_length = ?m,
     too_long = length (filter (\<lambda>q. int (sent_length tok q) > ?m) queries)\<rparr>"
  have C: "get_features queries max_seq_length tok label_ids pad_label raw_labels
          ignore_extra_tokens ignore_start_end = Inr (f, rep)"
    using g by (simp add: f_def rep_def)
  have m0: "0 \<le> max_seq_length \<Longrightarrow> 0 \<le> ?m"
    using effective_max_length_in [OF assms(1), of max_seq_length tok] by auto
  have S: "\<forall>i < length queries.
         all_segment_ids f ! i = replicate (nat (max_length rep)) 0 \<and>
         (0 \<le> max_seq_length \<longrightarrow> int (length (all_segment_ids f ! i)) = max_length rep)"
    using len m0 by (simp add: f_def rep_def rows_features_simps fit_segment_ids)
  have P: "\<forall>i < length queries. int (length (subtokens (ss ! i))) < max_length rep \<longrightarrow>
         all_input_ids f ! i = tokens_to_ids tok (subtokens (ss ! i))
            @ replicate (nat (max_length rep) - length (subtokens (ss ! i))) 0 \<and>
         all_input_mask f ! i = input_mask (ss ! i)
            @ replicate (nat (max_length rep) - length (subtokens (ss ! i))) 0 \<and>
         all_loss_mask f ! i = loss_mask (ss ! i)
            @ replicate (nat (max_length rep) - length (subtokens (ss ! i))) 0 \<and>
         all_subtokens_mask f ! i = subtokens_mask (ss ! i)
            @ replicate (nat (max_length rep) - length (subtokens (ss ! i))) 0 \<and>
         (raw_labels \<noteq> None \<longrightarrow>
            (\<exists>pad_id. label_lookup label_ids pad_label = Inr pad_id \<and>
               all_labels f ! i = labels (ss ! i)
                 @ replicate (nat (max_length rep) - length (subtokens (ss ! i))) pad_id) \<and>
            int (length (all_labels f ! i)) = max_length rep) \<and>
         int (length (all_input_mask f ! i)) = max_length rep \<and>
         (subwords_nonempty tok queries \<longrightarrow>
            int (length (all_loss_mask f ! i)) = max_length rep \<and>
            int (length (all_subtokens_mask f ! i)) = max_length rep) \<and>
         (ids_per_token tok \<longrightarrow> int (length (all_input_ids f ! i)) = max_length rep)"
  proof (intro allI impI)
    fix i
    assume i: "i < length queries" and "int (length (subtokens (ss ! i))) < max_length rep"
    then have short: "int (length (subtokens (ss ! i))) < ?m"
      by (simp add: rep_def)
    note p = fit_short [OF short, of tok ignore_start_end]
    note b = first_loop_masks [OF fl i]
    let ?n = "nat ?m - length (subtokens (ss ! i))"
    have tot: "int (length xs) = ?m" if "length xs = length (subtokens (ss ! i)) + ?n" for xs :: "int list"
      using that short by linarith
    have L: "(\<exists>pad_id. label_lookup label_ids pad_label = Inr pad_id \<and>
               row_labels (?row i) = labels (ss ! i) @ replicate ?n pad_id) \<and>
            int (length (row_labels (?row i))) = ?m"
      if r: "raw_labels \<noteq> None"
    proof -
      from first_loop_pad_id [OF fl assms(1) r] obtain pad_id where
        pd: "label_lookup label_ids pad_label = Inr pad_id" "pid = Some pad_id"
        by blast
      with r have lab: "(if raw_labels \<noteq> None then pid else None) = Some pad_id"
        by simp
      have e: "row_labels (?row i) = labels (ss ! i) @ replicate ?n pad_id"
        unfolding lab using p(5) [of "Some pad_id"] by simp
      have "length (row_labels (?row i)) = length (subtokens (ss ! i)) + ?n"
        unfolding e using first_loop_labels_length [OF fl i r] by simp
      from tot [OF this] e pd show ?thesis by blast
    qed
    have M: "int (length (row_input_mask (?row i))) = ?m"
      using b(2,5) by (intro tot) (simp add: p(2))
    have T: "int (length (row_loss_mask (?row i))) = ?m \<and>
             int (length (row_subtokens_mask (?row i))) = ?m"
      if "subwords_nonempty tok queries"
    proof -
      from i have "queries ! i \<in> set queries" by simp
      with that have t: "\<forall>w \<in> set (query_words (queries ! i)). text_to_tokens tok w \<noteq> []"
        unfolding subwords_nonempty_def by blast
      have "length (row_loss_mask (?row i)) = length (subtokens (ss ! i)) + ?n"
        using b(3,5) t by (simp add: p(3) length_built_loss_mask)
      moreover have "length (row_subtokens_mask (?row i)) = length (subtokens (ss ! i)) + ?n"
        using b(4,5) t by (simp add: p(4) length_built_subtokens_mask)
      ultimately show ?thesis using tot by blast
    qed
    have I: "int (length (input_ids (?row i))) = ?m" if "ids_per_token tok"
      using that by (intro tot) (simp add: p(1) ids_per_token_def)
    from p(1-4) L M T I i len
    show "all_input_ids f ! i = tokens_to_ids tok (subtokens (ss ! i))
            @ replicate (nat (max_length rep) - length (subtokens (ss ! i))) 0 \<and>
         all_input_mask f ! i = input_mask (ss ! i)
            @ replicate (nat (max_length rep) - length (subtokens (ss ! i))) 0 \<and>
         all_loss_mask f ! i = loss_mask (ss ! i)
            @ replicate (nat (max_length rep) - length (subtokens (ss ! i))) 0 \<and>
         all_subtokens_mask f ! i = subtokens_mask (ss ! i)
            @ replicate (nat (max_length rep) - length (subtokens (ss ! i))) 0 \<and>
         (raw_labels \<noteq> None \<longrightarrow>
            (\<exists>pad_id. label_lookup label_ids pad_label = Inr pad_id \<and>
               all_labels f ! i = labels (ss ! i)
                 @ replicate (nat (max_length rep) - length (subtokens (ss ! i))) pad_id) \<and>
            int (length (all_labels f ! i)) = max_length rep) \<and>
         int (length (all_input_mask f ! i)) = max_length rep \<and>
         (subwords_nonempty tok queries \<longrightarrow>
            int (length (all_loss_mask f ! i)) = max_length rep \<and>
            int (length (all_subtokens_mask f ! i)) = max_length rep) \<and>
         (ids_per_token tok \<longrightarrow> int (length (all_input_ids f ! i)) = max_length rep)"
      by (cases raw_labels) (simp_all add: f_def rep_def rows_features_simps)
  qed
  from fl len C S P show ?thesis by blast
qed

text \<open>With \<open>max_seq_length = 10\<close> the effective max length of the two sentences \<open>ab c\<close> and
  \<open>d\<close> is 5, and the second sentence (three subtokens) is padded by two positions.\<close>

theorem padding_policy_witness:
  "ex_queries \<noteq> [] \<and> labels_ok ex_label_ids_b ''O'' (Some ex_raw_labels) ex_queries \<and>
   (\<exists>f rep.
      get_features ex_queries 10 ex_tok ex_label_ids_b ''O''
          (Some ex_raw_labels) False False
        = Inr (f, rep) \<and>
      max_length rep = 5 \<and>
      all_segment_ids f = [[0, 0, 0, 0, 0], [0, 0, 0, 0, 0]] \<and>
      all_input_ids f ! 1 = [5, 1, 5, 0, 0] \<and>
      all_input_mask f ! 1 = [1, 1, 1, 0, 0] \<and>
      all_loss_mask f ! 1 = [1, 1, 1, 0, 0] \<and>
      all_subtokens_mask f ! 1 = [0, 1, 0, 0, 0] \<and>
      all_labels f ! 1 = [7, 7, 7, 7, 7])"
proof -
  have h1: "ex_queries \<noteq> []" by (simp add: ex_queries_def)
  have h2: "labels_ok ex_label_ids_b ''O'' (Some ex_raw_labels) ex_queries"
    by (simp add: labels_ok_def ex_label_ids_b_def ex_raw_labels_def ex_queries_def
        ex_query_words less_Suc_eq numeral_2_eq_2 all_conj_distrib)
  from padding_policy [OF h1 h2, of ex_tok False False 10]
  obtain f rep where
    g: "get_features ex_queries 10 ex_tok ex_label_ids_b ''O''
          (Some ex_raw_labels) False False = Inr (f, rep)"
    by blast
  have "get_features ex_queries 10 ex_tok ex_label_ids_b ''O''
          (Some ex_raw_labels) False False
        = Inr (\<lparr>all_input_ids = [[5, 1, 1, 1, 5], [5, 1, 5, 0, 0]],
                all_segment_ids = [[0, 0, 0, 0, 0], [0, 0, 0, 0, 0]],
                all_input_mask = [[1, 1, 1, 1, 1], [1, 1, 1, 0, 0]],
                all_loss_mask = [[1, 1, 1, 1, 1], [1, 1, 1, 0, 0]],
                all_subtokens_mask = [[0, 1, 0, 1, 0], [0, 1, 0, 0, 0]],
                all_labels = [[7, 1, 1, 7, 7], [7, 7, 7, 7, 7]]\<rparr>,
               \<lparr>max_length = 5, too_long = 0\<rparr>)"
    by code_simp
  with g have "max_length rep = 5 \<and>
      all_segment_ids f = [[0, 0, 0, 0, 0], [0, 0, 0, 0, 0]] \<and>
      all_input_ids f ! 1 = [5, 1, 5, 0, 0] \<and>
      all_input_mask f ! 1 = [1, 1, 1, 0, 0] \<and>
      all_loss_mask f ! 1 = [1, 1, 1, 0, 0] \<and>
      all_subtokens_mask f ! 1 = [0, 1, 0, 0, 0] \<and>
      all_labels f ! 1 = [7, 7, 7, 7, 7]"
    by auto
  with h1 h2 g show ?thesis by blast
qed

text \<open>C6 as stated fails for a negative \<open>max_seq_length\<close>: with \<open>-1\<close> the effective max
  length is \<open>-1\<close> and the segment ids are \<open>[0] * -1\<close>, the empty list, of length 0.\<close>

theorem padding_policy_counterexample:
  "get_features [''a''] (- 1) ex_tok None ''O'' None False False
     = Inr (\<lparr>all_input_ids = [[5, 5]],
             all_segment_ids = [[]],
             all_input_mask = [[1, 1]],
             all_loss_mask = [[1, 1]],
             all_subtokens_mask = [[0, 0]],
             all_labels = []\<rparr>,
            \<lparr>max_length = - 1, too_long = 1\<rparr>)
   \<and> int (length ([] :: int list)) \<noteq> - 1"
  by code_simp

subsection \<open>Words and the subtokens mask\<close>

text \<open>
  C7. For a non-empty batch on which \<open>get_features\<close> returns, every sentence that is not
  truncated (its subtoken sequence, as the first loop built it, is not longer than the
  effective max length) has as many entries 1 in its subtokens mask as the sentence has
  whitespace-separated words: the mask is 0 for the start marker, 1 followed by zeros for
  each word, 0 for the end marker, and zeros for the padding. \<open>word_count\<close> counts the
  positions where a word starts; it is the number of words that \<open>strip\<close> and \<open>split\<close>
  return.
\<close>

theorem subtokens_mask_word_count:
  assumes "queries \<noteq> []" and "labels_ok label_ids pad_label raw_labels queries"
  shows "\<exists>f rep ss pid.
      first_loop tok label_ids pad_label raw_labels ignore_extra_tokens ignore_start_end
        0 queries None = Inr (ss, pid) \<and>
      length ss = length queries \<and>
      get_features queries max_seq_length tok label_ids pad_label raw_labels
        ignore_extra_tokens ignore_start_end = Inr (f, rep) \<and>
      (\<forall>i < length queries. int (length (subtokens (ss ! i))) \<le> max_length rep \<longrightarrow>
         all_subtokens_mask f ! i
           = 0 # concat (map (\<lambda>w. 1 # replicate (length (text_to_tokens tok w) - 1) 0)
                           (query_words (queries ! i)))
               @ [0] @ replicate (nat (max_length rep) - length (subtokens (ss ! i))) 0 \<and>
         count_list (all_subtokens_mask f ! i) 1 = length (query_words (queries ! i)) \<and>
         count_list (all_subtokens_mask f ! i) 1 = word_count (queries ! i))"
proof -
  let ?m = "effective_max_length max_seq_length tok queries"
  from assms obtain ss pid where
    fl: "first_loop tok label_ids pad_label raw_labels ignore_extra_tokens ignore_start_end
           0 queries None = Inr (ss, pid)" and
    len: "length ss = length queries" and
    g: "get_features queries max_seq_length tok label_ids pad_label raw_labels
          ignore_extra_tokens ignore_start_end =
       Inr (rows_features (raw_labels \<noteq> None)
              (map (fit tok ignore_start_end (if raw_labels \<noteq> None then pid else None) ?m) ss),
            \<lparr>max_length = ?m,
             too_long = length (filter (\<lambda>q. int (sent_length tok q) > ?m) queries)\<rparr>)"
    by (rule get_features_returns)
  define f where "f = rows_features (raw_labels \<noteq> None)
     (map (fit tok ignore_start_end (if raw_labels \<noteq> None then pid else None) ?m) ss)"
  define rep where "rep = \<lparr>max_length = ?m,
     too_long = length (filter (\<lambda>q. int (sent_length tok q) > ?m) queries)\<rparr>"
  have C: "get_features queries max_seq_length tok label_ids pad_label raw_labels
          ignore_extra_tokens ignore_start_end = Inr (f, rep)"
    using g by (simp add: f_def rep_def)
  have W: "\<forall>i < length queries. int (length (subtokens (ss ! i))) \<le> max_length rep \<longrightarrow>
         all_subtokens_mask f ! i
           = 0 # concat (map (\<lambda>w. 1 # replicate (length (text_to_tokens tok w) - 1) 0)
                           (query_words (queries ! i)))
               @ [0] @ replicate (nat (max_length rep) - length (subtokens (ss ! i))) 0 \<and>
         count_list (all_subtokens_mask f ! i) 1 = length (query_words (queries ! i)) \<and>
         count_list (all_subtokens_mask f ! i) 1 = word_count (queries ! i)"
  proof (intro allI impI)
    fix i
    assume i: "i < length queries" and "int (length (subtokens (ss ! i))) \<le> max_length rep"
    then have le: "int (length (subtokens (ss ! i))) \<le> ?m"
      by (simp add: rep_def)
    let ?n = "nat ?m - length (subtokens (ss ! i))"
    have a: "all_subtokens_mask f ! i = built_subtokens_mask tok (queries ! i) @ replicate ?n 0"
      using fit_not_too_long(4) [OF le] first_loop_masks(4) [OF fl i] i len
      by (simp add: f_def rows_features_simps)
    have b: "built_subtokens_mask tok (queries ! i)
        = 0 # concat (map (\<lambda>w. 1 # replicate (length (text_to_tokens tok w) - 1) 0)
                           (query_words (queries ! i))) @ [0]"
      by (simp add: built_subtokens_mask_def word_align_def [abs_def] times_def nat_diff_distrib')
    have c: "count_list (all_subtokens_mask f ! i) 1 = length (query_words (queries ! i))"
      by (simp add: a count_built_subtokens_mask count_list_replicate_other)
    from a b c show "all_subtokens_mask f ! i
           = 0 # concat (map (\<lambda>w. 1 # replicate (length (text_to_tokens tok w) - 1) 0)
                           (query_words (queries ! i)))
               @ [0] @ replicate (nat (max_length rep) - length (subtokens (ss ! i))) 0 \<and>
         count_list (all_subtokens_mask f ! i) 1 = length (query_words (queries ! i)) \<and>
         count_list (all_subtokens_mask f ! i) 1 = word_count (queries ! i)"
      by (simp add: rep_def length_query_words)
  qed
  from fl len C W show ?thesis by blast
qed

text \<open>The sentence \<open>d\<close> of the batch \<open>ab c\<close>, \<open>d\<close> is not truncated at
  \<open>max_seq_length = 4\<close>; it has one word and one entry 1 in its mask. The sentence made
  of \<open>a\<close>, a no-break space and \<open>b\<close> has two words and two entries 1 in its mask.\<close>

theorem subtokens_mask_word_count_witness:
  "ex_queries \<noteq> [] \<and> labels_ok ex_label_ids ''O'' (Some ex_raw_labels) ex_queries \<and>
   (\<exists>f rep.
      get_features ex_queries 4 ex_tok ex_label_ids ''O'' (Some ex_raw_labels) False False
        = Inr (f, rep) \<and>
      all_subtokens_mask f ! 1 = [0, 1, 0, 0] \<and>
      count_list (all_subtokens_mask f ! 1) 1 = 1 \<and>
      word_count (ex_queries ! 1) = 1) \<and>
   labels_ok None ''O'' None [ex_query_nbsp] \<and>
   (\<exists>f rep.
      get_features [ex_query_nbsp] 10 ex_tok None ''O'' None False False = Inr (f, rep) \<and>
      query_words ex_query_nbsp = [''a'', ''b''] \<and>
      all_subtokens_mask f ! 0 = [0, 1, 1, 0] \<and>
      count_list (all_subtokens_mask f ! 0) 1 = 2 \<and>
      word_count ex_query_nbsp = 2)"
proof -
  have h1: "ex_queries \<noteq> []" by (simp add: ex_queries_def)
  from subtokens_mask_word_count [OF h1 ex_labels_ok, of ex_tok False False 4]
  obtain f rep where
    g: "get_features ex_queries 4 ex_tok ex_label_ids ''O'' (Some ex_raw_labels) False False
        = Inr (f, rep)"
    by blast
  have "get_features ex_queries 4 ex_tok ex_label_ids ''O'' (Some ex_raw_labels) False False
        = Inr (\<lparr>all_input_ids = [[5, 1, 1, 5], [5, 1, 5, 0]],
                all_segment_ids = [[0, 0, 0, 0], [0, 0, 0, 0]],
                all_input_mask = [[1, 1, 1, 1], [1, 1, 1, 0]],
                all_loss_mask = [[1, 1, 1, 1], [1, 1, 1, 0]],
                all_subtokens_mask = [[0, 0, 1, 0], [0, 1, 0, 0]],
                all_labels = [[0, 1, 0, 0], [0, 0, 0, 0]]\<rparr>,
               \<lparr>max_length = 4, too_long = 1\<rparr>)"
    by code_simp
  with g have "all_subtokens_mask f ! 1 = [0, 1, 0, 0] \<and>
      count_list (all_subtokens_mask f ! 1) 1 = 1"
    by auto
  moreover have "word_count (ex_queries ! 1) = 1"
    by (simp add: ex_queries_def word_count_def is_space_def whitespace_def)
  ultimately have A: "\<exists>f rep.
      get_features ex_queries 4 ex_tok ex_label_ids ''O'' (Some ex_raw_labels) False False
        = Inr (f, rep) \<and>
      all_subtokens_mask f ! 1 = [0, 1, 0, 0] \<and>
      count_list (all_subtokens_mask f ! 1) 1 = 1 \<and>
      word_count (ex_queries ! 1) = 1"
    using g by blast
  have h2: "[ex_query_nbsp] \<noteq> []" by simp
  have h3: "labels_ok None ''O'' None [ex_query_nbsp]"
    by (simp add: labels_ok_def)
  have w: "query_words ex_query_nbsp = [''a'', ''b'']"
    by (simp add: ex_query_nbsp_def query_words_def split_def strip_def is_space_def
          whitespace_def)
  from subtokens_mask_word_count [OF h2 h3, of ex_tok False False 10]
  obtain f' rep' ss pid where
    g': "get_features [ex_query_nbsp] 10 ex_tok None ''O'' None False False = Inr (f', rep')" and
    s: "first_loop ex_tok None ''O'' None False False 0 [ex_query_nbsp] None = Inr (ss, pid)" and
    c: "\<forall>i < length [ex_query_nbsp].
         int (length (subtokens (ss ! i))) \<le> max_length rep' \<longrightarrow>
         all_subtokens_mask f' ! i
           = 0 # concat (map (\<lambda>w. 1 # replicate (length (text_to_tokens ex_tok w) - 1) 0)
                           (query_words ([ex_query_nbsp] ! i)))
               @ [0] @ replicate (nat (max_length rep') - length (subtokens (ss ! i))) 0 \<and>
         count_list (all_subtokens_mask f' ! i) 1 = length (query_words ([ex_query_nbsp] ! i)) \<and>
         count_list (all_subtokens_mask f' ! i) 1 = word_count ([ex_query_nbsp] ! i)"
    by blast
  have "get_features [ex_query_nbsp] 10 ex_tok None ''O'' None False False
        = Inr (\<lparr>all_input_ids = [[5, 1, 1, 5]],
                all_segment_ids = [[0, 0, 0, 0]],
                all_input_mask = [[1, 1, 1, 1]],
                all_loss_mask = [[1, 1, 1, 1]],
                all_subtokens_mask = [[0, 1, 1, 0]],
                all_labels = []\<rparr>,
               \<lparr>max_length = 4, too_long = 0\<rparr>)"
    by code_simp
  with g' have v: "all_subtokens_mask f' ! 0 = [0, 1, 1, 0]" "max_length rep' = 4"
    by auto
  have "first_loop ex_tok None ''O'' None False False 0 [ex_query_nbsp] None
      = Inr ([\<lparr>subtokens = [''[CLS]'', ''a'', ''b'', ''[SEP]''],
               input_mask = [1, 1, 1, 1], loss_mask = [1, 1, 1, 1],
               subtokens_mask = [0, 1, 1, 0], labels = []\<rparr>], None)"
    by code_simp
  with s have le: "int (length (subtokens (ss ! 0))) \<le> max_length rep'"
    by (auto simp: v(2))
  have i0: "0 < length [ex_query_nbsp]"
    by simp
  from c [rule_format, OF i0, unfolded nth_Cons_0] le have
    "count_list (all_subtokens_mask f' ! 0) 1 = length (query_words ex_query_nbsp)"
    "count_list (all_subtokens_mask f' ! 0) 1 = word_count ex_query_nbsp"
    by blast+
  with w have "count_list (all_subtokens_mask f' ! 0) 1 = 2" "word_count ex_query_nbsp = 2"
    by simp_all
  with g' w v(1) have B: "\<exists>f rep.
      get_features [ex_query_nbsp] 10 ex_tok None ''O'' None False False = Inr (f, rep) \<and>
      query_words ex_query_nbsp = [''a'', ''b''] \<and>
      all_subtokens_mask f ! 0 = [0, 1, 1, 0] \<and>
      count_list (all_subtokens_mask f ! 0) 1 = 2 \<and>
      word_count ex_query_nbsp = 2"
    by blast
  from h1 ex_labels_ok A h3 B show ?thesis by blast
qed

subsection \<open>Errors of the training dataset\<close>

text \<open>
  C8, as amended. The constructor of the training dataset raises \<open>ValueError\<close> whenever
  the name of the text file does not end in \<open>.txt\<close>. The two other checks are made only
  by a process that computes the features, that is by the master process when the cached
  file is absent or \<open>overwrite_processed_files\<close> is set: there a sample count of zero
  raises \<open>ValueError\<close>, and, for another sample count and two readable files, a number
  of label lines different from the number of text lines raises \<open>ValueError\<close>; both
  whatever the tokenizer and the labels are, so before anything is encoded. With a negative
  sample count all lines are encoded, and the features are dumped before the barrier and
  the load. A process that does not compute the features (the cached file exists and is
  not to be overwritten, or the process is not the master) looks neither at the sample
  count nor at the two files: it passes the barrier, if \<open>torch.distributed\<close> is
  initialised, and loads the cached file as it is then, which raises
  \<open>FileNotFoundError\<close> when there is none.
\<close>

theorem dataset_init_errors:
  "(endswith (basename text_file) ''.txt'' = endswith text_file ''.txt'') \<and>
   (\<not> endswith text_file ''.txt'' \<longrightarrow>
      dataset_init e barrier text_file label_file max_seq_length tok tokenizer_type vocab_size
        label_ids num_samples pad_label ignore_extra_tokens ignore_start_end
        overwrite_processed_files
      = Some (Inl (ValueError ''{text_file} should have extension .txt''))) \<and>
   (endswith text_file ''.txt'' \<and>
    recomputes e text_file tokenizer_type max_seq_length vocab_size overwrite_processed_files \<and>
    num_samples = 0 \<longrightarrow>
      dataset_init e barrier text_file label_file max_seq_length tok tokenizer_type vocab_size
        label_ids num_samples pad_label ignore_extra_tokens ignore_start_end
        overwrite_processed_files
      = Some (Inl (ValueError ''num_samples has to be positive''))) \<and>
   (endswith text_file ''.txt'' \<and>
    recomputes e text_file tokenizer_type max_seq_length vocab_size overwrite_processed_files \<and>
    num_samples \<noteq> 0 \<and> files e text_file = Some text_lines \<and>
    files e label_file = Some label_lines \<and> length label_lines \<noteq> length text_lines \<longrightarrow>
      dataset_init e barrier text_file label_file max_seq_length tok tokenizer_type vocab_size
        label_ids num_samples pad_label ignore_extra_tokens ignore_start_end
        overwrite_processed_files
      = Some (Inl (ValueError ''Labels file should contain labels for every word''))) \<and>
   (endswith text_file ''.txt'' \<and>
    recomputes e text_file tokenizer_type max_seq_length vocab_size overwrite_processed_files \<and>
    num_samples < 0 \<and> files e text_file = Some text_lines \<and>
    files e label_file = Some label_lines \<and> length label_lines = length text_lines \<longrightarrow>
      dataset_init e barrier text_file label_file max_seq_length tok tokenizer_type vocab_size
        label_ids num_samples pad_label ignore_extra_tokens ignore_start_end
        overwrite_processed_files
      = (case get_features text_lines max_seq_length tok label_ids pad_label
                (Some (map (\<lambda>line. split (strip line)) label_lines))
                ignore_extra_tokens ignore_start_end of
           Inl err \<Rightarrow> Some (Inl err)
         | Inr (features, log) \<Rightarrow>
             load_cached
               (e\<lparr>pickles := (pickles e)
                  (features_pkl_path text_file tokenizer_type max_seq_length vocab_size
                     \<mapsto> features)\<rparr>)
               barrier
               (features_pkl_path text_file tokenizer_type max_seq_length vocab_size))) \<and>
   (endswith text_file ''.txt'' \<and>
    \<not> recomputes e text_file tokenizer_type max_seq_length vocab_size
        overwrite_processed_files \<longrightarrow>
      dataset_init e barrier text_file label_file max_seq_length tok tokenizer_type vocab_size
        label_ids num_samples pad_label ignore_extra_tokens ignore_start_end
        overwrite_processed_files
      = load_cached e barrier
          (features_pkl_path text_file tokenizer_type max_seq_length vocab_size))"
proof (intro conjI impI)
  show "endswith (basename text_file) ''.txt'' = endswith text_file ''.txt''"
    by (rule endswith_basename)
next
  assume "\<not> endswith text_file ''.txt''"
  then show "dataset_init e barrier text_file label_file max_seq_length tok tokenizer_type
        vocab_size label_ids num_samples pad_label ignore_extra_tokens ignore_start_end
        overwrite_processed_files
      = Some (Inl (ValueError ''{text_file} should have extension .txt''))"
    by (rule dataset_init_extension)
next
  assume "endswith text_file ''.txt'' \<and>
    recomputes e text_file tokenizer_type max_seq_length vocab_size overwrite_processed_files \<and>
    num_samples = 0"
  then show "dataset_init e barrier text_file label_file max_seq_length tok tokenizer_type
        vocab_size label_ids num_samples pad_label ignore_extra_tokens ignore_start_end
        overwrite_processed_files
      = Some (Inl (ValueError ''num_samples has to be positive''))"
    by (simp add: dataset_init_recomputes compute_features_def)
next
  assume "endswith text_file ''.txt'' \<and>
    recomputes e text_file tokenizer_type max_seq_length vocab_size overwrite_processed_files \<and>
    num_samples \<noteq> 0 \<and> files e text_file = Some text_lines \<and>
    files e label_file = Some label_lines \<and> length label_lines \<noteq> length text_lines"
  then show "dataset_init e barrier text_file label_file max_seq_length tok tokenizer_type
        vocab_size label_ids num_samples pad_label ignore_extra_tokens ignore_start_end
        overwrite_processed_files
      = Some (Inl (ValueError ''Labels file should contain labels for every word''))"
    by (simp add: dataset_init_recomputes compute_features_def read_lines_def Let_def)
next
  assume "endswith text_file ''.txt'' \<and>
    recomputes e text_file tokenizer_type max_seq_length vocab_size overwrite_processed_files \<and>
    num_samples < 0 \<and> files e text_file = Some text_lines \<and>
    files e label_file = Some label_lines \<and> length label_lines = length text_lines"
  then show "dataset_init e barrier text_file label_file max_seq_length tok tokenizer_type
        vocab_size label_ids num_samples pad_label ignore_extra_tokens ignore_start_end
        overwrite_processed_files
      = (case get_features text_lines max_seq_length tok label_ids pad_label
                (Some (map (\<lambda>line. split (strip line)) label_lines))
                ignore_extra_tokens ignore_start_end of
           Inl err \<Rightarrow> Some (Inl err)
         | Inr (features, log) \<Rightarrow>
             load_cached
               (e\<lparr>pickles := (pickles e)
                  (features_pkl_path text_file tokenizer_type max_seq_length vocab_size
                     \<mapsto> features)\<rparr>)
               barrier
               (features_pkl_path text_file tokenizer_type max_seq_length vocab_size))"
    by (simp add: dataset_init_recomputes compute_features_def read_lines_def Let_def
          take_samples_def split: sum.splits prod.splits)
next
  assume "endswith text_file ''.txt'' \<and>
    \<not> recomputes e text_file tokenizer_type max_seq_length vocab_size
        overwrite_processed_files"
  then show "dataset_init e barrier text_file label_file max_seq_length tok tokenizer_type
        vocab_size label_ids num_samples pad_label ignore_extra_tokens ignore_start_end
        overwrite_processed_files
      = load_cached e barrier
          (features_pkl_path text_file tokenizer_type max_seq_length vocab_size)"
    by (simp add: dataset_init_cached)
qed

text \<open>Without a cached file, on a single process: a text file named \<open>t.csv\<close>, a sample
  count of 0, and a text file of three lines with a label file of two lines are each
  refused. In a group of two processes without a cached file and with a negative sample
  count, the master encodes the one sentence, dumps the features and loads them; the other
  process loads at the barrier what the master has dumped, also with a sample count of 0,
  and never returns when the master never reaches the barrier.\<close>

theorem dataset_init_errors_witness:
  "dataset_init ex_env_fresh ex_barrier_same ''d/t.csv'' ''d/l.txt'' 4 ex_tok ''BertTokenizer''
      0 ex_label_ids (- 1) ''O'' False False False
     = Some (Inl (ValueError ''{text_file} should have extension .txt'')) \<and>
   dataset_init ex_env_fresh ex_barrier_same ''d/t.txt'' ''d/l.txt'' 4 ex_tok ''BertTokenizer''
      0 ex_label_ids 0 ''O'' False False False
     = Some (Inl (ValueError ''num_samples has to be positive'')) \<and>
   dataset_init ex_env_fresh ex_barrier_same ''d/t.txt'' ''d/l.txt'' 4 ex_tok ''BertTokenizer''
      0 ex_label_ids (- 1) ''O'' False False False
     = Some (Inl (ValueError ''Labels file should contain labels for every word'')) \<and>
   dataset_init ex_env_master ex_barrier_same ''d/t.txt'' ''d/l.txt'' 4 ex_tok ''BertTokenizer''
      0 ex_label_ids (- 1) ''O'' False False False
     = Some (Inr (dataset_of ex_features,
          ex_env_master\<lparr>pickles := [''d/cached_t.txt_BertTokenizer_4_0'' \<mapsto> ex_features]\<rparr>)) \<and>
   dataset_init ex_env_worker ex_barrier_dumped ''d/t.txt'' ''d/l.txt'' 4 ex_tok
      ''BertTokenizer'' 0 ex_label_ids 0 ''O'' False False False
     = Some (Inr (dataset_of ex_features,
          ex_env_worker\<lparr>pickles := [''d/cached_t.txt_BertTokenizer_4_0'' \<mapsto> ex_features]\<rparr>)) \<and>
   dataset_init ex_env_worker ex_barrier_never ''d/t.txt'' ''d/l.txt'' 4 ex_tok
      ''BertTokenizer'' 0 ex_label_ids (- 1) ''O'' False False False
     = None"
proof -
  have f: "files ex_env_fresh ''d/t.txt'' = Some [''a'', ''b'', ''c'']"
    "files ex_env_fresh ''d/l.txt'' = Some [''B'', ''B'']"
    by (simp_all add: ex_env_fresh_def)
  have fm: "files ex_env_master ''d/t.txt'' = Some [''d'']"
    "files ex_env_master ''d/l.txt'' = Some [''B'']"
    by (simp_all add: ex_env_master_def)
  have sp: "split (strip ''B'') = [''B'']"
    by (simp add: split_def strip_def is_space_def whitespace_def)
  have pm: "pickles ex_env_master = Map.empty" "\<not> dist_initialized ex_env_fresh"
    by (simp_all add: ex_env_master_def ex_env_fresh_def)
  note t = dataset_init_errors [where tok = ex_tok and tokenizer_type = "''BertTokenizer''"
      and max_seq_length = 4 and vocab_size = 0 and label_ids = ex_label_ids
      and label_file = "''d/l.txt''" and pad_label = "''O''"
      and ignore_extra_tokens = False and ignore_start_end = False
      and overwrite_processed_files = False]
  from t [where text_file = "''d/t.csv''" and e = ex_env_fresh and barrier = ex_barrier_same
      and num_samples = "- 1"]
  have a: "dataset_init ex_env_fresh ex_barrier_same ''d/t.csv'' ''d/l.txt'' 4 ex_tok
      ''BertTokenizer'' 0 ex_label_ids (- 1) ''O'' False False False
     = Some (Inl (ValueError ''{text_file} should have extension .txt''))"
    using ex_endswith(2) by blast
  from t [where text_file = "''d/t.txt''" and e = ex_env_fresh and barrier = ex_barrier_same
      and num_samples = 0]
  have b: "dataset_init ex_env_fresh ex_barrier_same ''d/t.txt'' ''d/l.txt'' 4 ex_tok
      ''BertTokenizer'' 0 ex_label_ids 0 ''O'' False False False
     = Some (Inl (ValueError ''num_samples has to be positive''))"
    using ex_endswith(1) ex_recomputes_fresh by blast
  from t [where text_file = "''d/t.txt''" and e = ex_env_fresh and barrier = ex_barrier_same
      and num_samples = "- 1" and text_lines = "[''a'', ''b'', ''c'']"
      and label_lines = "[''B'', ''B'']"]
  have c: "dataset_init ex_env_fresh ex_barrier_same ''d/t.txt'' ''d/l.txt'' 4 ex_tok
      ''BertTokenizer'' 0 ex_label_ids (- 1) ''O'' False False False
     = Some (Inl (ValueError ''Labels file should contain labels for every word''))"
    using ex_endswith(1) ex_recomputes_fresh f by simp
  from t [where text_file = "''d/t.txt''" and e = ex_env_master and barrier = ex_barrier_same
      and num_samples = "- 1" and text_lines = "[''d'']" and label_lines = "[''B'']"]
  have d: "dataset_init ex_env_master ex_barrier_same ''d/t.txt'' ''d/l.txt'' 4 ex_tok
      ''BertTokenizer'' 0 ex_label_ids (- 1) ''O'' False False False
     = Some (Inr (dataset_of ex_features,
          ex_env_master\<lparr>pickles := [''d/cached_t.txt_BertTokenizer_4_0'' \<mapsto> ex_features]\<rparr>))"
    using ex_endswith(1) ex_recomputes_master fm
    by (simp add: sp ex_get_features_d ex_path load_cached_def ex_barrier_same_def pm)
  from t [where text_file = "''d/t.txt''" and e = ex_env_worker and barrier = ex_barrier_dumped
      and num_samples = 0]
  have w: "dataset_init ex_env_worker ex_barrier_dumped ''d/t.txt'' ''d/l.txt'' 4 ex_tok
      ''BertTokenizer'' 0 ex_label_ids 0 ''O'' False False False
     = Some (Inr (dataset_of ex_features,
          ex_env_worker\<lparr>pickles := [''d/cached_t.txt_BertTokenizer_4_0'' \<mapsto> ex_features]\<rparr>))"
    using ex_endswith(1) ex_recomputes_worker
    by (simp add: ex_path load_cached_def ex_barrier_dumped_def ex_env_worker_def)
  from t [where text_file = "''d/t.txt''" and e = ex_env_worker and barrier = ex_barrier_never
      and num_samples = "- 1"]
  have n: "dataset_init ex_env_worker ex_barrier_never ''d/t.txt'' ''d/l.txt'' 4 ex_tok
      ''BertTokenizer'' 0 ex_label_ids (- 1) ''O'' False False False = None"
    using ex_endswith(1) ex_recomputes_worker
    by (simp add: ex_path load_cached_def ex_barrier_never_def ex_env_worker_def)
  from a b c d w n show ?thesis by blast
qed

text \<open>C8 as stated fails when the cached file exists and is not to be overwritten: on a
  single process a sample count of 0, and a label file of two lines next to a text file of
  three lines, raise nothing; the constructor returns the cached features.\<close>

theorem dataset_init_errors_counterexample:
  "map_option (map_sum id fst)
     (dataset_init ex_env_cached ex_barrier_same ''d/t.txt'' ''d/l.txt'' 4 ex_tok
        ''BertTokenizer'' 0 ex_label_ids 0 ''O'' False False False)
     = Some (Inr (dataset_of ex_features)) \<and>
   files ex_env_cached ''d/t.txt'' = Some [''a'', ''b'', ''c''] \<and>
   files ex_env_cached ''d/l.txt'' = Some [''B'', ''B''] \<and>
   map_option (map_sum id fst)
     (dataset_init ex_env_cached ex_barrier_same ''d/t.txt'' ''d/l.txt'' 4 ex_tok
        ''BertTokenizer'' 0 ex_label_ids (- 1) ''O'' False False False)
     = Some (Inr (dataset_of ex_features))"
proof -
  have p: "pickles ex_env_cached ''d/cached_t.txt_BertTokenizer_4_0'' = Some ex_features"
    "\<not> dist_initialized ex_env_cached"
    by (simp_all add: ex_env_cached_def)
  have f: "files ex_env_cached ''d/t.txt'' = Some [''a'', ''b'', ''c'']"
    "files ex_env_cached ''d/l.txt'' = Some [''B'', ''B'']"
    by (simp_all add: ex_env_cached_def)
  from p f show ?thesis
    by (simp add: dataset_init_cached [OF ex_endswith(1) ex_recomputes_cached] ex_path
          load_cached_def)
qed

subsection \<open>The empty batch\<close>

text \<open>
  C9. For the empty list of queries \<open>get_features\<close> fails: the effective length is the
  maximum of an empty list of sentence lengths, which raises \<open>ValueError\<close>. The error is
  raised for no other input, so a non-empty list of queries is exactly the precondition
  under which this branch is unreachable.
\<close>

theorem get_features_empty_queries:
  "(get_features queries max_seq_length tok label_ids pad_label raw_labels
       ignore_extra_tokens ignore_start_end
      = Inl (ValueError ''max() arg is an empty sequence'')) = (queries = [])"
proof
  assume "get_features queries max_seq_length tok label_ids pad_label raw_labels
       ignore_extra_tokens ignore_start_end
      = Inl (ValueError ''max() arg is an empty sequence'')"
  then show "queries = []" by (rule get_features_max_error)
next
  assume "queries = []"
  then show "get_features queries max_seq_length tok label_ids pad_label raw_labels
       ignore_extra_tokens ignore_start_end
      = Inl (ValueError ''max() arg is an empty sequence'')"
    by (simp add: get_features_Nil)
qed

subsection \<open>Inference mode\<close>

text \<open>
  C10, as amended. For every non-empty list of queries and no labels, \<open>get_features\<close>
  returns its six lists; the first five have one entry per query and the sixth, the
  labels, is the empty list. The inference dataset is built from this result with the
  default arguments, keeps the first five lists, has one item per query, and an item is
  the five entries at its index.
\<close>

theorem inference_mode_labels:
  assumes "queries \<noteq> []"
  shows "(\<exists>f rep.
      get_features queries max_seq_length tok label_ids pad_label None
        ignore_extra_tokens ignore_start_end = Inr (f, rep) \<and>
      all_labels f = [] \<and>
      length (all_input_ids f) = length queries \<and>
      length (all_segment_ids f) = length queries \<and>
      length (all_input_mask f) = length queries \<and>
      length (all_loss_mask f) = length queries \<and>
      length (all_subtokens_mask f) = length queries) \<and>
    (\<exists>f rep ds.
      get_features queries max_seq_length tok None ''O'' None False False = Inr (f, rep) \<and>
      infer_init queries max_seq_length tok = Inr ds \<and>
      ds = \<lparr>infer_input_ids = all_input_ids f,
            infer_segment_ids = all_segment_ids f,
            infer_input_mask = all_input_mask f,
            infer_loss_mask = all_loss_mask f,
            infer_subtokens_mask = all_subtokens_mask f\<rparr> \<and>
      infer_len ds = length queries \<and>
      (\<forall>idx < length queries.
         infer_getitem ds (int idx)
           = Inr (all_input_ids f ! idx, all_segment_ids f ! idx, all_input_mask f ! idx,
                  all_loss_mask f ! idx, all_subtokens_mask f ! idx)))"
proof -
  have ok: "labels_ok lids pad None queries" for lids pad
    by (simp add: labels_ok_def)
  have A: "\<exists>f rep.
      get_features queries max_seq_length tok lids pad None iet ise = Inr (f, rep) \<and>
      all_labels f = [] \<and>
      length (all_input_ids f) = length queries \<and>
      length (all_segment_ids f) = length queries \<and>
      length (all_input_mask f) = length queries \<and>
      length (all_loss_mask f) = length queries \<and>
      length (all_subtokens_mask f) = length queries" for lids pad iet ise
  proof -
    from assms ok [of lids pad] obtain ss pid where
      "length ss = length queries"
      "get_features queries max_seq_length tok lids pad None iet ise =
       Inr (rows_features (None \<noteq> (None :: string list list option))
              (map (fit tok ise (if None \<noteq> (None :: string list list option) then pid else None)
                      (effective_max_length max_seq_length tok queries)) ss),
            \<lparr>max_length = effective_max_length max_seq_length tok queries,
             too_long = length (filter (\<lambda>q. int (sent_length tok q)
                 > effective_max_length max_seq_length tok queries) queries)\<rparr>)"
      by (rule get_features_returns [where raw_labels = None])
    then show ?thesis
      by (simp add: rows_features_simps)
  qed
  from A [of None "''O''" False False] obtain f rep where
    g: "get_features queries max_seq_length tok None ''O'' None False False = Inr (f, rep)" and
    l: "length (all_input_ids f) = length queries"
      "length (all_segment_ids f) = length queries"
      "length (all_input_mask f) = length queries"
      "length (all_loss_mask f) = length queries"
      "length (all_subtokens_mask f) = length queries"
    by blast
  define ds where "ds = \<lparr>infer_input_ids = all_input_ids f,
            infer_segment_ids = all_segment_ids f,
            infer_input_mask = all_input_mask f,
            infer_loss_mask = all_loss_mask f,
            infer_subtokens_mask = all_subtokens_mask f\<rparr>"
  have i: "infer_init queries max_seq_length tok = Inr ds"
    using g by (simp add: infer_init_def ds_def)
  have n: "infer_len ds = length queries"
    using l by (simp add: infer_len_def ds_def)
  have t: "\<forall>idx < length queries.
         infer_getitem ds (int idx)
           = Inr (all_input_ids f ! idx, all_segment_ids f ! idx, all_input_mask f ! idx,
                  all_loss_mask f ! idx, all_subtokens_mask f ! idx)"
    using l by (simp add: infer_getitem_def ds_def py_index_nat)
  from g i n t ds_def have B: "\<exists>f rep ds.
      get_features queries max_seq_length tok None ''O'' None False False = Inr (f, rep) \<and>
      infer_init queries max_seq_length tok = Inr ds \<and>
      ds = \<lparr>infer_input_ids = all_input_ids f,
            infer_segment_ids = all_segment_ids f,
            infer_input_mask = all_input_mask f,
            infer_loss_mask = all_loss_mask f,
            infer_subtokens_mask = all_subtokens_mask f\<rparr> \<and>
      infer_len ds = length queries \<and>
      (\<forall>idx < length queries.
         infer_getitem ds (int idx)
           = Inr (all_input_ids f ! idx, all_segment_ids f ! idx, all_input_mask f ! idx,
                  all_loss_mask f ! idx, all_subtokens_mask f ! idx))"
    by blast
  from A [of label_ids pad_label ignore_extra_tokens ignore_start_end] B show ?thesis
    by (rule conjI)
qed

text \<open>Two queries in inference mode: the labels are the empty list, the dataset has two
  items.\<close>

theorem inference_mode_labels_witness:
  "ex_queries \<noteq> [] \<and>
   get_features ex_queries 4 ex_tok None ''O'' None False False
     = Inr (\<lparr>all_input_ids = [[5, 1, 1, 5], [5, 1, 5, 0]],
             all_segment_ids = [[0, 0, 0, 0], [0, 0, 0, 0]],
             all_input_mask = [[1, 1, 1, 1], [1, 1, 1, 0]],
             all_loss_mask = [[1, 1, 1, 1], [1, 1, 1, 0]],
             all_subtokens_mask = [[0, 0, 1, 0], [0, 1, 0, 0]],
             all_labels = []\<rparr>,
            \<lparr>max_length = 4, too_long = 1\<rparr>) \<and>
   (\<exists>ds. infer_init ex_queries 4 ex_tok = Inr ds \<and> infer_len ds = 2 \<and>
      infer_getitem ds 1 = Inr ([5, 1, 5, 0], [0, 0, 0, 0], [1, 1, 1, 0], [1, 1, 1, 0], [0, 1, 0, 0]))"
proof -
  have h1: "ex_queries \<noteq> []" by (simp add: ex_queries_def)
  have e: "get_features ex_queries 4 ex_tok None ''O'' None False False
     = Inr (\<lparr>all_input_ids = [[5, 1, 1, 5], [5, 1, 5, 0]],
             all_segment_ids = [[0, 0, 0, 0], [0, 0, 0, 0]],
             all_input_mask = [[1, 1, 1, 1], [1, 1, 1, 0]],
             all_loss_mask = [[1, 1, 1, 1], [1, 1, 1, 0]],
             all_subtokens_mask = [[0, 0, 1, 0], [0, 1, 0, 0]],
             all_labels = []\<rparr>,
            \<lparr>max_length = 4, too_long = 1\<rparr>)"
    by code_simp
  have l: "length ex_queries = 2" by (simp add: ex_queries_def)
  from inference_mode_labels [OF h1, of 4 ex_tok None "''O''" False False]
  obtain f rep ds where
    "get_features ex_queries 4 ex_tok None ''O'' None False False = Inr (f, rep)"
    "infer_init ex_queries 4 ex_tok = Inr ds" "infer_len ds = length ex_queries"
    "\<forall>idx < length ex_queries.
         infer_getitem ds (int idx)
           = Inr (all_input_ids f ! idx, all_segment_ids f ! idx, all_input_mask f ! idx,
                  all_loss_mask f ! idx, all_subtokens_mask f ! idx)"
    by blast
  with e l have "infer_init ex_queries 4 ex_tok = Inr ds \<and> infer_len ds = 2 \<and>
      infer_getitem ds 1 = Inr ([5, 1, 5, 0], [0, 0, 0, 0], [1, 1, 1, 0], [1, 1, 1, 0], [0, 1, 0, 0])"
    by (auto dest: spec [of _ 1])
  with h1 e show ?thesis by blast
qed

text \<open>C10 as stated fails for the empty list of queries: \<open>get_features\<close> raises and returns
  no six lists, and so does the constructor of the inference dataset.\<close>

theorem inference_mode_labels_counterexample:
  "get_features [] 4 ex_tok None ''O'' None False False
     = Inl (ValueError ''max() arg is an empty sequence'')
   \<and> infer_init [] 4 ex_tok = Inl (ValueError ''max() arg is an empty sequence'')"
  by (simp add: infer_init_def get_features_Nil)

end
